theory Spec2Isabelle
  imports Complex_Main "HOL-Library.AList" "HOL-Library.Multiset" "HOL-Library.Sublist" "HOL-Library.Word"
begin

unbundle bit_operations_syntax

section \<open>JavaScript built-ins used by the sources\<close>

text \<open>
  \<^verbatim>\<open>String.prototype.startsWith\<close> and \<^verbatim>\<open>endsWith\<close> on the receiver \<open>s\<close>.
\<close>

definition startsWith :: "string \<Rightarrow> string \<Rightarrow> bool" where
  "startsWith s p = prefix p s"

definition endsWith :: "string \<Rightarrow> string \<Rightarrow> bool" where
  "endsWith s p = prefix (rev p) (rev s)"

text \<open>
  \<^verbatim>\<open>Array.prototype.sort(compareFn)\<close>. ECMAScript (since ES2019) requires the sort to be
  stable, and for a consistent comparator every stable sort returns the same array. The
  model is the stable insertion sort: elements are inserted from the right end, each one in
  front of the first element it does not compare greater than.
\<close>

fun insertCmp :: "('a \<Rightarrow> 'a \<Rightarrow> int) \<Rightarrow> 'a \<Rightarrow> 'a list \<Rightarrow> 'a list" where
  "insertCmp cmp x [] = [x]"
| "insertCmp cmp x (y # ys) = (if cmp x y \<le> 0 then x # y # ys else y # insertCmp cmp x ys)"

definition arraySort :: "('a \<Rightarrow> 'a \<Rightarrow> int) \<Rightarrow> 'a list \<Rightarrow> 'a list" where
  "arraySort cmp xs = foldr (insertCmp cmp) xs []"

section \<open>DnsCodec: messages and records\<close>

text \<open>
  \<^verbatim>\<open>codec/DnsCodec.js\<close> is not among the sources; its types are read off their uses in
  MdnsScanner.ts and MdnsServer.ts. The decoder types a record's value by its record type, so
  the model derives \<^verbatim>\<open>recordType\<close> from the value's constructor.
\<close>

type_synonym ByteArray = "8 word list"

datatype DnsRecordType = RT_A | RT_AAAA | RT_SRV | RT_TXT | RT_PTR | RT_ANY | RT_Other nat

datatype DnsRecordClass = RC_IN | RC_Other nat

datatype DnsMessageType = Query | TruncatedQuery | Response | TruncatedResponse | OtherMessageType nat

record DnsQuery =
  queryName :: string
  queryType :: DnsRecordType
  queryClass :: DnsRecordClass
  uniCastResponse :: bool

text \<open>\<^verbatim>\<open>SrvValue priority weight port target\<close>; \<^verbatim>\<open>RawValue\<close> carries the numeric record type.\<close>

datatype DnsRecordValue =
    PtrValue string
  | SrvValue nat nat nat string
  | TxtValue "string list"
  | AaaaValue string
  | AValue string
  | RawValue nat ByteArray

record DnsRecord =
  name :: string
  recordClass :: DnsRecordClass
  ttl :: nat
  recordValue :: DnsRecordValue

definition recordType :: "DnsRecord \<Rightarrow> DnsRecordType" where
  "recordType r =
     (case recordValue r of
        PtrValue _ \<Rightarrow> RT_PTR
      | SrvValue _ _ _ _ \<Rightarrow> RT_SRV
      | TxtValue _ \<Rightarrow> RT_TXT
      | AaaaValue _ \<Rightarrow> RT_AAAA
      | AValue _ \<Rightarrow> RT_A
      | RawValue n _ \<Rightarrow> RT_Other n)"

text \<open>
  \<^verbatim>\<open>DnsMessage\<close> carries records (\<open>'r = DnsRecord\<close>); \<^verbatim>\<open>DnsMessagePartiallyPreEncoded\<close>
  carries records that \<^verbatim>\<open>DnsCodec.encodeRecord\<close> has already encoded (\<open>'r = ByteArray\<close>).
\<close>

record 'r DnsMessage =
  messageType :: DnsMessageType
  transactionId :: nat
  queries :: "DnsQuery list"
  answers :: "'r list"
  authorities :: "'r list"
  additionalRecords :: "'r list"

text \<open>
  Modelled from the spec: the constant \<^verbatim>\<open>MAX_MDNS_MESSAGE_SIZE\<close> of DnsCodec.js, which the
  spec gives as 1500 bytes.
\<close>

definition MAX_MDNS_MESSAGE_SIZE :: nat where
  "MAX_MDNS_MESSAGE_SIZE = 1500"

text \<open>
  Modelled from the spec: \<^verbatim>\<open>DnsCodec.encode\<close>, which is not among the sources. The spec
  makes it an RFC 1035 message: the 12-byte header (transaction id, flags, four section
  counts, each a big-endian 16-bit number), the question section, then the records of the
  answer, authority and additional sections, a pre-encoded record being written as it is.
  The flags are those of the message type (QR and AA for a response, TC for a truncated
  message). The encoder of one question is a parameter.
\<close>

definition u16 :: "nat \<Rightarrow> ByteArray" where
  "u16 n = [word_of_nat (n div 256), word_of_nat n]"

definition messageTypeFlags :: "DnsMessageType \<Rightarrow> nat" where
  "messageTypeFlags t =
     (case t of Query \<Rightarrow> 0 | TruncatedQuery \<Rightarrow> 512 | Response \<Rightarrow> 33792
      | TruncatedResponse \<Rightarrow> 34304 | OtherMessageType n \<Rightarrow> n)"

definition DnsCodec_encode :: "(DnsQuery \<Rightarrow> ByteArray) \<Rightarrow> ByteArray DnsMessage \<Rightarrow> ByteArray" where
  "DnsCodec_encode encodeQuery m =
     u16 (transactionId m) @ u16 (messageTypeFlags (messageType m))
     @ u16 (length (queries m)) @ u16 (length (answers m))
     @ u16 (length (authorities m)) @ u16 (length (additionalRecords m))
     @ concat (map encodeQuery (queries m))
     @ concat (answers m) @ concat (authorities m) @ concat (additionalRecords m)"

section \<open>MdnsScanner: state\<close>

text \<open>
  The cache entries are JavaScript objects assembled with spread syntax from TXT data, so
  they are modelled as property lists: \<^verbatim>\<open>{...a, ...b}\<close> is \<open>AList.merge a b\<close>, a property
  that is \<^verbatim>\<open>undefined\<close> is absent. A JavaScript \<^verbatim>\<open>Map\<close> is an association list in insertion
  order: \<^verbatim>\<open>set\<close> is \<open>AList.update\<close> (an existing key keeps its place, a new one goes last),
  \<^verbatim>\<open>delete\<close> is \<open>AList.delete\<close>, \<^verbatim>\<open>get\<close> is \<open>map_of\<close>.
\<close>

record ServerAddressIp =
  ip :: string
  port :: nat
  type :: string

record MatterServerRecordWithExpire = ServerAddressIp +
  expires :: int

datatype jsval =
    Num int
  | NaN
  | Str string
  | AddressMap "(string \<times> MatterServerRecordWithExpire) list"
  | AddressArray "ServerAddressIp list"

type_synonym jsobject = "(string \<times> jsval) list"

datatype error = ImplementationError string | ValidationError string "string option"
  | UnexpectedDataError string
  | TypeError | SchemaError string

text \<open>The value type of \<^verbatim>\<open>activeAnnounceQueries\<close>: \<^verbatim>\<open>{ queries, answers }\<close>.\<close>

record ActiveAnnounceQuery =
  activeQueries :: "DnsQuery list"
  knownAnswers :: "DnsRecord list"

text \<open>
  A waiter: \<^verbatim>\<open>{ resolver, timer?, resolveOnUpdatedRecords }\<close>. The timer is its delay in
  milliseconds; calling the resolver is recorded in \<open>resolvedWaiters\<close> of the scanner.
\<close>

record Waiter =
  timer :: "rat option"
  resolveOnUpdatedRecords :: bool

text \<open>
  The fields of the class. \<open>queryTimer\<close> is the delay in milliseconds of the running
  query timer (\<open>None\<close>: no timer runs); \<open>periodicTimer\<close> says whether the periodic timer
  runs; \<open>multicastServerClosed\<close> and \<open>resolvedWaiters\<close> record the effects on the
  transport and on the waiters' promises.
\<close>

record MdnsScanner =
  activeAnnounceQueries :: "(string \<times> ActiveAnnounceQuery) list"
  queryTimer :: "rat option"
  nextAnnounceIntervalSeconds :: rat
  operationalDeviceRecords :: "(string \<times> jsobject) list"
  commissionableDeviceRecords :: "(string \<times> jsobject) list"
  recordWaiters :: "(string \<times> Waiter) list"
  periodicTimer :: bool
  closing :: bool
  enableIpv4 :: bool
  multicastServerClosed :: bool
  resolvedWaiters :: "string list"

definition START_ANNOUNCE_INTERVAL_SECONDS :: rat where
  "START_ANNOUNCE_INTERVAL_SECONDS = 3 / 2"

text \<open>The scanner as the constructor leaves it.\<close>

definition newMdnsScanner :: "bool \<Rightarrow> MdnsScanner" where
  "newMdnsScanner ipv4 =
     \<lparr> activeAnnounceQueries = [], queryTimer = None,
       nextAnnounceIntervalSeconds = START_ANNOUNCE_INTERVAL_SECONDS,
       operationalDeviceRecords = [], commissionableDeviceRecords = [], recordWaiters = [],
       periodicTimer = True, closing = False, enableIpv4 = ipv4,
       multicastServerClosed = False, resolvedWaiters = [] \<rparr>"

section \<open>MdnsScanner: the active queries and the send loop\<close>

text \<open>
  The \<^verbatim>\<open>while (true)\<close> loop of \<^verbatim>\<open>sendQueries\<close> (lines 153-184) over \<^verbatim>\<open>answersToSend\<close>.
  It returns the messages handed to \<^verbatim>\<open>multicastServer.send\<close> inside the loop, the number of
  warnings logged, and the message under construction when the loop ends.
\<close>

fun sendQueriesLoop ::
  "(DnsRecord \<Rightarrow> ByteArray) \<Rightarrow> nat \<Rightarrow> ByteArray DnsMessage \<Rightarrow> nat \<Rightarrow> DnsRecord list
   \<Rightarrow> ByteArray DnsMessage list \<times> nat \<times> ByteArray DnsMessage" where
  "sendQueriesLoop encodeRecord emptyLength dnsMessageDataToSend dnsMessageSize [] =
     ([], 0, dnsMessageDataToSend)"
| "sendQueriesLoop encodeRecord emptyLength dnsMessageDataToSend dnsMessageSize
     (nextAnswer # answersToSend) =
     (let nextAnswerEncoded = encodeRecord nextAnswer;
          size1 = dnsMessageSize + length nextAnswerEncoded
      in if size1 > MAX_MDNS_MESSAGE_SIZE then
           (case sendQueriesLoop encodeRecord emptyLength
                   (dnsMessageDataToSend\<lparr>queries := [], answers := [nextAnswerEncoded]\<rparr>)
                   (emptyLength + length nextAnswerEncoded) answersToSend of
              (sent, warnings, final) \<Rightarrow>
                (dnsMessageDataToSend # sent,
                 (if answers dnsMessageDataToSend = [] then 1 else 0) + warnings, final))
         else
           sendQueriesLoop encodeRecord emptyLength
             (dnsMessageDataToSend\<lparr>answers := answers dnsMessageDataToSend @ [nextAnswerEncoded]\<rparr>)
             size1 answersToSend)"

text \<open>
  \<^verbatim>\<open>sendQueries\<close> (lines 124-189): the new state, the messages passed through
  \<^verbatim>\<open>DnsCodec.encode\<close> to \<^verbatim>\<open>multicastServer.send\<close> in order, and the number of warnings.
\<close>

definition sendQueries ::
  "(DnsQuery \<Rightarrow> ByteArray) \<Rightarrow> (DnsRecord \<Rightarrow> ByteArray) \<Rightarrow> MdnsScanner
   \<Rightarrow> MdnsScanner \<times> ByteArray DnsMessage list \<times> nat" where
  "sendQueries encodeQuery encodeRecord s =
     (let allQueries = map snd (activeAnnounceQueries s);
          queries0 = concat (map activeQueries allQueries);
          answers0 = concat (map knownAnswers allQueries);
          s1 = s\<lparr>queryTimer := Some (nextAnnounceIntervalSeconds s * 1000)\<rparr>;
          nextAnnounceInterval = nextAnnounceIntervalSeconds s1 * 2;
          s2 = s1\<lparr>nextAnnounceIntervalSeconds := min nextAnnounceInterval (60 * 60)\<rparr>;
          dnsMessageDataToSend =
            \<lparr> messageType = TruncatedQuery, transactionId = 0, queries = queries0,
              answers = [], authorities = [], additionalRecords = [] \<rparr>;
          emptyDnsMessage = DnsCodec_encode encodeQuery dnsMessageDataToSend
      in case sendQueriesLoop encodeRecord (length emptyDnsMessage) dnsMessageDataToSend
                (length emptyDnsMessage) answers0 of
           (sent, warnings, final) \<Rightarrow> (s2, sent @ [final\<lparr>messageType := Query\<rparr>], warnings))"

text \<open>\<^verbatim>\<open>setQueryRecords\<close> (lines 195-220).\<close>

definition sameQuery :: "DnsQuery \<Rightarrow> DnsQuery \<Rightarrow> bool" where
  "sameQuery existingQuery query =
     (queryName existingQuery = queryName query \<and> queryType existingQuery = queryType query
      \<and> queryClass existingQuery = queryClass query)"

definition storeQueryRecords ::
  "string \<Rightarrow> DnsQuery list \<Rightarrow> DnsRecord list \<Rightarrow> MdnsScanner \<Rightarrow> MdnsScanner" where
  "storeQueryRecords queryId queries0 answers0 s =
     s\<lparr> activeAnnounceQueries :=
          AList.update queryId \<lparr>activeQueries = queries0, knownAnswers = answers0\<rparr>
            (activeAnnounceQueries s),
        nextAnnounceIntervalSeconds := START_ANNOUNCE_INTERVAL_SECONDS,
        queryTimer := Some 0 \<rparr>"

definition setQueryRecords ::
  "string \<Rightarrow> DnsQuery list \<Rightarrow> DnsRecord list \<Rightarrow> MdnsScanner \<Rightarrow> MdnsScanner" where
  "setQueryRecords queryId queries0 answers0 s =
     (case map_of (activeAnnounceQueries s) queryId of
        Some activeExistingQuery \<Rightarrow>
          (let existingQueries = activeQueries activeExistingQuery;
               newQueries = filter (\<lambda>query. \<not> list_ex (\<lambda>existingQuery. sameQuery existingQuery query)
                                      existingQueries) queries0
           in if newQueries = [] then s
              else storeQueryRecords queryId queries0
                     (knownAnswers activeExistingQuery @ answers0) s)
      | None \<Rightarrow> storeQueryRecords queryId queries0 answers0 s)"

definition getActiveQueryEarlierAnswers :: "MdnsScanner \<Rightarrow> DnsRecord list" where
  "getActiveQueryEarlierAnswers s = concat (map (knownAnswers \<circ> snd) (activeAnnounceQueries s))"

text \<open>\<^verbatim>\<open>removeQuery\<close> (lines 230-239).\<close>

definition removeQuery :: "string \<Rightarrow> MdnsScanner \<Rightarrow> MdnsScanner" where
  "removeQuery queryId s =
     (let s1 = s\<lparr>activeAnnounceQueries := AList.delete queryId (activeAnnounceQueries s)\<rparr>
      in if activeAnnounceQueries s1 = [] then
           s1\<lparr>queryTimer := None, nextAnnounceIntervalSeconds := START_ANNOUNCE_INTERVAL_SECONDS\<rparr>
         else s1)"

section \<open>MdnsServer.sendRecords\<close>

text \<open>
  The \<^verbatim>\<open>while (true)\<close> loop of \<^verbatim>\<open>sendRecords\<close> (part_001, lines 194-216): the messages sent
  inside the loop, the message under construction and the size counter at its end.
\<close>

fun sendRecordsLoop ::
  "(DnsRecord \<Rightarrow> ByteArray) \<Rightarrow> nat \<Rightarrow> ByteArray DnsMessage \<Rightarrow> nat \<Rightarrow> DnsRecord list
   \<Rightarrow> ByteArray DnsMessage list \<times> ByteArray DnsMessage \<times> nat" where
  "sendRecordsLoop encodeRecord emptyLength dnsMessageDataToSend dnsMessageSize [] =
     ([], dnsMessageDataToSend, dnsMessageSize)"
| "sendRecordsLoop encodeRecord emptyLength dnsMessageDataToSend dnsMessageSize
     (nextAnswer # answersToSend) =
     (let nextAnswerEncoded = encodeRecord nextAnswer;
          size1 = dnsMessageSize + length nextAnswerEncoded
      in if size1 > MAX_MDNS_MESSAGE_SIZE then
           (case sendRecordsLoop encodeRecord emptyLength
                   (dnsMessageDataToSend\<lparr>answers := [nextAnswerEncoded]\<rparr>)
                   (emptyLength + length nextAnswerEncoded) answersToSend of
              (sent, final, size2) \<Rightarrow> (dnsMessageDataToSend # sent, final, size2))
         else
           sendRecordsLoop encodeRecord emptyLength
             (dnsMessageDataToSend\<lparr>answers := answers dnsMessageDataToSend @ [nextAnswerEncoded]\<rparr>)
             size1 answersToSend)"

text \<open>The \<^verbatim>\<open>for\<close> loop over \<^verbatim>\<open>additionalRecordsToSend\<close> (lines 218-225), with its \<^verbatim>\<open>break\<close>.\<close>

fun addAdditionalRecords ::
  "(DnsRecord \<Rightarrow> ByteArray) \<Rightarrow> ByteArray DnsMessage \<Rightarrow> nat \<Rightarrow> DnsRecord list \<Rightarrow> ByteArray DnsMessage" where
  "addAdditionalRecords encodeRecord dnsMessageDataToSend dnsMessageSize [] = dnsMessageDataToSend"
| "addAdditionalRecords encodeRecord dnsMessageDataToSend dnsMessageSize
     (additionalRecord # rest) =
     (let additionalRecordEncoded = encodeRecord additionalRecord;
          size1 = dnsMessageSize + length additionalRecordEncoded
      in if size1 > MAX_MDNS_MESSAGE_SIZE then dnsMessageDataToSend
         else addAdditionalRecords encodeRecord
                (dnsMessageDataToSend\<lparr>additionalRecords :=
                   additionalRecords dnsMessageDataToSend @ [additionalRecordEncoded]\<rparr>)
                size1 rest)"

text \<open>
  \<^verbatim>\<open>sendRecords\<close> (part_001, lines 180-228): the messages passed through \<^verbatim>\<open>DnsCodec.encode\<close>
  to \<^verbatim>\<open>multicastServer.send\<close>, in order. Every one keeps the message type, transaction id,
  queries and authorities of \<^verbatim>\<open>dnsMessageData\<close>.
\<close>

definition sendRecords ::
  "(DnsQuery \<Rightarrow> ByteArray) \<Rightarrow> (DnsRecord \<Rightarrow> ByteArray) \<Rightarrow> DnsRecord DnsMessage
   \<Rightarrow> ByteArray DnsMessage list" where
  "sendRecords encodeQuery encodeRecord dnsMessageData =
     (let answersToSend = answers dnsMessageData;
          additionalRecordsToSend = additionalRecords dnsMessageData;
          dnsMessageDataToSend =
            \<lparr> messageType = messageType dnsMessageData,
              transactionId = transactionId dnsMessageData,
              queries = queries dnsMessageData,
              answers = [],
              authorities = map encodeRecord (authorities dnsMessageData),
              additionalRecords = [] \<rparr>;
          emptyDnsMessage = DnsCodec_encode encodeQuery dnsMessageDataToSend
      in case sendRecordsLoop encodeRecord (length emptyDnsMessage) dnsMessageDataToSend
                (length emptyDnsMessage) answersToSend of
           (sent, final, dnsMessageSize) \<Rightarrow>
             sent @ [addAdditionalRecords encodeRecord final dnsMessageSize additionalRecordsToSend])"

section \<open>MdnsScanner.sortServerEntries\<close>

text \<open>
  The comparator of \<^verbatim>\<open>sortServerEntries\<close> (MdnsScanner.ts, lines 269-289), branch by branch.
  \<^verbatim>\<open>isIPv6\<close> comes from \<^verbatim>\<open>util/Ip.js\<close>, which is not among the sources; it is a parameter.
\<close>

definition compareServerEntries ::
  "(string \<Rightarrow> bool) \<Rightarrow> MatterServerRecordWithExpire \<Rightarrow> MatterServerRecordWithExpire \<Rightarrow> int" where
  "compareServerEntries isIPv6 a b =
     (let aIsIPv6 = isIPv6 (ip a); bIsIPv6 = isIPv6 (ip b) in
      if aIsIPv6 \<and> \<not> bIsIPv6 then - 1
      else if \<not> aIsIPv6 \<and> bIsIPv6 then 1
      else if aIsIPv6 \<and> bIsIPv6 then
        (if startsWith (ip a) ''fd'' \<and> \<not> startsWith (ip b) ''fd'' then - 1
         else if \<not> startsWith (ip a) ''fd'' \<and> startsWith (ip b) ''fd'' then 1
         else if startsWith (ip a) ''fe80:'' \<and> \<not> startsWith (ip b) ''fe80:'' then - 1
         else if \<not> startsWith (ip a) ''fe80:'' \<and> startsWith (ip b) ''fe80:'' then 1
         else 0)
      else 0)"

definition sortServerEntries ::
  "(string \<Rightarrow> bool) \<Rightarrow> MatterServerRecordWithExpire list \<Rightarrow> MatterServerRecordWithExpire list" where
  "sortServerEntries isIPv6 entries = arraySort (compareServerEntries isIPv6) entries"

text \<open>
  The priority classes the comparator induces: 0 for an IPv6 address that starts with
  \<^verbatim>\<open>fd\<close>, 1 for an IPv6 link-local address (the code tests the prefix \<^verbatim>\<open>fe80:\<close>), 2 for any
  other IPv6 address, 3 for an IPv4 address.
\<close>

definition addressPriority :: "(string \<Rightarrow> bool) \<Rightarrow> 'a ServerAddressIp_scheme \<Rightarrow> nat" where
  "addressPriority isIPv6 e =
     (if isIPv6 (ip e) then
        (if startsWith (ip e) ''fd'' then 0 else if startsWith (ip e) ''fe80:'' then 1 else 2)
      else 3)"

section \<open>JavaScript built-ins: strings and numbers\<close>

text \<open>
  \<^verbatim>\<open>String.prototype.split\<close> with a separator of one character: \<^verbatim>\<open>"a=b=c".split("=")\<close> is
  \<^verbatim>\<open>["a", "b", "c"]\<close>, \<^verbatim>\<open>"".split("=")\<close> is \<^verbatim>\<open>[""]\<close>.
\<close>

fun jsSplit :: "char \<Rightarrow> string \<Rightarrow> string list" where
  "jsSplit sep [] = [[]]"
| "jsSplit sep (c # cs) =
     (if c = sep then [] # jsSplit sep cs
      else (case jsSplit sep cs of p # ps \<Rightarrow> (c # p) # ps | [] \<Rightarrow> [[c]]))"

text \<open>
  \<^verbatim>\<open>parseInt(string)\<close> without a radix: leading white space is skipped, a sign is read, the
  prefix \<^verbatim>\<open>0x\<close> or \<^verbatim>\<open>0X\<close> selects radix 16, and the digits up to the first character that is
  no digit are converted; without a digit the result is \<^verbatim>\<open>NaN\<close>, here \<open>None\<close>. A string is a
  list of characters up to U+00FF; the white space of JavaScript among them is U+0009 to
  U+000D, U+0020 and U+00A0. The result is a Number: the integer read, rounded to the nearest
  double (ties to even). A double has 53 significant bits: \<open>doubleScale\<close> is the power of 2 by
  which an integer from \<open>2\<^sup>5\<^sup>3\<close> = 9007199254740992 on exceeds them. An item of a TXT record
  has at most 255 characters, so the integer read is below \<open>2\<^sup>1\<^sup>0\<^sup>2\<^sup>4\<close> and the result is finite.
\<close>

definition isWhiteSpace :: "char \<Rightarrow> bool" where
  "isWhiteSpace c = (c \<in> set [CHR 0x09, CHR 0x0A, CHR 0x0B, CHR 0x0C, CHR 0x0D, CHR 0x20, CHR 0xA0])"

definition digitTable :: "(char \<times> int) list" where
  "digitTable =
     zip ''0123456789abcdefghijklmnopqrstuvwxyz'' (map int [0..<36])
     @ zip ''ABCDEFGHIJKLMNOPQRSTUVWXYZ'' (map int [10..<36])"

definition digitValue :: "int \<Rightarrow> char \<Rightarrow> int option" where
  "digitValue radix c =
     (case map_of digitTable c of
        Some d \<Rightarrow> if d < radix then Some d else None
      | None \<Rightarrow> None)"

fun digitsValue :: "int \<Rightarrow> int \<Rightarrow> string \<Rightarrow> int" where
  "digitsValue radix acc [] = acc"
| "digitsValue radix acc (c # cs) =
     (case digitValue radix c of
        Some d \<Rightarrow> digitsValue radix (acc * radix + d) cs
      | None \<Rightarrow> acc)"

function doubleScale :: "int \<Rightarrow> int" where
  "doubleScale a = (if a < 9007199254740992 then 1 else 2 * doubleScale (a div 2))"
  by pat_completeness auto
termination
  by (relation "measure nat") auto

definition nearestDouble :: "int \<Rightarrow> int" where
  "nearestDouble i =
     (let scale = doubleScale \<bar>i\<bar>;
          q = \<bar>i\<bar> div scale;
          r = \<bar>i\<bar> mod scale;
          rounded = (if 2 * r > scale \<or> (2 * r = scale \<and> odd q) then q + 1 else q)
      in sgn i * (rounded * scale))"

definition parseInt :: "string \<Rightarrow> int option" where
  "parseInt str =
     (let s0 = dropWhile isWhiteSpace str;
          negative = startsWith s0 ''-'';
          s1 = (if startsWith s0 ''-'' \<or> startsWith s0 ''+'' then tl s0 else s0);
          hex = (startsWith s1 ''0x'' \<or> startsWith s1 ''0X'');
          radix = (if hex then 16 else 10);
          s2 = (if hex then drop 2 s1 else s1)
      in case s2 of
           [] \<Rightarrow> None
         | c # _ \<Rightarrow>
             (case digitValue radix c of
                None \<Rightarrow> None
              | Some _ \<Rightarrow>
                  Some (nearestDouble ((if negative then - 1 else 1) * digitsValue radix 0 s2))))"

text \<open>
  The operators \<^verbatim>\<open>>>\<close> and \<^verbatim>\<open>&\<close> on numbers that hold integers: both convert their operands
  to 32-bit two's complement (ToInt32), \<^verbatim>\<open>>>\<close> shifts arithmetically by the count modulo 32.
\<close>

definition jsShiftRight :: "int \<Rightarrow> nat \<Rightarrow> int" where
  "jsShiftRight x n = sint (signed_drop_bit (n mod 32) (word_of_int x :: 32 word))"

definition jsBitAnd :: "int \<Rightarrow> int \<Rightarrow> int" where
  "jsBitAnd x y = sint ((word_of_int x :: 32 word) AND word_of_int y)"

text \<open>
  A number in a template literal: the decimal digits of an integer (JavaScript switches to
  exponent notation from \<open>10\<^sup>2\<^sup>1\<close> on, which no identifier reaches), \<^verbatim>\<open>NaN\<close> for NaN.
\<close>

fun natToString :: "nat \<Rightarrow> string" where
  "natToString n =
     (if n < 10 then [''0123456789'' ! n]
      else natToString (n div 10) @ [''0123456789'' ! (n mod 10)])"

definition numberToString :: "int \<Rightarrow> string" where
  "numberToString i = (if i < 0 then CHR ''-'' # natToString (nat (- i)) else natToString (nat i))"

section \<open>MdnsScanner: values and objects\<close>

definition jsToString :: "jsval \<Rightarrow> string" where
  "jsToString v =
     (case v of Num i \<Rightarrow> numberToString i | NaN \<Rightarrow> ''NaN'' | Str s \<Rightarrow> s
      | AddressMap _ \<Rightarrow> ''[object Map]'' | AddressArray _ \<Rightarrow> ''[object Object]'')"

text \<open>
  \<^verbatim>\<open>a === b\<close> for a property \<open>a\<close> that may be \<^verbatim>\<open>undefined\<close> and a number or string \<open>b\<close>: NaN is
  not equal to itself.
\<close>

definition strictEquals :: "jsval option \<Rightarrow> jsval \<Rightarrow> bool" where
  "strictEquals a b = (case a of None \<Rightarrow> False | Some NaN \<Rightarrow> False | Some v \<Rightarrow> v = b)"

text \<open>
  Reading \<^verbatim>\<open>device.addresses\<close> as a \<^verbatim>\<open>Map\<close>: calling a method of the \<^verbatim>\<open>Map\<close> or reading its
  \<^verbatim>\<open>size\<close> on anything else is a \<^verbatim>\<open>TypeError\<close> in JavaScript.
\<close>

definition getAddresses :: "jsobject \<Rightarrow> error + (string \<times> MatterServerRecordWithExpire) list" where
  "getAddresses device =
     (case map_of device ''addresses'' of Some (AddressMap m) \<Rightarrow> Inr m | _ \<Rightarrow> Inl TypeError)"

text \<open>Assigning a property; assigning \<^verbatim>\<open>undefined\<close> leaves it absent.\<close>

definition setProperty :: "string \<Rightarrow> jsval option \<Rightarrow> jsobject \<Rightarrow> jsobject" where
  "setProperty k v obj = (case v of Some x \<Rightarrow> AList.update k x obj | None \<Rightarrow> AList.delete k obj)"

section \<open>MdnsConsts\<close>

text \<open>
  Modelled from the spec: the service names and the query names of \<^verbatim>\<open>mdns/MdnsConsts.js\<close>,
  which is not among the sources. The spec gives them as \<^verbatim>\<open>_matter._tcp.local\<close>,
  \<^verbatim>\<open>_matterc._udp.local\<close>, \<^verbatim>\<open><instanceId>._matterc._udp.local\<close> and
  \<^verbatim>\<open>_L<longDiscriminator>._sub._matterc._udp.local\<close>, likewise with \<^verbatim>\<open>_S\<close>, \<^verbatim>\<open>_V\<close>, \<^verbatim>\<open>_T\<close> and
  \<^verbatim>\<open>_CM\<close>.
\<close>

definition MATTER_SERVICE_QNAME :: string where
  "MATTER_SERVICE_QNAME = ''_matter._tcp.local''"

definition MATTER_COMMISSION_SERVICE_QNAME :: string where
  "MATTER_COMMISSION_SERVICE_QNAME = ''_matterc._udp.local''"

definition getDeviceInstanceQname :: "string \<Rightarrow> string" where
  "getDeviceInstanceQname instanceId = instanceId @ ''.'' @ MATTER_COMMISSION_SERVICE_QNAME"

definition getLongDiscriminatorQname :: "jsval \<Rightarrow> string" where
  "getLongDiscriminatorQname longDiscriminator =
     ''_L'' @ jsToString longDiscriminator @ ''._sub.'' @ MATTER_COMMISSION_SERVICE_QNAME"

definition getShortDiscriminatorQname :: "jsval option \<Rightarrow> string" where
  "getShortDiscriminatorQname shortDiscriminator =
     ''_S'' @ (case shortDiscriminator of Some v \<Rightarrow> jsToString v | None \<Rightarrow> ''undefined'')
     @ ''._sub.'' @ MATTER_COMMISSION_SERVICE_QNAME"

definition getVendorQname :: "jsval \<Rightarrow> string" where
  "getVendorQname vendorId = ''_V'' @ jsToString vendorId @ ''._sub.'' @ MATTER_COMMISSION_SERVICE_QNAME"

definition getDeviceTypeQname :: "jsval \<Rightarrow> string" where
  "getDeviceTypeQname deviceType =
     ''_T'' @ jsToString deviceType @ ''._sub.'' @ MATTER_COMMISSION_SERVICE_QNAME"

definition getCommissioningModeQname :: string where
  "getCommissioningModeQname = ''_CM._sub.'' @ MATTER_COMMISSION_SERVICE_QNAME"

section \<open>MdnsScanner: waiters\<close>

text \<open>\<^verbatim>\<open>registerWaiterPromise\<close> (lines 296-309), \<^verbatim>\<open>finishWaiter\<close> (315-328), \<^verbatim>\<open>hasWaiter\<close> (331-333).\<close>

definition registerWaiterPromise :: "string \<Rightarrow> rat option \<Rightarrow> bool \<Rightarrow> MdnsScanner \<Rightarrow> MdnsScanner" where
  "registerWaiterPromise queryId timeoutSeconds resolveOnUpdated s =
     s\<lparr> recordWaiters :=
          AList.update queryId
            \<lparr> timer = map_option (\<lambda>t. t * 1000) timeoutSeconds,
              resolveOnUpdatedRecords = resolveOnUpdated \<rparr>
            (recordWaiters s) \<rparr>"

definition finishWaiter :: "string \<Rightarrow> bool \<Rightarrow> bool \<Rightarrow> MdnsScanner \<Rightarrow> MdnsScanner" where
  "finishWaiter queryId resolvePromise isUpdatedRecord s =
     (case map_of (recordWaiters s) queryId of
        None \<Rightarrow> s
      | Some waiter \<Rightarrow>
          if isUpdatedRecord \<and> \<not> resolveOnUpdatedRecords waiter then s
          else s\<lparr> resolvedWaiters :=
                     (if resolvePromise then resolvedWaiters s @ [queryId] else resolvedWaiters s),
                   recordWaiters := AList.delete queryId (recordWaiters s) \<rparr>)"

definition hasWaiter :: "string \<Rightarrow> MdnsScanner \<Rightarrow> bool" where
  "hasWaiter queryId s = (map_of (recordWaiters s) queryId \<noteq> None)"

section \<open>MdnsScanner: reading the caches\<close>

definition toServerAddressIp :: "MatterServerRecordWithExpire \<Rightarrow> ServerAddressIp" where
  "toServerAddressIp e = \<lparr> ip = ip e, port = port e, type = ''udp'' \<rparr>"

text \<open>\<^verbatim>\<open>getOperationalDeviceRecords\<close> (lines 244-261).\<close>

definition getOperationalDeviceRecords ::
  "(string \<Rightarrow> bool) \<Rightarrow> string \<Rightarrow> MdnsScanner \<Rightarrow> error + jsobject option" where
  "getOperationalDeviceRecords isIPv6 deviceMatterQname s =
     (case map_of (operationalDeviceRecords s) deviceMatterQname of
        None \<Rightarrow> Inr None
      | Some device \<Rightarrow>
          (case getAddresses device of
             Inl e \<Rightarrow> Inl e
           | Inr addresses \<Rightarrow>
               if addresses = [] then Inr None
               else Inr (Some (AList.update ''addresses''
                      (AddressArray (map toServerAddressIp (sortServerEntries isIPv6 (map snd addresses))))
                      device))))"

text \<open>
  \<^verbatim>\<open>CommissionableDeviceIdentifiers\<close> is a union of object types with one key each, or none;
  the functions below test the keys in the order of the constructors.
\<close>

datatype CommissionableDeviceIdentifiers =
    IdInstanceId string
  | IdLongDiscriminator jsval
  | IdShortDiscriminator jsval
  | IdVendorId jsval
  | IdDeviceType jsval
  | IdProductId jsval
  | IdNone

fun mapE :: "('a \<Rightarrow> error + 'b) \<Rightarrow> 'a list \<Rightarrow> error + 'b list" where
  "mapE f [] = Inr []"
| "mapE f (x # xs) =
     (case f x of Inl e \<Rightarrow> Inl e
      | Inr y \<Rightarrow> (case mapE f xs of Inl e \<Rightarrow> Inl e | Inr ys \<Rightarrow> Inr (y # ys)))"

text \<open>\<^verbatim>\<open>getCommissionableDeviceRecords\<close> (lines 392-423).\<close>

definition matchesIdentifier :: "CommissionableDeviceIdentifiers \<Rightarrow> jsobject \<Rightarrow> bool" where
  "matchesIdentifier identifier r =
     (case identifier of
        IdInstanceId i \<Rightarrow> strictEquals (map_of r ''instanceId'') (Str i)
      | IdLongDiscriminator d \<Rightarrow> strictEquals (map_of r ''D'') d
      | IdShortDiscriminator sd \<Rightarrow> strictEquals (map_of r ''SD'') sd
      | IdVendorId v \<Rightarrow> strictEquals (map_of r ''V'') v
      | IdDeviceType dt \<Rightarrow> strictEquals (map_of r ''DT'') dt
      | IdProductId p \<Rightarrow> strictEquals (map_of r ''P'') p
      | IdNone \<Rightarrow> map_of r ''CM'' = Some (Num 1) \<or> map_of r ''CM'' = Some (Num 2))"

definition getCommissionableDeviceRecords ::
  "(string \<Rightarrow> bool) \<Rightarrow> CommissionableDeviceIdentifiers \<Rightarrow> MdnsScanner \<Rightarrow> error + jsobject list" where
  "getCommissionableDeviceRecords isIPv6 identifier s =
     (let storedRecords = map snd (commissionableDeviceRecords s);
          foundRecords = filter (matchesIdentifier identifier) storedRecords
      in mapE (\<lambda>r. case getAddresses r of
                      Inl e \<Rightarrow> Inl e
                    | Inr addresses \<Rightarrow>
                        Inr (AList.delete ''expires''
                              (AList.update ''addresses''
                                 (AddressArray (map toServerAddressIp
                                    (sortServerEntries isIPv6 (map snd addresses)))) r)))
           foundRecords)"

text \<open>\<^verbatim>\<open>buildCommissionableQueryIdentifier\<close> (lines 429-447); no identifier is invalid here.\<close>

definition buildCommissionableQueryIdentifier :: "CommissionableDeviceIdentifiers \<Rightarrow> string" where
  "buildCommissionableQueryIdentifier identifier =
     (case identifier of
        IdInstanceId i \<Rightarrow> getDeviceInstanceQname i
      | IdLongDiscriminator d \<Rightarrow> getLongDiscriminatorQname d
      | IdShortDiscriminator sd \<Rightarrow> getShortDiscriminatorQname (Some sd)
      | IdVendorId v \<Rightarrow> getVendorQname v
      | IdDeviceType dt \<Rightarrow> getDeviceTypeQname dt
      | IdProductId p \<Rightarrow> ''_P'' @ jsToString p
      | IdNone \<Rightarrow> getCommissioningModeQname)"

text \<open>\<^verbatim>\<open>extractInstanceId\<close> (lines 449-455): the name up to its first dot.\<close>

definition extractInstanceId :: "string \<Rightarrow> string" where
  "extractInstanceId instanceName = takeWhile (\<lambda>c. c \<noteq> CHR ''.'') instanceName"

text \<open>
  \<^verbatim>\<open>findCommissionableQueryIdentifier\<close> (lines 460-508). \<^verbatim>\<open>VendorId\<close> comes from
  \<^verbatim>\<open>datatype/VendorId.js\<close>, which is not among the sources; it is the parameter \<open>toVendorId\<close>.
  The candidates are tried in the order of the source, the first that is an active query
  wins.
\<close>

definition firstActiveQuery :: "string list \<Rightarrow> MdnsScanner \<Rightarrow> string option" where
  "firstActiveQuery candidates s =
     find (\<lambda>queryId. map_of (activeAnnounceQueries s) queryId \<noteq> None) candidates"

definition findCommissionableQueryIdentifier ::
  "(jsval \<Rightarrow> error + jsval) \<Rightarrow> string \<Rightarrow> jsobject \<Rightarrow> MdnsScanner \<Rightarrow> error + string option" where
  "findCommissionableQueryIdentifier toVendorId instanceName r s =
     (if closing s then
        Inl (ImplementationError ''Cannot discover commissionable device because scanner is closing.'')
      else
        (let first3 =
               [buildCommissionableQueryIdentifier (IdInstanceId (extractInstanceId instanceName)),
                getLongDiscriminatorQname (case map_of r ''D'' of Some d \<Rightarrow> d | None \<Rightarrow> Str ''undefined''),
                getShortDiscriminatorQname (map_of r ''SD'')];
             rest =
               (case map_of r ''DT'' of Some dt \<Rightarrow> [getDeviceTypeQname dt] | None \<Rightarrow> [])
               @ (case map_of r ''P'' of
                    Some p \<Rightarrow> [buildCommissionableQueryIdentifier (IdProductId p)] | None \<Rightarrow> [])
               @ [getCommissioningModeQname]
         in case firstActiveQuery first3 s of
              Some queryId \<Rightarrow> Inr (Some queryId)
            | None \<Rightarrow>
                (case map_of r ''V'' of
                   None \<Rightarrow> Inr (firstActiveQuery rest s)
                 | Some v \<Rightarrow>
                     (case toVendorId v of
                        Inl e \<Rightarrow> Inl e
                      | Inr vendorId \<Rightarrow> Inr (firstActiveQuery (getVendorQname vendorId # rest) s)))))"

text \<open>\<^verbatim>\<open>getCommissionableQueryRecords\<close> (lines 510-531).\<close>

definition getCommissionableQueryRecords :: "CommissionableDeviceIdentifiers \<Rightarrow> DnsQuery list" where
  "getCommissionableQueryRecords identifier =
     (let names =
            [MATTER_COMMISSION_SERVICE_QNAME,
             (case identifier of
                IdInstanceId i \<Rightarrow> getDeviceInstanceQname i
              | IdLongDiscriminator d \<Rightarrow> getLongDiscriminatorQname d
              | IdShortDiscriminator sd \<Rightarrow> getShortDiscriminatorQname (Some sd)
              | IdVendorId v \<Rightarrow> getVendorQname v
              | IdDeviceType dt \<Rightarrow> getDeviceTypeQname dt
              | IdProductId p \<Rightarrow> getCommissioningModeQname
              | IdNone \<Rightarrow> getCommissioningModeQname)]
      in map (\<lambda>n. \<lparr> queryName = n, queryType = RT_PTR, queryClass = RC_IN, uniCastResponse = False \<rparr>)
           names)"

section \<open>MdnsScanner: TXT records\<close>

text \<open>
  \<^verbatim>\<open>parseTxtRecord\<close> (lines 917-934). Of \<^verbatim>\<open>item.split("=")\<close> the first two parts are the key and
  the value; an item without \<^verbatim>\<open>=\<close> has no value and is skipped.
\<close>

definition txtIntKeys :: "string list" where
  "txtIntKeys = [''SII'', ''SAI'', ''SAT'', ''T'', ''D'', ''CM'', ''DT'', ''PH'', ''ICD'']"

definition txtStringKeys :: "string list" where
  "txtStringKeys = [''VP'', ''DN'', ''RI'', ''PI'']"

fun parseTxtItems :: "jsobject \<Rightarrow> string list \<Rightarrow> jsobject" where
  "parseTxtItems result [] = result"
| "parseTxtItems result (item # items) =
     (case jsSplit CHR ''='' item of
        key # v # _ \<Rightarrow>
          if key \<in> set txtIntKeys then
            (case parseInt v of
               None \<Rightarrow> parseTxtItems result items
             | Some intValue \<Rightarrow> parseTxtItems (AList.update key (Num intValue) result) items)
          else if key \<in> set txtStringKeys then
            parseTxtItems (AList.update key (Str v) result) items
          else parseTxtItems result items
      | [key] \<Rightarrow> parseTxtItems result items
      | [] \<Rightarrow> parseTxtItems result items)"

definition parseTxtRecord :: "DnsRecord \<Rightarrow> jsobject" where
  "parseTxtRecord r =
     (case recordValue r of
        TxtValue items \<Rightarrow> parseTxtItems [] items
      | PtrValue _ \<Rightarrow> []
      | SrvValue _ _ _ _ \<Rightarrow> []
      | AaaaValue _ \<Rightarrow> []
      | AValue _ \<Rightarrow> []
      | RawValue _ _ \<Rightarrow> [])"

text \<open>\<^verbatim>\<open>Array.isArray(value)\<close>: of the values of a record only that of a TXT record is an array.\<close>

definition isTxtValue :: "DnsRecord \<Rightarrow> bool" where
  "isTxtValue r =
     (case recordValue r of
        TxtValue _ \<Rightarrow> True
      | PtrValue _ \<Rightarrow> False
      | SrvValue _ _ _ _ \<Rightarrow> False
      | AaaaValue _ \<Rightarrow> False
      | AValue _ \<Rightarrow> False
      | RawValue _ _ \<Rightarrow> False)"

text \<open>
  \<^verbatim>\<open>parseCommissionableTxtRecord\<close> (lines 936-946); \<open>now\<close> is \<^verbatim>\<open>Time.nowMs()\<close>. \<open>None\<close> is the
  result \<^verbatim>\<open>undefined\<close>.
\<close>

definition parseCommissionableTxtRecord :: "int \<Rightarrow> DnsRecord \<Rightarrow> jsobject option" where
  "parseCommissionableTxtRecord now r =
     (if \<not> isTxtValue r then None
      else
        (let result = AList.merge
               [(''addresses'', AddressMap []), (''expires'', Num (now + int (ttl r) * 1000))]
               (parseTxtRecord r)
         in if map_of result ''D'' = None \<or> map_of result ''CM'' = None then None
            else Some result))"

section \<open>MdnsScanner: the operational records of a message\<close>

text \<open>
  \<^verbatim>\<open>handleIpRecords\<close> (lines 637-651): the pairs of address and TTL of the A (if IPv4 is
  enabled) and AAAA records for \<open>target\<close>.
\<close>

definition ipValue :: "DnsRecord \<Rightarrow> string" where
  "ipValue r =
     (case recordValue r of
        AaaaValue v \<Rightarrow> v
      | AValue v \<Rightarrow> v
      | PtrValue v \<Rightarrow> v
      | SrvValue _ _ _ _ \<Rightarrow> []
      | TxtValue _ \<Rightarrow> []
      | RawValue _ _ \<Rightarrow> [])"

definition handleIpRecords :: "bool \<Rightarrow> DnsRecord list \<Rightarrow> string \<Rightarrow> string \<Rightarrow> (string \<times> nat) list" where
  "handleIpRecords ipv4 answers0 target netInterface =
     (let ipRecords = filter (\<lambda>r. ((recordType r = RT_A \<and> ipv4) \<or> recordType r = RT_AAAA)
                                    \<and> name r = target) answers0
      in map (\<lambda>r. (if startsWith (ipValue r) ''fe80::'' then ipValue r @ ''%'' @ netInterface
                    else ipValue r, ttl r)) ipRecords)"

text \<open>
  One round of the loop over the addresses found (lines 751-763 and 863-875): a TTL of 0
  deletes the address, any other TTL stores it with a new expiry, keeping the port of an
  address already known. The operational loop stores under \<^verbatim>\<open>matterServer.ip\<close>, the
  commissionable loop under \<^verbatim>\<open>ip\<close>.
\<close>

definition refreshedServer ::
  "int \<Rightarrow> nat \<Rightarrow> string \<Rightarrow> nat \<Rightarrow> (string \<times> MatterServerRecordWithExpire) list
   \<Rightarrow> MatterServerRecordWithExpire" where
  "refreshedServer now port0 ip0 ttl0 addresses =
     (case map_of addresses ip0 of
        Some matterServer \<Rightarrow> matterServer\<lparr>expires := now + int ttl0 * 1000\<rparr>
      | None \<Rightarrow> \<lparr> ip = ip0, port = port0, type = ''udp'', expires = now + int ttl0 * 1000 \<rparr>)"

definition setOperationalIp ::
  "int \<Rightarrow> nat \<Rightarrow> string \<times> nat \<Rightarrow> (string \<times> MatterServerRecordWithExpire) list
   \<Rightarrow> (string \<times> MatterServerRecordWithExpire) list" where
  "setOperationalIp now port0 entry addresses =
     (case entry of (ip0, ttl0) \<Rightarrow>
        if ttl0 = 0 then AList.delete ip0 addresses
        else (let matterServer = refreshedServer now port0 ip0 ttl0 addresses
              in AList.update (ip matterServer) matterServer addresses))"

definition setCommissionableIp ::
  "int \<Rightarrow> nat \<Rightarrow> string \<times> nat \<Rightarrow> (string \<times> MatterServerRecordWithExpire) list
   \<Rightarrow> (string \<times> MatterServerRecordWithExpire) list" where
  "setCommissionableIp now port0 entry addresses =
     (case entry of (ip0, ttl0) \<Rightarrow>
        if ttl0 = 0 then AList.delete ip0 addresses
        else AList.update ip0 (refreshedServer now port0 ip0 ttl0 addresses) addresses)"

text \<open>\<^verbatim>\<open>handleOperationalTxtRecord\<close> (lines 679-717).\<close>

definition handleOperationalTxtRecord :: "int \<Rightarrow> DnsRecord \<Rightarrow> MdnsScanner \<Rightarrow> MdnsScanner" where
  "handleOperationalTxtRecord now r s =
     (let matterName = name r in
      if ttl r = 0 then
        (if map_of (operationalDeviceRecords s) matterName \<noteq> None then
           s\<lparr>operationalDeviceRecords := AList.delete matterName (operationalDeviceRecords s)\<rparr>
         else s)
      else if \<not> isTxtValue r then s
      else
        (let txtData = parseTxtRecord r;
             device =
               (case map_of (operationalDeviceRecords s) matterName of
                  Some device0 \<Rightarrow>
                    AList.merge
                      (AList.update ''expires'' (Num (now + int (ttl r) * 1000)) device0) txtData
                | None \<Rightarrow>
                    AList.merge
                      [(''deviceIdentifier'', Str matterName), (''addresses'', AddressMap []),
                       (''expires'', Num (now + int (ttl r) * 1000))]
                      txtData)
         in s\<lparr>operationalDeviceRecords :=
                AList.update matterName device (operationalDeviceRecords s)\<rparr>))"

text \<open>
  \<^verbatim>\<open>handleOperationalSrvRecord\<close> (lines 719-786). \<open>handleOperationalSrv\<close> is its body on the
  target and port that the source takes out of the SRV value. The caller passes SRV records
  only, so the other values do not occur; they are mapped to an error.
\<close>

definition ipQueries :: "bool \<Rightarrow> string \<Rightarrow> DnsQuery list" where
  "ipQueries ipv4 target =
     \<lparr> queryName = target, queryType = RT_AAAA, queryClass = RC_IN, uniCastResponse = False \<rparr>
     # (if ipv4 then
          [\<lparr> queryName = target, queryType = RT_A, queryClass = RC_IN, uniCastResponse = False \<rparr>]
        else [])"

definition handleOperationalSrv ::
  "int \<Rightarrow> DnsRecord \<Rightarrow> string \<Rightarrow> nat \<Rightarrow> DnsRecord list \<Rightarrow> DnsRecord list \<Rightarrow> string
   \<Rightarrow> MdnsScanner \<Rightarrow> error + MdnsScanner" where
  "handleOperationalSrv now r target port0 answers0 formerAnswers netInterface s =
     (let matterName = name r in
      if ttl r = 0 then
        Inr (if map_of (operationalDeviceRecords s) matterName \<noteq> None then
               s\<lparr>operationalDeviceRecords := AList.delete matterName (operationalDeviceRecords s)\<rparr>
             else s)
      else
        (let ips = handleIpRecords (enableIpv4 s) (answers0 @ formerAnswers) target netInterface;
             deviceExisted = (map_of (operationalDeviceRecords s) matterName \<noteq> None);
             device =
               (case map_of (operationalDeviceRecords s) matterName of
                  Some device0 \<Rightarrow> device0
                | None \<Rightarrow>
                    [(''deviceIdentifier'', Str matterName), (''addresses'', AddressMap []),
                     (''expires'', Num (now + int (ttl r) * 1000))])
         in case getAddresses device of
              Inl e \<Rightarrow> Inl e
            | Inr addresses0 \<Rightarrow>
                (let addresses = fold (setOperationalIp now port0) ips addresses0;
                     s1 = (if ips \<noteq> [] then
                             s\<lparr>operationalDeviceRecords :=
                                 AList.update matterName
                                   (AList.update ''addresses'' (AddressMap addresses) device)
                                   (operationalDeviceRecords s)\<rparr>
                           else s)
                 in if addresses = [] \<and> hasWaiter matterName s1 then
                      Inr (setQueryRecords matterName (ipQueries (enableIpv4 s1) target) answers0 s1)
                    else if addresses \<noteq> [] then
                      Inr (finishWaiter matterName True deviceExisted s1)
                    else Inr s1)))"

definition handleOperationalSrvRecord ::
  "int \<Rightarrow> DnsRecord \<Rightarrow> DnsRecord list \<Rightarrow> DnsRecord list \<Rightarrow> string \<Rightarrow> MdnsScanner
   \<Rightarrow> error + MdnsScanner" where
  "handleOperationalSrvRecord now r answers0 formerAnswers netInterface s =
     (case recordValue r of
        SrvValue _ _ port0 target \<Rightarrow>
          handleOperationalSrv now r target port0 answers0 formerAnswers netInterface s
      | PtrValue _ \<Rightarrow> Inl TypeError
      | TxtValue _ \<Rightarrow> Inl TypeError
      | AaaaValue _ \<Rightarrow> Inl TypeError
      | AValue _ \<Rightarrow> Inl TypeError
      | RawValue _ _ \<Rightarrow> Inl TypeError)"

text \<open>
  \<^verbatim>\<open>handleOperationalRecords\<close> (lines 653-677): the first TXT record and the first SRV record
  whose name ends with the operational service name are handled, no other.
\<close>

definition isOperational :: "DnsRecordType \<Rightarrow> DnsRecord \<Rightarrow> bool" where
  "isOperational t r = (recordType r = t \<and> endsWith (name r) MATTER_SERVICE_QNAME)"

definition handleOperationalRecords ::
  "int \<Rightarrow> DnsRecord list \<Rightarrow> DnsRecord list \<Rightarrow> string \<Rightarrow> MdnsScanner
   \<Rightarrow> error + (bool \<times> MdnsScanner)" where
  "handleOperationalRecords now answers0 formerAnswers netInterface s =
     (let operationalTxtRecord = find (isOperational RT_TXT) answers0;
          s1 = (case operationalTxtRecord of
                  Some r \<Rightarrow> handleOperationalTxtRecord now r s | None \<Rightarrow> s);
          recordsHandled = (operationalTxtRecord \<noteq> None);
          operationalSrvRecord =
            (case find (isOperational RT_SRV) answers0 of
               Some r \<Rightarrow> Some r
             | None \<Rightarrow> find (isOperational RT_SRV) formerAnswers)
      in case operationalSrvRecord of
           None \<Rightarrow> Inr (recordsHandled, s1)
         | Some r \<Rightarrow>
             (case handleOperationalSrvRecord now r answers0 formerAnswers netInterface s1 of
                Inl e \<Rightarrow> Inl e
              | Inr s2 \<Rightarrow> Inr (True, s2)))"

section \<open>MdnsScanner: the commissionable records of a message\<close>

definition numberOf :: "int option \<Rightarrow> jsval" where
  "numberOf v = (case v of Some i \<Rightarrow> Num i | None \<Rightarrow> NaN)"

text \<open>Adding to and deleting from the \<^verbatim>\<open>Set\<close> \<^verbatim>\<open>queryMissingDataForInstances\<close>.\<close>

definition setAdd :: "'a \<Rightarrow> 'a list \<Rightarrow> 'a list" where
  "setAdd x xs = (if x \<in> set xs then xs else xs @ [x])"

text \<open>
  The short discriminator and the vendor and product ids that lines 819-826 derive from
  \<^verbatim>\<open>D\<close> and \<^verbatim>\<open>VP\<close>. \<^verbatim>\<open>D\<close> is a number whenever it is present, since only \<^verbatim>\<open>parseInt\<close> sets it.
\<close>

definition deriveShortDiscriminator :: "jsobject \<Rightarrow> jsobject" where
  "deriveShortDiscriminator parsedRecord =
     (case map_of parsedRecord ''D'' of
        Some (Num d) \<Rightarrow>
          if map_of parsedRecord ''SD'' = None then
            AList.update ''SD'' (Num (jsBitAnd (jsShiftRight d 8) 15)) parsedRecord
          else parsedRecord
      | Some NaN \<Rightarrow> parsedRecord
      | Some (Str _) \<Rightarrow> parsedRecord
      | Some (AddressMap _) \<Rightarrow> parsedRecord
      | Some (AddressArray _) \<Rightarrow> parsedRecord
      | None \<Rightarrow> parsedRecord)"

definition deriveVendorProduct :: "jsobject \<Rightarrow> jsobject" where
  "deriveVendorProduct parsedRecord =
     (case map_of parsedRecord ''VP'' of
        Some (Str vp) \<Rightarrow>
          (case jsSplit CHR ''+'' vp of
             [] \<Rightarrow> parsedRecord
           | v0 # rest \<Rightarrow>
               setProperty ''P''
                 (case rest of [] \<Rightarrow> None | v1 # _ \<Rightarrow> Some (numberOf (parseInt v1)))
                 (setProperty ''V'' (Some (numberOf (parseInt v0))) parsedRecord))
      | Some (Num _) \<Rightarrow> parsedRecord
      | Some NaN \<Rightarrow> parsedRecord
      | Some (AddressMap _) \<Rightarrow> parsedRecord
      | Some (AddressArray _) \<Rightarrow> parsedRecord
      | None \<Rightarrow> parsedRecord)"

text \<open>
  One round of the loop over the TXT records (lines 804-840), on the scanner and the set
  \<^verbatim>\<open>queryMissingDataForInstances\<close>.
\<close>

definition handleCommissionableTxtRecord ::
  "int \<Rightarrow> DnsRecord \<Rightarrow> MdnsScanner \<times> string list \<Rightarrow> MdnsScanner \<times> string list" where
  "handleCommissionableTxtRecord now r state =
     (case state of (s, queryMissingDataForInstances) \<Rightarrow>
        if ttl r = 0 then
          (if map_of (commissionableDeviceRecords s) (name r) \<noteq> None then
             (s\<lparr>commissionableDeviceRecords := AList.delete (name r) (commissionableDeviceRecords s)\<rparr>,
              queryMissingDataForInstances)
           else (s, queryMissingDataForInstances))
        else
          (case parseCommissionableTxtRecord now r of
             None \<Rightarrow> (s, queryMissingDataForInstances)
           | Some parsedRecord0 \<Rightarrow>
               (let instanceId = extractInstanceId (name r);
                    parsedRecord =
                      deriveVendorProduct (deriveShortDiscriminator
                        (AList.update ''deviceIdentifier'' (Str instanceId)
                          (AList.update ''instanceId'' (Str instanceId) parsedRecord0)))
                in case map_of (commissionableDeviceRecords s) (name r) of
                     None \<Rightarrow>
                       (s\<lparr>commissionableDeviceRecords :=
                            AList.update (name r) parsedRecord (commissionableDeviceRecords s)\<rparr>,
                        setAdd (name r) queryMissingDataForInstances)
                   | Some storedRecord \<Rightarrow>
                       (s\<lparr>commissionableDeviceRecords :=
                            AList.update (name r)
                              (setProperty ''addresses'' (map_of storedRecord ''addresses'') parsedRecord)
                              (commissionableDeviceRecords s)\<rparr>,
                        queryMissingDataForInstances))))"

text \<open>
  One round of the loop over the SRV records (lines 844-898). \<open>handleCommissionableSrv\<close> is
  the round on the target and port of the SRV value, for a record that is stored.
\<close>

definition handleCommissionableSrv ::
  "(jsval \<Rightarrow> error + jsval) \<Rightarrow> int \<Rightarrow> DnsRecord list \<Rightarrow> DnsRecord list \<Rightarrow> string
   \<Rightarrow> DnsRecord \<Rightarrow> string \<Rightarrow> nat \<Rightarrow> jsobject \<Rightarrow> MdnsScanner \<times> string list
   \<Rightarrow> error + MdnsScanner \<times> string list" where
  "handleCommissionableSrv toVendorId now answers0 formerAnswers netInterface r target port0
     storedRecord0 state =
     (case state of (s, queryMissingDataForInstances) \<Rightarrow>
        if ttl r = 0 then
          Inr (s\<lparr>commissionableDeviceRecords := AList.delete (name r) (commissionableDeviceRecords s)\<rparr>,
               queryMissingDataForInstances)
        else
          (case getAddresses storedRecord0 of
             Inl e \<Rightarrow> Inl e
           | Inr addresses0 \<Rightarrow>
               (let recordExisting = (addresses0 \<noteq> []);
                    ips = handleIpRecords (enableIpv4 s) (answers0 @ formerAnswers) target netInterface;
                    addresses = fold (setCommissionableIp now port0) ips addresses0;
                    storedRecord = AList.update ''addresses'' (AddressMap addresses) storedRecord0;
                    s1 = s\<lparr>commissionableDeviceRecords :=
                            AList.update (name r) storedRecord (commissionableDeviceRecords s)\<rparr>
                in if addresses = [] then
                     (case findCommissionableQueryIdentifier toVendorId [] storedRecord s1 of
                        Inl e \<Rightarrow> Inl e
                      | Inr None \<Rightarrow> Inr (s1, queryMissingDataForInstances)
                      | Inr (Some queryId) \<Rightarrow>
                          Inr (setQueryRecords queryId (ipQueries (enableIpv4 s1) target) answers0 s1,
                               queryMissingDataForInstances))
                   else
                     (case findCommissionableQueryIdentifier toVendorId (name r) storedRecord s1 of
                        Inl e \<Rightarrow> Inl e
                      | Inr None \<Rightarrow> Inr (s1, queryMissingDataForInstances)
                      | Inr (Some queryId) \<Rightarrow>
                          Inr (finishWaiter queryId True recordExisting s1,
                               removeAll (name r) queryMissingDataForInstances)))))"

definition handleCommissionableSrvRecord ::
  "(jsval \<Rightarrow> error + jsval) \<Rightarrow> int \<Rightarrow> DnsRecord list \<Rightarrow> DnsRecord list \<Rightarrow> string
   \<Rightarrow> DnsRecord \<Rightarrow> MdnsScanner \<times> string list \<Rightarrow> error + MdnsScanner \<times> string list" where
  "handleCommissionableSrvRecord toVendorId now answers0 formerAnswers netInterface r state =
     (case map_of (commissionableDeviceRecords (fst state)) (name r) of
        None \<Rightarrow> Inr state
      | Some storedRecord \<Rightarrow>
          (case recordValue r of
             SrvValue _ _ port0 target \<Rightarrow>
               handleCommissionableSrv toVendorId now answers0 formerAnswers netInterface r target
                 port0 storedRecord state
           | PtrValue _ \<Rightarrow> Inl TypeError
           | TxtValue _ \<Rightarrow> Inl TypeError
           | AaaaValue _ \<Rightarrow> Inl TypeError
           | AValue _ \<Rightarrow> Inl TypeError
           | RawValue _ _ \<Rightarrow> Inl TypeError))"

text \<open>One round of the loop over \<^verbatim>\<open>queryMissingDataForInstances\<close> (lines 902-913).\<close>

definition queryMissingData ::
  "(jsval \<Rightarrow> error + jsval) \<Rightarrow> DnsRecord list \<Rightarrow> string \<Rightarrow> MdnsScanner \<Rightarrow> error + MdnsScanner" where
  "queryMissingData toVendorId answers0 name0 s =
     (case map_of (commissionableDeviceRecords s) name0 of
        None \<Rightarrow> Inr s
      | Some storedRecord \<Rightarrow>
          (case findCommissionableQueryIdentifier toVendorId [] storedRecord s of
             Inl e \<Rightarrow> Inl e
           | Inr None \<Rightarrow> Inr s
           | Inr (Some queryId) \<Rightarrow>
               Inr (setQueryRecords queryId
                      [\<lparr> queryName = name0, queryType = RT_ANY, queryClass = RC_IN,
                         uniCastResponse = False \<rparr>]
                      answers0 s)))"

fun foldE :: "('a \<Rightarrow> 'b \<Rightarrow> error + 'b) \<Rightarrow> 'a list \<Rightarrow> 'b \<Rightarrow> error + 'b" where
  "foldE f [] st = Inr st"
| "foldE f (x # xs) st = (case f x st of Inl e \<Rightarrow> Inl e | Inr st1 \<Rightarrow> foldE f xs st1)"

text \<open>\<^verbatim>\<open>handleCommissionableRecords\<close> (lines 788-915).\<close>

definition isCommissionable :: "DnsRecord \<Rightarrow> bool" where
  "isCommissionable r = endsWith (name r) MATTER_COMMISSION_SERVICE_QNAME"

definition handleCommissionableRecords ::
  "(jsval \<Rightarrow> error + jsval) \<Rightarrow> int \<Rightarrow> DnsRecord list \<Rightarrow> DnsRecord list \<Rightarrow> string
   \<Rightarrow> MdnsScanner \<Rightarrow> error + MdnsScanner" where
  "handleCommissionableRecords toVendorId now answers0 formerAnswers netInterface s =
     (let commissionableRecords =
            (if filter isCommissionable answers0 = [] then filter isCommissionable formerAnswers
             else filter isCommissionable answers0)
      in if commissionableRecords = [] then Inr s
         else
           (let txtRecords = filter (\<lambda>r. recordType r = RT_TXT) commissionableRecords;
                afterTxt = fold (handleCommissionableTxtRecord now) txtRecords (s, []);
                srvRecords = filter (\<lambda>r. recordType r = RT_SRV) commissionableRecords
            in case foldE (handleCommissionableSrvRecord toVendorId now answers0 formerAnswers
                             netInterface) srvRecords afterTxt of
                 Inl e \<Rightarrow> Inl e
               | Inr (s2, queryMissingDataForInstances) \<Rightarrow>
                   foldE (queryMissingData toVendorId answers0) queryMissingDataForInstances s2))"

section \<open>MdnsScanner.handleDnsMessage\<close>

text \<open>
  \<^verbatim>\<open>handleDnsMessage\<close> (lines 621-635) on the result of \<^verbatim>\<open>DnsCodec.decode\<close>, \<open>None\<close> when the
  bytes cannot be parsed. The clock \<open>now\<close> does not advance while one message is handled.
\<close>

definition handleDnsMessage ::
  "(jsval \<Rightarrow> error + jsval) \<Rightarrow> int \<Rightarrow> DnsRecord DnsMessage option \<Rightarrow> string \<Rightarrow> MdnsScanner
   \<Rightarrow> error + MdnsScanner" where
  "handleDnsMessage toVendorId now message netInterface s =
     (if closing s then Inr s
      else
        (case message of
           None \<Rightarrow> Inr s
         | Some m \<Rightarrow>
             if messageType m \<noteq> Response \<and> messageType m \<noteq> TruncatedResponse then Inr s
             else
               (let answers0 = answers m @ additionalRecords m in
                case handleOperationalRecords now answers0 (getActiveQueryEarlierAnswers s)
                       netInterface s of
                  Inl e \<Rightarrow> Inl e
                | Inr (recordsHandled, s1) \<Rightarrow>
                    if recordsHandled then Inr s1
                    else handleCommissionableRecords toVendorId now answers0
                           (getActiveQueryEarlierAnswers s1) netInterface s1)))"

section \<open>MdnsScanner: discovery and close\<close>

text \<open>
  An asynchronous method runs until it awaits the promise of a waiter: it has returned a
  value, or it is suspended on the waiter of a query id, with the scanner as it is then.
\<close>

datatype 'a suspendable = Returned 'a | Awaiting string MdnsScanner

text \<open>
  \<^verbatim>\<open>findOperationalDevice\<close> (lines 344-372) up to \<^verbatim>\<open>await promise\<close>, and its remainder once the
  promise is resolved. The name \<open>deviceMatterQname\<close> is what \<^verbatim>\<open>createOperationalMatterQName\<close>
  makes of the fabric's operational id and the node id.
\<close>

definition findOperationalDevice ::
  "(string \<Rightarrow> bool) \<Rightarrow> string \<Rightarrow> rat option \<Rightarrow> bool \<Rightarrow> MdnsScanner
   \<Rightarrow> error + jsobject option suspendable" where
  "findOperationalDevice isIPv6 deviceMatterQname timeoutSeconds ignoreExistingRecords s =
     (if closing s then
        Inl (ImplementationError ''Cannot discover operational device because scanner is closing.'')
      else
        (case (if ignoreExistingRecords then Inr None
               else getOperationalDeviceRecords isIPv6 deviceMatterQname s) of
           Inl e \<Rightarrow> Inl e
         | Inr (Some storedDevice) \<Rightarrow> Inr (Returned (Some storedDevice))
         | Inr None \<Rightarrow>
             Inr (Awaiting deviceMatterQname
                    (setQueryRecords deviceMatterQname
                       [\<lparr> queryName = deviceMatterQname, queryType = RT_SRV, queryClass = RC_IN,
                          uniCastResponse = False \<rparr>] []
                       (registerWaiterPromise deviceMatterQname timeoutSeconds True s)))))"

definition findOperationalDeviceResumed ::
  "(string \<Rightarrow> bool) \<Rightarrow> string \<Rightarrow> MdnsScanner \<Rightarrow> error + jsobject option \<times> MdnsScanner" where
  "findOperationalDeviceResumed isIPv6 deviceMatterQname s =
     (case getOperationalDeviceRecords isIPv6 deviceMatterQname s of
        Inl e \<Rightarrow> Inl e
      | Inr storedDevice \<Rightarrow> Inr (storedDevice, removeQuery deviceMatterQname s))"

text \<open>\<^verbatim>\<open>findCommissionableDevices\<close> (lines 541-561) up to \<^verbatim>\<open>await promise\<close>, and its remainder.\<close>

definition hasAddresses :: "jsobject \<Rightarrow> bool" where
  "hasAddresses r = (case map_of r ''addresses'' of Some (AddressArray (_ # _)) \<Rightarrow> True | _ \<Rightarrow> False)"

definition findCommissionableDevices ::
  "(string \<Rightarrow> bool) \<Rightarrow> CommissionableDeviceIdentifiers \<Rightarrow> rat \<Rightarrow> bool \<Rightarrow> MdnsScanner
   \<Rightarrow> error + jsobject list suspendable" where
  "findCommissionableDevices isIPv6 identifier timeoutSeconds ignoreExistingRecords s =
     (case (if ignoreExistingRecords then Inr []
            else (case getCommissionableDeviceRecords isIPv6 identifier s of
                    Inl e \<Rightarrow> Inl e | Inr rs \<Rightarrow> Inr (filter hasAddresses rs))) of
        Inl e \<Rightarrow> Inl e
      | Inr storedRecords \<Rightarrow>
          if storedRecords = [] then
            (let queryId = buildCommissionableQueryIdentifier identifier
             in Inr (Awaiting queryId
                       (setQueryRecords queryId (getCommissionableQueryRecords identifier) []
                          (registerWaiterPromise queryId (Some timeoutSeconds) True s))))
          else Inr (Returned storedRecords))"

definition findCommissionableDevicesResumed ::
  "(string \<Rightarrow> bool) \<Rightarrow> CommissionableDeviceIdentifiers \<Rightarrow> MdnsScanner
   \<Rightarrow> error + jsobject list \<times> MdnsScanner" where
  "findCommissionableDevicesResumed isIPv6 identifier s =
     (case getCommissionableDeviceRecords isIPv6 identifier s of
        Inl e \<Rightarrow> Inl e
      | Inr storedRecords \<Rightarrow>
          Inr (storedRecords, removeQuery (buildCommissionableQueryIdentifier identifier) s))"

text \<open>
  \<^verbatim>\<open>findCommissionableDevicesContinuously\<close> (lines 569-597). \<open>continuousRound\<close> is one round
  of its loop at the time \<open>now\<close>: the devices the callback is called with, the identifiers
  discovered so far, and the return value or the suspension on a new waiter.
  \<open>findCommissionableDevicesContinuously\<close> is the method up to its first \<^verbatim>\<open>await\<close>.
\<close>

fun newDevices :: "jsval option list \<Rightarrow> jsobject list \<Rightarrow> jsobject list \<times> jsval option list" where
  "newDevices discoveredDevices [] = ([], discoveredDevices)"
| "newDevices discoveredDevices (device # devices) =
     (if map_of device ''deviceIdentifier'' \<in> set discoveredDevices then
        newDevices discoveredDevices devices
      else
        (case newDevices (discoveredDevices @ [map_of device ''deviceIdentifier'']) devices of
           (called, discovered) \<Rightarrow> (device # called, discovered)))"

definition continuousRound ::
  "(string \<Rightarrow> bool) \<Rightarrow> CommissionableDeviceIdentifiers \<Rightarrow> string \<Rightarrow> rat \<Rightarrow> int
   \<Rightarrow> jsval option list \<Rightarrow> MdnsScanner
   \<Rightarrow> error + jsobject list \<times> jsval option list \<times> jsobject list suspendable" where
  "continuousRound isIPv6 identifier queryId discoveryEndTime now discoveredDevices s =
     (case getCommissionableDeviceRecords isIPv6 identifier s of
        Inl e \<Rightarrow> Inl e
      | Inr devices \<Rightarrow>
          (case newDevices discoveredDevices devices of
             (called, discovered) \<Rightarrow>
               (let remainingTime = \<lceil>(discoveryEndTime - of_int now) / 1000\<rceil>
                in if remainingTime \<le> 0 then Inr (called, discovered, Returned devices)
                   else Inr (called, discovered,
                          Awaiting queryId
                            (registerWaiterPromise queryId (Some (of_int remainingTime)) False s)))))"

definition findCommissionableDevicesContinuously ::
  "(string \<Rightarrow> bool) \<Rightarrow> CommissionableDeviceIdentifiers \<Rightarrow> rat \<Rightarrow> int \<Rightarrow> MdnsScanner
   \<Rightarrow> error + jsobject list \<times> jsval option list \<times> jsobject list suspendable" where
  "findCommissionableDevicesContinuously isIPv6 identifier timeoutSeconds now s =
     (let discoveryEndTime = of_int now + timeoutSeconds * 1000;
          queryId = buildCommissionableQueryIdentifier identifier
      in continuousRound isIPv6 identifier queryId discoveryEndTime now []
           (setQueryRecords queryId (getCommissionableQueryRecords identifier) [] s))"

text \<open>
  \<^verbatim>\<open>close\<close> (lines 606-615). The waiters are finished in the order of their keys; a waiter is
  resolved exactly when it has a timer.
\<close>

definition closeWaiter :: "string \<Rightarrow> MdnsScanner \<Rightarrow> MdnsScanner" where
  "closeWaiter queryId s =
     finishWaiter queryId
       (case map_of (recordWaiters s) queryId of Some w \<Rightarrow> timer w \<noteq> None | None \<Rightarrow> False)
       False s"

definition close :: "MdnsScanner \<Rightarrow> MdnsScanner" where
  "close s =
     (let s1 = s\<lparr> closing := True, periodicTimer := False, queryTimer := None,
                  multicastServerClosed := True \<rparr>
      in fold closeWaiter (map fst (recordWaiters s1)) s1)"

section \<open>MdnsServer: answering queries\<close>

text \<open>
  The numbers of the record types and classes, which \<^verbatim>\<open>buildDnsRecordKey\<close> writes into its key.
  Modelled from the spec: the enumerations are those of DnsCodec.js, which is not among the
  sources; the spec makes the codec an RFC 1035 codec, and the numbers are the RFC's.
\<close>

definition recordTypeNumber :: "DnsRecordType \<Rightarrow> nat" where
  "recordTypeNumber t =
     (case t of RT_A \<Rightarrow> 1 | RT_AAAA \<Rightarrow> 28 | RT_SRV \<Rightarrow> 33 | RT_TXT \<Rightarrow> 16 | RT_PTR \<Rightarrow> 12
      | RT_ANY \<Rightarrow> 255 | RT_Other n \<Rightarrow> n)"

definition recordClassNumber :: "DnsRecordClass \<Rightarrow> nat" where
  "recordClassNumber c = (case c of RC_IN \<Rightarrow> 1 | RC_Other n \<Rightarrow> n)"

text \<open>\<^verbatim>\<open>buildDnsRecordKey\<close> (part_001, lines 72-74).\<close>

definition buildDnsRecordKey :: "DnsRecord \<Rightarrow> string \<Rightarrow> string" where
  "buildDnsRecordKey r netInterface =
     name r @ ''-'' @ natToString (recordClassNumber (recordClass r)) @ ''-''
     @ natToString (recordTypeNumber (recordType r)) @ ''-'' @ netInterface"

text \<open>\<^verbatim>\<open>queryRecords\<close> (part_001, lines 304-310).\<close>

definition queryRecords :: "DnsQuery \<Rightarrow> DnsRecord list \<Rightarrow> DnsRecord list" where
  "queryRecords q records =
     (if queryType q = RT_ANY then filter (\<lambda>r. name r = queryName q) records
      else filter (\<lambda>r. name r = queryName q \<and> recordType r = queryType q) records)"

text \<open>
  The two loops over \<^verbatim>\<open>knownAnswers\<close> (lines 109-112 and 115-119). \<^verbatim>\<open>isDeepEqual\<close> comes from
  \<^verbatim>\<open>util/DeepEqual.js\<close>, which is not among the sources; on records it is the equality of all
  their fields. The \<^verbatim>\<open>break\<close> of the first loop leaves it once nothing is left to filter.
\<close>

definition withoutKnownAnswers :: "DnsRecord list \<Rightarrow> DnsRecord list \<Rightarrow> DnsRecord list" where
  "withoutKnownAnswers knownAnswers0 records =
     fold (\<lambda>knownAnswersRecord rs. filter (\<lambda>r. r \<noteq> knownAnswersRecord) rs) knownAnswers0 records"

text \<open>
  The state of the responder that answering touches: \<^verbatim>\<open>recordLastSentAsMulticastAnswer\<close>.
\<close>

type_synonym lastSent = "(string \<times> int) list"

definition timeSinceLastMultiCast :: "int \<Rightarrow> string \<Rightarrow> lastSent \<Rightarrow> DnsRecord \<Rightarrow> int" where
  "timeSinceLastMultiCast now netInterface sent answer =
     now - (case map_of sent (buildDnsRecordKey answer netInterface) of Some t \<Rightarrow> t | None \<Rightarrow> 0)"

text \<open>
  One round of the loop over the record sets of the interface (lines 97-163) at the time
  \<open>now\<close>: the response handed to \<^verbatim>\<open>sendRecords\<close> with its unicast target, if one is sent, and
  the new state.
\<close>

definition answerQueries ::
  "int \<Rightarrow> string \<Rightarrow> string \<Rightarrow> nat \<Rightarrow> DnsQuery list \<Rightarrow> DnsRecord list \<Rightarrow> DnsRecord list
   \<Rightarrow> lastSent \<Rightarrow> (DnsRecord DnsMessage \<times> string option) option \<times> lastSent" where
  "answerQueries now netInterface remoteIp transactionId0 queries0 knownAnswers0 portRecords sent =
     (let answers0 = concat (map (\<lambda>query. queryRecords query portRecords) queries0)
      in if answers0 = [] then (None, sent)
         else
           (let additionalRecords0 =
                  (if find (\<lambda>query. queryType query \<noteq> RT_A \<and> queryType query \<noteq> RT_AAAA) queries0
                        \<noteq> None
                   then filter (\<lambda>r. r \<notin> set answers0 \<and> recordType r \<noteq> RT_PTR) portRecords
                   else []);
                answers1 = (if knownAnswers0 \<noteq> [] then withoutKnownAnswers knownAnswers0 answers0
                            else answers0);
                additionalRecords1 =
                  (if knownAnswers0 \<noteq> [] \<and> additionalRecords0 \<noteq> []
                   then withoutKnownAnswers knownAnswers0 additionalRecords0
                   else additionalRecords0)
            in if answers1 = [] then (None, sent)
               else
                 (let uniCastResponse0 = (filter (\<lambda>query. \<not> uniCastResponse query) queries0 = []);
                      uniCastResponse1 =
                        (uniCastResponse0
                         \<and> \<not> (filter (\<lambda>answer.
                                  (of_int (timeSinceLastMultiCast now netInterface sent answer) :: rat)
                                    > (of_nat (ttl answer) / 4) * 1000) answers1 \<noteq> []))
                  in if \<not> uniCastResponse1 then
                       (let answers2 = filter (\<lambda>answer.
                                  timeSinceLastMultiCast now netInterface sent answer > 1000) answers1
                        in if answers2 = [] then (None, sent)
                           else
                             (Some (\<lparr> messageType = Response, transactionId = transactionId0,
                                      queries = [], answers = answers2, authorities = [],
                                      additionalRecords = additionalRecords1 \<rparr>, None),
                              fold (\<lambda>answer m. AList.update (buildDnsRecordKey answer netInterface) now m)
                                answers2 sent))
                     else
                       (Some (\<lparr> messageType = Response, transactionId = transactionId0,
                                queries = [], answers = answers1, authorities = [],
                                additionalRecords = additionalRecords1 \<rparr>, Some remoteIp),
                        sent))))"

text \<open>
  The loop over the record sets, each with the time at which its round runs (the loop sleeps
  between two responses).
\<close>

fun answerRecordSets ::
  "string \<Rightarrow> string \<Rightarrow> nat \<Rightarrow> DnsQuery list \<Rightarrow> DnsRecord list \<Rightarrow> (DnsRecord list \<times> int) list
   \<Rightarrow> lastSent \<Rightarrow> (DnsRecord DnsMessage \<times> string option) list \<times> lastSent" where
  "answerRecordSets netInterface remoteIp transactionId0 queries0 knownAnswers0 [] sent = ([], sent)"
| "answerRecordSets netInterface remoteIp transactionId0 queries0 knownAnswers0
     ((portRecords, now) # rest) sent =
     (case answerQueries now netInterface remoteIp transactionId0 queries0 knownAnswers0
             portRecords sent of
        (response, sent1) \<Rightarrow>
          (case answerRecordSets netInterface remoteIp transactionId0 queries0 knownAnswers0
                  rest sent1 of
             (responses, sent2) \<Rightarrow>
               ((case response of Some r \<Rightarrow> [r] | None \<Rightarrow> []) @ responses, sent2)))"

text \<open>
  \<^verbatim>\<open>MdnsServer.handleDnsMessage\<close> (part_001, lines 84-164) on the decoded message (\<open>None\<close> when
  the bytes cannot be parsed), the interface (\<open>None\<close> for \<^verbatim>\<open>undefined\<close>) and the record sets that
  \<^verbatim>\<open>this.records.get(netInterface)\<close> holds for it.
\<close>

definition serverHandleDnsMessage ::
  "DnsRecord DnsMessage option \<Rightarrow> string \<Rightarrow> string option \<Rightarrow> (DnsRecord list \<times> int) list
   \<Rightarrow> lastSent \<Rightarrow> (DnsRecord DnsMessage \<times> string option) list \<times> lastSent" where
  "serverHandleDnsMessage message remoteIp netInterface0 records sent =
     (case netInterface0 of
        None \<Rightarrow> ([], sent)
      | Some netInterface \<Rightarrow>
          if records = [] then ([], sent)
          else
            (case message of
               None \<Rightarrow> ([], sent)
             | Some m \<Rightarrow>
                 if messageType m \<noteq> Query \<and> messageType m \<noteq> TruncatedQuery then ([], sent)
                 else if queries m = [] then ([], sent)
                 else answerRecordSets netInterface remoteIp (transactionId m) (queries m)
                        (answers m) records sent))"

text \<open>The records that match some query of a message in a record set: the candidate answers.\<close>

definition candidateAnswers :: "DnsQuery list \<Rightarrow> DnsRecord list \<Rightarrow> DnsRecord list" where
  "candidateAnswers queries0 portRecords =
     concat (map (\<lambda>query. queryRecords query portRecords) queries0)"

section \<open>Notions used to state the properties of the caches\<close>

text \<open>The keys of the items of a TXT record: of each item the part before its first \<^verbatim>\<open>=\<close>.\<close>

definition txtKeys :: "DnsRecord \<Rightarrow> string list" where
  "txtKeys r =
     (case recordValue r of
        TxtValue items \<Rightarrow> map (\<lambda>item. takeWhile (\<lambda>c. c \<noteq> CHR ''='') item) items
      | PtrValue _ \<Rightarrow> []
      | SrvValue _ _ _ _ \<Rightarrow> []
      | AaaaValue _ \<Rightarrow> []
      | AValue _ \<Rightarrow> []
      | RawValue _ _ \<Rightarrow> [])"

text \<open>
  The SRV record that \<^verbatim>\<open>handleOperationalRecords\<close> hands to \<^verbatim>\<open>handleOperationalSrvRecord\<close>:
  the first operational one of the message, else the first of the earlier answers.
\<close>

definition firstOperationalSrv :: "DnsRecord list \<Rightarrow> DnsRecord list \<Rightarrow> DnsRecord option" where
  "firstOperationalSrv answers0 formerAnswers =
     (case find (isOperational RT_SRV) answers0 of
        Some r \<Rightarrow> Some r
      | None \<Rightarrow> find (isOperational RT_SRV) formerAnswers)"

text \<open>A property of the entry cached for a name, \<open>None\<close> when there is no entry or no such property.\<close>

definition commissionableProperty :: "MdnsScanner \<Rightarrow> string \<Rightarrow> string \<Rightarrow> jsval option" where
  "commissionableProperty s n k =
     (case map_of (commissionableDeviceRecords s) n of Some r \<Rightarrow> map_of r k | None \<Rightarrow> None)"

definition operationalProperty :: "MdnsScanner \<Rightarrow> string \<Rightarrow> string \<Rightarrow> jsval option" where
  "operationalProperty s n k =
     (case map_of (operationalDeviceRecords s) n of Some r \<Rightarrow> map_of r k | None \<Rightarrow> None)"

text \<open>
  The addresses of a cache entry in the order of its \<^verbatim>\<open>Map\<close>, each as a caller gets it (\<^verbatim>\<open>ip\<close>,
  \<^verbatim>\<open>port\<close> and the type \<^verbatim>\<open>udp\<close>), and the addresses of a device that a getter has returned.
\<close>

definition cachedAddresses :: "jsobject \<Rightarrow> ServerAddressIp list" where
  "cachedAddresses device =
     (case getAddresses device of
        Inr addresses \<Rightarrow> map (\<lambda>entry. toServerAddressIp (snd entry)) addresses
      | Inl e \<Rightarrow> [])"

definition returnedAddresses :: "jsobject \<Rightarrow> ServerAddressIp list" where
  "returnedAddresses device =
     (case map_of device ''addresses'' of
        Some (AddressArray addresses) \<Rightarrow> addresses
      | Some (AddressMap _) \<Rightarrow> []
      | Some (Num _) \<Rightarrow> []
      | Some NaN \<Rightarrow> []
      | Some (Str _) \<Rightarrow> []
      | None \<Rightarrow> [])"

text \<open>
  A list is a stable permutation of another by a priority: it has the same elements as often,
  its priorities ascend, and the elements of each priority are in their original order.
\<close>

definition stablySortedBy :: "('a \<Rightarrow> nat) \<Rightarrow> 'a list \<Rightarrow> 'a list \<Rightarrow> bool" where
  "stablySortedBy priority original sorted0 =
     (mset sorted0 = mset original
      \<and> sorted (map priority sorted0)
      \<and> (\<forall>k. filter (\<lambda>e. priority e = k) sorted0 = filter (\<lambda>e. priority e = k) original))"

text \<open>
  The records that \<^verbatim>\<open>handleCommissionableRecords\<close> works on (lines 794-798): the commissionable
  records of the message, else those of the earlier answers.
\<close>

definition commissionableRecordsOf :: "DnsRecord list \<Rightarrow> DnsRecord list \<Rightarrow> DnsRecord list" where
  "commissionableRecordsOf answers0 formerAnswers =
     (if filter isCommissionable answers0 = [] then filter isCommissionable formerAnswers
      else filter isCommissionable answers0)"

text \<open>The last TXT record of a name in a list of records.\<close>

definition lastTxtRecord :: "string \<Rightarrow> DnsRecord list \<Rightarrow> DnsRecord option" where
  "lastTxtRecord n records = find (\<lambda>r. recordType r = RT_TXT \<and> name r = n) (rev records)"

text \<open>
  The TTL that the last entry for an address has in the list that \<^verbatim>\<open>handleIpRecords\<close> returns.
\<close>

definition lastTtl :: "string \<Rightarrow> (string \<times> nat) list \<Rightarrow> nat option" where
  "lastTtl ip0 ips = map_option snd (find (\<lambda>entry. fst entry = ip0) (rev ips))"

text \<open>Every address of a \<^verbatim>\<open>Map\<close> of addresses is stored under its own \<^verbatim>\<open>ip\<close>.\<close>

definition keyedByIp :: "(string \<times> MatterServerRecordWithExpire) list \<Rightarrow> bool" where
  "keyedByIp addresses = list_all (\<lambda>entry. ip (snd entry) = fst entry) addresses"

text \<open>The addresses cached for an operational or a commissionable device, if it is cached.\<close>

definition operationalAddresses ::
  "MdnsScanner \<Rightarrow> string \<Rightarrow> (string \<times> MatterServerRecordWithExpire) list option" where
  "operationalAddresses s n =
     (case map_of (operationalDeviceRecords s) n of
        Some device \<Rightarrow> (case getAddresses device of Inr addresses \<Rightarrow> Some addresses | Inl e \<Rightarrow> None)
      | None \<Rightarrow> None)"

definition commissionableAddresses ::
  "MdnsScanner \<Rightarrow> string \<Rightarrow> (string \<times> MatterServerRecordWithExpire) list option" where
  "commissionableAddresses s n =
     (case map_of (commissionableDeviceRecords s) n of
        Some device \<Rightarrow> (case getAddresses device of Inr addresses \<Rightarrow> Some addresses | Inl e \<Rightarrow> None)
      | None \<Rightarrow> None)"

section \<open>Notions used to state the properties of the send loops\<close>

text \<open>
  The messages one \<^verbatim>\<open>sendQueries\<close> cycle sends, the warnings it logs, the length of a
  datagram, and the length of the message without records that both send loops measure first
  (\<^verbatim>\<open>emptyDnsMessage.length\<close>).
\<close>

definition sentQueries ::
  "(DnsQuery \<Rightarrow> ByteArray) \<Rightarrow> (DnsRecord \<Rightarrow> ByteArray) \<Rightarrow> MdnsScanner \<Rightarrow> ByteArray DnsMessage list" where
  "sentQueries encodeQuery encodeRecord s = fst (snd (sendQueries encodeQuery encodeRecord s))"

definition loggedWarnings ::
  "(DnsQuery \<Rightarrow> ByteArray) \<Rightarrow> (DnsRecord \<Rightarrow> ByteArray) \<Rightarrow> MdnsScanner \<Rightarrow> nat" where
  "loggedWarnings encodeQuery encodeRecord s = snd (snd (sendQueries encodeQuery encodeRecord s))"

definition datagramLength :: "(DnsQuery \<Rightarrow> ByteArray) \<Rightarrow> ByteArray DnsMessage \<Rightarrow> nat" where
  "datagramLength encodeQuery m = length (DnsCodec_encode encodeQuery m)"

definition emptyQueryLength :: "(DnsQuery \<Rightarrow> ByteArray) \<Rightarrow> MdnsScanner \<Rightarrow> nat" where
  "emptyQueryLength encodeQuery s =
     datagramLength encodeQuery
       \<lparr> messageType = TruncatedQuery, transactionId = 0,
         queries = concat (map (activeQueries \<circ> snd) (activeAnnounceQueries s)),
         answers = [], authorities = [], additionalRecords = [] \<rparr>"

definition emptyRecordsLength ::
  "(DnsQuery \<Rightarrow> ByteArray) \<Rightarrow> (DnsRecord \<Rightarrow> ByteArray) \<Rightarrow> DnsRecord DnsMessage \<Rightarrow> nat" where
  "emptyRecordsLength encodeQuery encodeRecord dnsMessageData =
     datagramLength encodeQuery
       \<lparr> messageType = messageType dnsMessageData, transactionId = transactionId dnsMessageData,
         queries = queries dnsMessageData, answers = [],
         authorities = map encodeRecord (authorities dnsMessageData), additionalRecords = [] \<rparr>"

text \<open>The tuple (name, class, type) by which \<^verbatim>\<open>setQueryRecords\<close> compares queries.\<close>

definition queryTuple :: "DnsQuery \<Rightarrow> string \<times> DnsRecordClass \<times> DnsRecordType" where
  "queryTuple q = (queryName q, queryClass q, queryType q)"

text \<open>
  The invariant of the size counter of \<^verbatim>\<open>sendQueries\<close>: it is the length measured first
  plus the lengths of the answers collected, it bounds the length of the message under
  construction, and it is within the budget once two answers are collected.
\<close>

definition counted :: "(DnsQuery \<Rightarrow> ByteArray) \<Rightarrow> nat \<Rightarrow> ByteArray DnsMessage \<Rightarrow> nat \<Rightarrow> bool" where
  "counted eq E cur sz =
     (sz = E + sum_list (map length (answers cur))
      \<and> length (DnsCodec_encode eq cur) \<le> sz
      \<and> (2 \<le> length (answers cur) \<longrightarrow> sz \<le> MAX_MDNS_MESSAGE_SIZE))"

section \<open>Concrete inputs\<close>

text \<open>
  Queries, records, encoders and scanner states on which the properties are evaluated. The
  example encoders write 800 zero bytes for a question and, for a record with a raw value
  of type \<open>n\<close>, \<open>n\<close> zero bytes.
\<close>

definition exQueryFor :: "string \<Rightarrow> DnsQuery" where
  "exQueryFor n = \<lparr> queryName = n, queryType = RT_SRV, queryClass = RC_IN, uniCastResponse = False \<rparr>"

definition exQuery :: DnsQuery where
  "exQuery = \<lparr> queryName = ''_matterc._udp.local'', queryType = RT_PTR, queryClass = RC_IN,
               uniCastResponse = False \<rparr>"

definition exRecord :: "nat \<Rightarrow> DnsRecord" where
  "exRecord n = \<lparr> name = ''host.local'', recordClass = RC_IN, ttl = 120,
                  recordValue = RawValue n [] \<rparr>"

definition exScannerOneQuery :: MdnsScanner where
  "exScannerOneQuery = (newMdnsScanner False)
     \<lparr> activeAnnounceQueries :=
         [(''q'', \<lparr>activeQueries = [exQueryFor ''a.local''], knownAnswers = [exRecord 1]\<rparr>)],
       nextAnnounceIntervalSeconds := 48, queryTimer := Some 24000 \<rparr>"

definition exEncodeQuery :: "DnsQuery \<Rightarrow> ByteArray" where
  "exEncodeQuery q = replicate 800 0"

definition exEncodeRecord :: "DnsRecord \<Rightarrow> ByteArray" where
  "exEncodeRecord r = (case recordValue r of RawValue n _ \<Rightarrow> replicate n 0 | _ \<Rightarrow> [])"

definition exResponse :: "DnsRecord DnsMessage" where
  "exResponse = \<lparr> messageType = Response, transactionId = 0, queries = [],
                  answers = [exRecord 700, exRecord 700, exRecord 700], authorities = [],
                  additionalRecords = [] \<rparr>"

definition exScannerTwoQueries :: MdnsScanner where
  "exScannerTwoQueries = (newMdnsScanner False)
     \<lparr> activeAnnounceQueries :=
         [(''a'', \<lparr>activeQueries = [exQuery, exQuery], knownAnswers = []\<rparr>)] \<rparr>"

definition exScannerBigAnswer :: MdnsScanner where
  "exScannerBigAnswer = (newMdnsScanner False)
     \<lparr> activeAnnounceQueries :=
         [(''a'', \<lparr>activeQueries = [], knownAnswers = [exRecord 1600]\<rparr>)] \<rparr>"

definition exScannerThreeAnswers :: MdnsScanner where
  "exScannerThreeAnswers = (newMdnsScanner False)
     \<lparr> activeAnnounceQueries :=
         [(''a'', \<lparr>activeQueries = [], knownAnswers = [exRecord 700, exRecord 700, exRecord 700]\<rparr>)] \<rparr>"

definition exTxt :: "string \<Rightarrow> nat \<Rightarrow> string list \<Rightarrow> DnsRecord" where
  "exTxt n t items = \<lparr> name = n, recordClass = RC_IN, ttl = t, recordValue = TxtValue items \<rparr>"

definition exDevice :: "string \<Rightarrow> jsobject" where
  "exDevice n =
     [(''deviceIdentifier'', Str n),
      (''addresses'', AddressMap [(''fd00::1'', \<lparr> ip = ''fd00::1'', port = 5540, type = ''udp'', expires = 120000 \<rparr>)]),
      (''expires'', Num 120000)]"

definition exScannerTwoDevices :: MdnsScanner where
  "exScannerTwoDevices = (newMdnsScanner False)
     \<lparr> operationalDeviceRecords :=
         [(''A1B2-0001._matter._tcp.local'', exDevice ''A1B2-0001._matter._tcp.local''),
          (''A1B2-0002._matter._tcp.local'', exDevice ''A1B2-0002._matter._tcp.local'')] \<rparr>"

definition exGoodbye :: "DnsRecord DnsMessage" where
  "exGoodbye = \<lparr> messageType = Response, transactionId = 0, queries = [],
                 answers = [exTxt ''A1B2-0001._matter._tcp.local'' 0 [],
                            exTxt ''A1B2-0002._matter._tcp.local'' 0 []],
                 authorities = [], additionalRecords = [] \<rparr>"

definition exSrv :: "string \<Rightarrow> nat \<Rightarrow> DnsRecord" where
  "exSrv n t = \<lparr> name = n, recordClass = RC_IN, ttl = t, recordValue = SrvValue 0 0 5540 ''host1.local'' \<rparr>"

definition exScannerCommissionable :: MdnsScanner where
  "exScannerCommissionable = (newMdnsScanner False)
     \<lparr> commissionableDeviceRecords :=
         [(''inst1._matterc._udp.local'',
           [(''addresses'', AddressMap [(''fd00::2'', \<lparr> ip = ''fd00::2'', port = 5540, type = ''udp'', expires = 120000 \<rparr>)]),
            (''expires'', Num 120000), (''D'', Num 3840), (''CM'', Num 1),
            (''instanceId'', Str ''inst1''), (''deviceIdentifier'', Str ''inst1''), (''SD'', Num 15)])] \<rparr>"

definition exGoodbyeSrv :: "DnsRecord DnsMessage" where
  "exGoodbyeSrv = \<lparr> messageType = Response, transactionId = 0, queries = [],
                    answers = [exSrv ''A1B2-0001._matter._tcp.local'' 0],
                    authorities = [], additionalRecords = [] \<rparr>"

definition exVendorId :: "jsval \<Rightarrow> error + jsval" where
  "exVendorId v = Inr v"

definition exPtr :: DnsRecord where
  "exPtr = \<lparr> name = ''_matterc._udp.local'', recordClass = RC_IN, ttl = 120,
              recordValue = PtrValue ''inst1._matterc._udp.local'' \<rparr>"

definition exPortRecords :: "DnsRecord list" where
  "exPortRecords =
     [exPtr, exSrv ''inst1._matterc._udp.local'' 120, exTxt ''inst1._matterc._udp.local'' 120 [''D=3840'']]"

definition exIsIPv6 :: "string \<Rightarrow> bool" where
  "exIsIPv6 a = (CHR '':'' \<in> set a)"

definition exScannerWaiters :: MdnsScanner where
  "exScannerWaiters = (newMdnsScanner False)
     \<lparr> recordWaiters :=
         [(''a'', \<lparr> timer = Some 5000, resolveOnUpdatedRecords = True \<rparr>),
          (''b'', \<lparr> timer = None, resolveOnUpdatedRecords = True \<rparr>),
          (''c'', \<lparr> timer = Some 900000, resolveOnUpdatedRecords = False \<rparr>)] \<rparr>"

text \<open>A scanner with an operational and a commissionable device of several addresses.\<close>

definition exAddress :: "string \<Rightarrow> string \<times> MatterServerRecordWithExpire" where
  "exAddress a = (a, \<lparr> ip = a, port = 5540, type = ''udp'', expires = 120000 \<rparr>)"

definition exAddressDevice :: jsobject where
  "exAddressDevice =
     [(''deviceIdentifier'', Str ''A1B2-0001._matter._tcp.local''),
      (''addresses'', AddressMap [exAddress ''192.168.1.5'', exAddress ''2001:db8::1'',
         exAddress ''fe80::1%eth0'', exAddress ''fd00::1'', exAddress ''10.0.0.7'',
         exAddress ''fd00::2'']),
      (''expires'', Num 120000)]"

definition exAddressCommissionable :: jsobject where
  "exAddressCommissionable =
     [(''addresses'', AddressMap [exAddress ''10.0.0.7'', exAddress ''fe80::1%eth0'',
         exAddress ''fd00::2'']),
      (''expires'', Num 120000), (''D'', Num 3840), (''CM'', Num 1),
      (''instanceId'', Str ''inst1''), (''deviceIdentifier'', Str ''inst1''), (''SD'', Num 15)]"

definition exScannerAddresses :: MdnsScanner where
  "exScannerAddresses = (newMdnsScanner False)
     \<lparr> operationalDeviceRecords := [(''A1B2-0001._matter._tcp.local'', exAddressDevice)],
       commissionableDeviceRecords := [(''inst1._matterc._udp.local'', exAddressCommissionable)] \<rparr>"

definition exReturned :: "string \<Rightarrow> ServerAddressIp" where
  "exReturned a = \<lparr> ip = a, port = 5540, type = ''udp'' \<rparr>"

definition exReturnedDevice :: jsobject where
  "exReturnedDevice =
     AList.update ''addresses''
       (AddressArray (map exReturned [''fd00::1'', ''fd00::2'', ''fe80::1%eth0'', ''2001:db8::1'',
          ''192.168.1.5'', ''10.0.0.7'']))
       exAddressDevice"

definition exReturnedCommissionable :: jsobject where
  "exReturnedCommissionable =
     AList.delete ''expires''
       (AList.update ''addresses''
          (AddressArray (map exReturned [''fd00::2'', ''fe80::1%eth0'', ''10.0.0.7'']))
          exAddressCommissionable)"

text \<open>
  Two cached commissionable devices and a response with a goodbye TXT record for each, the
  commissionable counterpart of \<open>exScannerTwoDevices\<close> and \<open>exGoodbye\<close>.
\<close>

definition exCommissionableDevice :: "string \<Rightarrow> jsobject" where
  "exCommissionableDevice instance =
     [(''addresses'', AddressMap [(''fd00::2'', \<lparr> ip = ''fd00::2'', port = 5540, type = ''udp'', expires = 120000 \<rparr>)]),
      (''expires'', Num 120000), (''D'', Num 3840), (''CM'', Num 1),
      (''instanceId'', Str instance), (''deviceIdentifier'', Str instance), (''SD'', Num 15)]"

definition exScannerTwoCommissionable :: MdnsScanner where
  "exScannerTwoCommissionable = (newMdnsScanner False)
     \<lparr> commissionableDeviceRecords :=
         [(''inst1._matterc._udp.local'', exCommissionableDevice ''inst1''),
          (''inst2._matterc._udp.local'', exCommissionableDevice ''inst2'')] \<rparr>"

definition exGoodbyeCommissionable :: "DnsRecord DnsMessage" where
  "exGoodbyeCommissionable =
     \<lparr> messageType = Response, transactionId = 0, queries = [],
       answers = [exTxt ''inst1._matterc._udp.local'' 0 [],
                  exTxt ''inst2._matterc._udp.local'' 0 []],
       authorities = [], additionalRecords = [] \<rparr>"

text \<open>An AAAA record, and the answers of a response with an SRV record and a goodbye for an address.\<close>

definition exAaaa :: "string \<Rightarrow> string \<Rightarrow> nat \<Rightarrow> DnsRecord" where
  "exAaaa host address t = \<lparr> name = host, recordClass = RC_IN, ttl = t, recordValue = AaaaValue address \<rparr>"

definition exAddressGoodbye :: "string \<Rightarrow> string \<Rightarrow> DnsRecord list" where
  "exAddressGoodbye n address = [exSrv n 120, exAaaa ''host1.local'' address 0]"

section \<open>TLV: elements, values and schemas\<close>

text \<open>
  \<^verbatim>\<open>tlv/TlvCodec.js\<close>, \<^verbatim>\<open>tlv/TlvSchema.js\<close> and \<^verbatim>\<open>tlv/TlvAny.js\<close> are not among the sources;
  their types are read off their uses in TlvWrapper.ts. A reader yields a stream of elements,
  each with its optional tag, its type and, for a primitive, its value; a container is the
  element that opens it, its members and an \<^verbatim>\<open>EndOfContainer\<close> element. A reader only moves
  forward: a schema's \<^verbatim>\<open>decodeTlvInternalValue\<close> gets the element just read and the stream
  after it, and returns the value with the number of further elements it has read.
\<close>

datatype TlvType = TlvStructure | TlvList | TlvArray | TlvEndOfContainer | TlvPrimitive nat

record TlvTag =
  tagProfile :: "nat option"
  tagId :: "nat option"

record TlvTypeLength =
  tlvType :: TlvType
  tlvLength :: "nat option"

datatype tlvValue =
    VNum int
  | VStr string
  | VBool bool
  | VNull
  | VArray "tlvValue list"
  | VObject "(string \<times> tlvValue) list"

record TlvElement =
  tag :: "TlvTag option"
  typeLength :: TlvTypeLength
  elementValue :: "tlvValue option"

text \<open>
  The interface \<^verbatim>\<open>TlvSchema\<close> as ObjectSchema uses it. The writer's output is the list of the
  elements written; \<^verbatim>\<open>validate\<close> returns the error it throws, if any.
\<close>

record TlvSchema =
  encodeTlvInternal :: "tlvValue \<Rightarrow> TlvTag option \<Rightarrow> bool \<Rightarrow> error + TlvElement list"
  decodeTlvInternalValue :: "TlvElement \<Rightarrow> TlvElement list \<Rightarrow> error + tlvValue \<times> nat"
  validate :: "tlvValue \<Rightarrow> error option"

text \<open>\<^verbatim>\<open>FieldType\<close> and \<^verbatim>\<open>RepeatedFieldType\<close> (TlvWrapper.ts, lines 48-69).\<close>

record FieldType =
  fieldId :: nat
  schema :: TlvSchema
  optional :: bool
  repeated :: bool
  fallback :: "tlvValue option"
  minLength :: "nat option"
  maxLength :: "nat option"

text \<open>
  The field definitions of an object schema in the order in which \<^verbatim>\<open>for (const name in
  this.fieldDefinitions)\<close> visits them, which is the order of their declaration for names that
  are not array indices; an object has each name once. A value or a decoded result is the list
  of its own properties, and \<^verbatim>\<open>value[name]\<close> is read from it: no field is named as a property
  that every object inherits.
\<close>

type_synonym TlvFields = "(string \<times> FieldType) list"

text \<open>
  The constructor (lines 95-108): it refuses a repeated field outside a TLV list; in
  \<^verbatim>\<open>fieldById\<close> a later field replaces an earlier one with the same id.
\<close>

definition newObjectSchema :: "TlvFields \<Rightarrow> TlvType \<Rightarrow> error + TlvFields \<times> TlvType" where
  "newObjectSchema fieldDefinitions type0 =
     (if list_ex (\<lambda>(name0, field). repeated field \<and> type0 \<noteq> TlvList) fieldDefinitions
      then Inl (SchemaError ''Repeated fields are only allowed in TLV List.'')
      else Inr (fieldDefinitions, type0))"

definition fieldById :: "TlvFields \<Rightarrow> nat \<Rightarrow> (string \<times> FieldType) option" where
  "fieldById fieldDefinitions i = find (\<lambda>(name0, field). fieldId field = i) (rev fieldDefinitions)"

section \<open>ObjectSchema.encodeTlvInternal\<close>

fun concatE :: "(error + 'a list) list \<Rightarrow> error + 'a list" where
  "concatE [] = Inr []"
| "concatE (x # xs) =
     (case x of Inl e \<Rightarrow> Inl e
      | Inr ys \<Rightarrow> (case concatE xs of Inl e \<Rightarrow> Inl e | Inr zs \<Rightarrow> Inr (ys @ zs)))"

definition contextTag :: "nat \<Rightarrow> TlvTag option" where
  "contextTag i = Some \<lparr> tagProfile = None, tagId = Some i \<rparr>"

text \<open>
  One round of the loop of \<^verbatim>\<open>encodeTlvInternal\<close> (lines 117-140). \<^verbatim>\<open>Globals.FabricIndex.id\<close>
  comes from \<^verbatim>\<open>model/index.js\<close>, which is not among the sources; it is the parameter
  \<open>fabricIndexId\<close>.
\<close>

definition encodeField ::
  "nat \<Rightarrow> bool \<Rightarrow> (string \<times> tlvValue) list \<Rightarrow> string \<times> FieldType \<Rightarrow> error + TlvElement list" where
  "encodeField fabricIndexId forWriteInteraction value0 definition0 =
     (case definition0 of (name0, field) \<Rightarrow>
        (case map_of value0 name0 of
           None \<Rightarrow>
             if \<not> optional field then
               (if forWriteInteraction \<and> fieldId field = fabricIndexId then Inr []
                else Inl (ValidationError (''Missing mandatory field '' @ name0) (Some name0)))
             else Inr []
         | Some fieldValue \<Rightarrow>
             if repeated field then
               (case fieldValue of
                  VArray elements \<Rightarrow>
                    concatE (map (\<lambda>element. encodeTlvInternal (schema field) element
                                     (contextTag (fieldId field)) forWriteInteraction) elements)
                | VNum _ \<Rightarrow> Inl (ValidationError (''Repeated field '' @ name0 @ '' should be an array.'') (Some name0))
                | VStr _ \<Rightarrow> Inl (ValidationError (''Repeated field '' @ name0 @ '' should be an array.'') (Some name0))
                | VBool _ \<Rightarrow> Inl (ValidationError (''Repeated field '' @ name0 @ '' should be an array.'') (Some name0))
                | VNull \<Rightarrow> Inl (ValidationError (''Repeated field '' @ name0 @ '' should be an array.'') (Some name0))
                | VObject _ \<Rightarrow> Inl (ValidationError (''Repeated field '' @ name0 @ '' should be an array.'') (Some name0)))
             else encodeTlvInternal (schema field) fieldValue (contextTag (fieldId field))
                    forWriteInteraction))"

text \<open>\<^verbatim>\<open>encodeTlvInternal\<close> (lines 110-142).\<close>

definition ObjectSchema_encodeTlvInternal ::
  "nat \<Rightarrow> TlvFields \<Rightarrow> TlvType \<Rightarrow> (string \<times> tlvValue) list \<Rightarrow> TlvTag option \<Rightarrow> bool
   \<Rightarrow> error + TlvElement list" where
  "ObjectSchema_encodeTlvInternal fabricIndexId fieldDefinitions type0 value0 tag0 forWriteInteraction =
     (case concatE (map (encodeField fabricIndexId forWriteInteraction value0) fieldDefinitions) of
        Inl e \<Rightarrow> Inl e
      | Inr elements \<Rightarrow>
          Inr (\<lparr> tag = tag0, typeLength = \<lparr> tlvType = type0, tlvLength = None \<rparr>,
                 elementValue = None \<rparr>
               # elements
               @ [\<lparr> tag = None, typeLength = \<lparr> tlvType = TlvEndOfContainer, tlvLength = None \<rparr>,
                    elementValue = None \<rparr>]))"

section \<open>ObjectSchema.decodeTlvInternalValue\<close>

text \<open>Storing a decoded field in \<^verbatim>\<open>result\<close> (lines 162-170).\<close>

definition storeDecoded ::
  "string \<Rightarrow> FieldType \<Rightarrow> tlvValue \<Rightarrow> (string \<times> tlvValue) list \<Rightarrow> error + (string \<times> tlvValue) list" where
  "storeDecoded name0 field decoded result =
     (if repeated field then
        (case map_of result name0 of
           None \<Rightarrow> Inr (AList.update name0 (VArray [decoded]) result)
         | Some (VArray elements) \<Rightarrow> Inr (AList.update name0 (VArray (elements @ [decoded])) result)
         | Some (VNum _) \<Rightarrow> Inl TypeError
         | Some (VStr _) \<Rightarrow> Inl TypeError
         | Some (VBool _) \<Rightarrow> Inl TypeError
         | Some VNull \<Rightarrow> Inl TypeError
         | Some (VObject _) \<Rightarrow> Inl TypeError)
      else Inr (AList.update name0 decoded result))"

text \<open>
  The \<^verbatim>\<open>while (true)\<close> loop of \<^verbatim>\<open>decodeTlvInternalValue\<close> (lines 148-171) on the stream that
  is left: the result and the stream after the \<^verbatim>\<open>EndOfContainer\<close> element. Reading past the end
  of the stream is an error of the reader. \<open>tlvAny\<close> is the schema \<^verbatim>\<open>TlvAny\<close>.
\<close>

function decodeFields ::
  "TlvFields \<Rightarrow> TlvSchema \<Rightarrow> (string \<times> tlvValue) list \<Rightarrow> TlvElement list
   \<Rightarrow> error + (string \<times> tlvValue) list \<times> TlvElement list" where
  "decodeFields fieldDefinitions tlvAny result [] = Inl (UnexpectedDataError ''Unexpected end of data.'')"
| "decodeFields fieldDefinitions tlvAny result (element # reader) =
     (if tlvType (typeLength element) = TlvEndOfContainer then Inr (result, reader)
      else if (case tag element of Some t \<Rightarrow> tagProfile t \<noteq> None | None \<Rightarrow> False) then
        Inl (UnexpectedDataError ''Structure element tags should be context-specific.'')
      else
        (case (case tag element of Some t \<Rightarrow> tagId t | None \<Rightarrow> None) of
           None \<Rightarrow> Inl (UnexpectedDataError ''Structure element tags should have an id.'')
         | Some i \<Rightarrow>
             (case fieldById fieldDefinitions i of
                None \<Rightarrow>
                  (case decodeTlvInternalValue tlvAny element reader of
                     Inl e \<Rightarrow> Inl e
                   | Inr skipped \<Rightarrow>
                       decodeFields fieldDefinitions tlvAny result (drop (snd skipped) reader))
              | Some definition0 \<Rightarrow>
                  (case decodeTlvInternalValue (schema (snd definition0)) element reader of
                     Inl e \<Rightarrow> Inl e
                   | Inr decoded \<Rightarrow>
                       (case storeDecoded (fst definition0) (snd definition0) (fst decoded) result of
                          Inl e \<Rightarrow> Inl e
                        | Inr result1 \<Rightarrow>
                            decodeFields fieldDefinitions tlvAny result1
                              (drop (snd decoded) reader))))))"
  by pat_completeness auto
termination
  by (relation "measure (\<lambda>(fieldDefinitions, tlvAny, result, reader). length reader)") auto

text \<open>The loop that populates missing mandatory fields with their fallback (lines 173-185).\<close>

definition populateFallback :: "string \<times> FieldType \<Rightarrow> (string \<times> tlvValue) list \<Rightarrow> (string \<times> tlvValue) list" where
  "populateFallback definition0 result =
     (case definition0 of (name0, field) \<Rightarrow>
        if optional field then result
        else if map_of result name0 \<noteq> None then result
        else (case fallback field of
                Some v \<Rightarrow> AList.update name0 (if repeated field then VArray [v] else v) result
              | None \<Rightarrow> result))"

definition populateFallbacks :: "TlvFields \<Rightarrow> (string \<times> tlvValue) list \<Rightarrow> (string \<times> tlvValue) list" where
  "populateFallbacks fieldDefinitions result = fold populateFallback fieldDefinitions result"

text \<open>
  \<^verbatim>\<open>decodeTlvInternalValue\<close> (lines 144-187) on the element just read and the stream after it:
  the object decoded and the number of elements read. The message of the first error names
  the two types by their numbers in \<^verbatim>\<open>TlvCodec.js\<close>; it is cut short here.
\<close>

definition ObjectSchema_decodeTlvInternalValue ::
  "TlvFields \<Rightarrow> TlvType \<Rightarrow> TlvSchema \<Rightarrow> TlvElement \<Rightarrow> TlvElement list
   \<Rightarrow> error + (string \<times> tlvValue) list \<times> nat" where
  "ObjectSchema_decodeTlvInternalValue fieldDefinitions type0 tlvAny element reader =
     (if tlvType (typeLength element) \<noteq> type0 then Inl (UnexpectedDataError ''Unexpected type.'')
      else
        (case decodeFields fieldDefinitions tlvAny [] reader of
           Inl e \<Rightarrow> Inl e
         | Inr decoded \<Rightarrow>
             Inr (populateFallbacks fieldDefinitions (fst decoded),
                  length reader - length (snd decoded))))"

section \<open>ObjectSchema.validate\<close>

text \<open>
  The handler that \<^verbatim>\<open>validate\<close> passes to \<^verbatim>\<open>tryCatch\<close> (lines 215-232): a \<^verbatim>\<open>ValidationError\<close> of a
  field's schema gets the field's name in front of its field name, any other error passes.
\<close>

definition prefixFieldName :: "string \<Rightarrow> error option \<Rightarrow> error option" where
  "prefixFieldName name0 err =
     (case err of
        Some (ValidationError message fieldName) \<Rightarrow>
          Some (ValidationError message
                  (Some (name0 @ (case fieldName of Some f \<Rightarrow> ''.'' @ f | None \<Rightarrow> []))))
      | Some (ImplementationError m) \<Rightarrow> Some (ImplementationError m)
      | Some (UnexpectedDataError m) \<Rightarrow> Some (UnexpectedDataError m)
      | Some TypeError \<Rightarrow> Some TypeError
      | Some (SchemaError m) \<Rightarrow> Some (SchemaError m)
      | None \<Rightarrow> None)"

fun firstError :: "error option list \<Rightarrow> error option" where
  "firstError [] = None"
| "firstError (x # xs) = (case x of Some e \<Rightarrow> Some e | None \<Rightarrow> firstError xs)"

definition notAnArray :: "string \<Rightarrow> error" where
  "notAnArray name0 = ValidationError (''Repeated field '' @ name0 @ '' should be an array.'') (Some name0)"

text \<open>One round of the loop of \<^verbatim>\<open>validate\<close> (lines 190-234).\<close>

definition validateField :: "(string \<times> tlvValue) list \<Rightarrow> string \<times> FieldType \<Rightarrow> error option" where
  "validateField value0 definition0 =
     (case definition0 of (name0, field) \<Rightarrow>
        (case map_of value0 name0 of
           None \<Rightarrow>
             if optional field then None
             else Some (ValidationError (''Missing mandatory field '' @ name0) (Some name0))
         | Some data \<Rightarrow>
             if repeated field then
               (let minLength0 = (case minLength field of Some n \<Rightarrow> n | None \<Rightarrow> 2);
                    maxLength0 = (case maxLength field of Some n \<Rightarrow> n | None \<Rightarrow> 65535)
                in case data of
                     VArray elements \<Rightarrow>
                       if length elements > maxLength0 then
                         Some (ValidationError
                                 (''Repeated field list for '' @ name0 @ '' is too long: ''
                                  @ natToString (length elements) @ '', max ''
                                  @ natToString maxLength0 @ ''.'') (Some name0))
                       else if length elements < minLength0 then
                         Some (ValidationError
                                 (''Repeated field list for '' @ name0 @ '' is too short: ''
                                  @ natToString (length elements) @ '', min ''
                                  @ natToString minLength0 @ ''.'') (Some name0))
                       else firstError (map (\<lambda>element. prefixFieldName name0
                                                (validate (schema field) element)) elements)
                   | VNum _ \<Rightarrow> Some (notAnArray name0)
                   | VStr _ \<Rightarrow> Some (notAnArray name0)
                   | VBool _ \<Rightarrow> Some (notAnArray name0)
                   | VNull \<Rightarrow> Some (notAnArray name0)
                   | VObject _ \<Rightarrow> Some (notAnArray name0))
             else prefixFieldName name0 (validate (schema field) data)))"

text \<open>\<^verbatim>\<open>validate\<close> (lines 189-235): the error thrown, if any.\<close>

definition ObjectSchema_validate :: "TlvFields \<Rightarrow> (string \<times> tlvValue) list \<Rightarrow> error option" where
  "ObjectSchema_validate fieldDefinitions value0 =
     firstError (map (validateField value0) fieldDefinitions)"

text \<open>The fields of a schema that a value lacks although they are mandatory.\<close>

definition missingMandatory :: "TlvFields \<Rightarrow> (string \<times> tlvValue) list \<Rightarrow> (string \<times> FieldType) list" where
  "missingMandatory fieldDefinitions value0 =
     filter (\<lambda>(name0, field). \<not> optional field \<and> map_of value0 name0 = None) fieldDefinitions"

definition isValidationError :: "error \<Rightarrow> bool" where
  "isValidationError e =
     (case e of
        ValidationError _ _ \<Rightarrow> True
      | ImplementationError _ \<Rightarrow> False
      | UnexpectedDataError _ \<Rightarrow> False
      | TypeError \<Rightarrow> False
      | SchemaError _ \<Rightarrow> False)"

section \<open>Concrete TLV inputs\<close>

text \<open>
  A schema of numbers in the manner of \<^verbatim>\<open>TlvUInt\<close>, a \<^verbatim>\<open>TlvAny\<close> that reads a container up to the
  element that closes it, an object schema with a mandatory field, a mandatory field with a
  fallback and an optional field, and a stream with two unknown fields, the second a
  structure with a member of id 0.
\<close>

definition exNumberElement :: "TlvTag option \<Rightarrow> int \<Rightarrow> TlvElement" where
  "exNumberElement t n =
     \<lparr> tag = t, typeLength = \<lparr> tlvType = TlvPrimitive 4, tlvLength = Some 1 \<rparr>,
       elementValue = Some (VNum n) \<rparr>"

definition exNotANumber :: error where
  "exNotANumber = ValidationError ''Expected number.'' None"

definition exNumberSchema :: TlvSchema where
  "exNumberSchema =
     \<lparr> encodeTlvInternal = (\<lambda>v t forWriteInteraction.
         case v of VNum n \<Rightarrow> Inr [exNumberElement t n]
         | VStr _ \<Rightarrow> Inl TypeError | VBool _ \<Rightarrow> Inl TypeError | VNull \<Rightarrow> Inl TypeError
         | VArray _ \<Rightarrow> Inl TypeError | VObject _ \<Rightarrow> Inl TypeError),
       decodeTlvInternalValue = (\<lambda>element reader.
         case elementValue element of
           Some v \<Rightarrow> Inr (v, 0)
         | None \<Rightarrow> Inl (UnexpectedDataError ''Unexpected type.'')),
       validate = (\<lambda>v.
         case v of VNum n \<Rightarrow> None
         | VStr _ \<Rightarrow> Some exNotANumber | VBool _ \<Rightarrow> Some exNotANumber | VNull \<Rightarrow> Some exNotANumber
         | VArray _ \<Rightarrow> Some exNotANumber | VObject _ \<Rightarrow> Some exNotANumber) \<rparr>"

fun exContainerLength :: "nat \<Rightarrow> TlvElement list \<Rightarrow> nat" where
  "exContainerLength depth [] = 0"
| "exContainerLength depth (element # reader) =
     (if tlvType (typeLength element) = TlvEndOfContainer then
        (case depth of 0 \<Rightarrow> 1 | Suc d \<Rightarrow> 1 + exContainerLength d reader)
      else if tlvType (typeLength element) \<in> {TlvStructure, TlvList, TlvArray} then
        1 + exContainerLength (Suc depth) reader
      else 1 + exContainerLength depth reader)"

definition exTlvAny :: TlvSchema where
  "exTlvAny =
     \<lparr> encodeTlvInternal = (\<lambda>v t forWriteInteraction. Inr []),
       decodeTlvInternalValue = (\<lambda>element reader.
         if tlvType (typeLength element) \<in> {TlvStructure, TlvList, TlvArray}
         then Inr (VNull, exContainerLength 0 reader)
         else Inr (VNull, 0)),
       validate = (\<lambda>v. None) \<rparr>"

definition exField :: "nat \<Rightarrow> bool \<Rightarrow> tlvValue option \<Rightarrow> FieldType" where
  "exField i isOptional fallback0 =
     \<lparr> fieldId = i, schema = exNumberSchema, optional = isOptional, repeated = False,
       fallback = fallback0, minLength = None, maxLength = None \<rparr>"

definition exFields :: TlvFields where
  "exFields =
     [(''a'', exField 0 False None),
      (''b'', exField 1 False (Some (VNum 42))),
      (''c'', exField 2 True None)]"

definition exContainer :: "TlvTag option \<Rightarrow> TlvType \<Rightarrow> TlvElement" where
  "exContainer t type0 =
     \<lparr> tag = t, typeLength = \<lparr> tlvType = type0, tlvLength = None \<rparr>, elementValue = None \<rparr>"

definition exStream :: "TlvElement list" where
  "exStream =
     [exNumberElement (contextTag 0) 5,
      exNumberElement (contextTag 7) 6,
      exContainer (contextTag 9) TlvStructure,
      exNumberElement (contextTag 0) 99,
      exContainer None TlvEndOfContainer,
      exContainer None TlvEndOfContainer]"

text \<open>A fabric scoped structure: its only field is the fabric index.\<close>

definition exFabricIndexId :: nat where
  "exFabricIndexId = 254"

definition exFabricScoped :: TlvFields where
  "exFabricScoped = [(''fabricIndex'', exField exFabricIndexId False None)]"

section \<open>Properties of the address sort\<close>

lemma fd_not_link_local: "startsWith s ''fd'' \<Longrightarrow> \<not> startsWith s ''fe80:''"
  by (auto simp: startsWith_def prefix_def)

lemma compareServerEntries_priority:
  "(compareServerEntries isIPv6 a b \<le> 0) = (addressPriority isIPv6 a \<le> addressPriority isIPv6 b)"
  using fd_not_link_local [of "ip a"] fd_not_link_local [of "ip b"]
  by (simp add: compareServerEntries_def addressPriority_def Let_def)

lemma insertCmp_insort_key:
  "insertCmp (compareServerEntries isIPv6) x ys = insort_key (addressPriority isIPv6) x ys"
  by (induction ys) (simp_all add: compareServerEntries_priority)

lemma sortServerEntries_sort_key:
  "sortServerEntries isIPv6 entries = sort_key (addressPriority isIPv6) entries"
  by (induction entries)
     (simp_all add: sortServerEntries_def arraySort_def insertCmp_insort_key)

lemma stablySortedBy_sort_key: "stablySortedBy priority entries (sort_key priority entries)"
  by (simp add: stablySortedBy_def sort_key_stable)

lemma stablySortedBy_map:
  assumes "\<And>e. mapped (f e) = priority e" and "stablySortedBy priority original result"
  shows "stablySortedBy mapped (map f original) (map f result)"
proof -
  have m: "map mapped (map f result) = map priority result"
    by (simp add: assms(1))
  have "filter (\<lambda>e. mapped e = k) (map f xs) = map f (filter (\<lambda>e. priority e = k) xs)"
    for k xs
    by (simp add: filter_map comp_def assms(1))
  with assms(2) show ?thesis
    unfolding stablySortedBy_def m by simp
qed

lemma addressPriority_toServerAddressIp:
  "addressPriority isIPv6 (toServerAddressIp e) = addressPriority isIPv6 e"
  by (simp add: addressPriority_def toServerAddressIp_def)

lemma sorted_addresses:
  "stablySortedBy (addressPriority isIPv6) (map (\<lambda>entry. toServerAddressIp (snd entry)) addresses)
     (map toServerAddressIp (sortServerEntries isIPv6 (map snd addresses)))"
proof -
  have "stablySortedBy (addressPriority isIPv6) (map toServerAddressIp (map snd addresses))
     (map toServerAddressIp (sort_key (addressPriority isIPv6) (map snd addresses)))"
    using addressPriority_toServerAddressIp [of isIPv6]
      stablySortedBy_sort_key [of "addressPriority isIPv6" "map snd addresses"]
    by (rule stablySortedBy_map)
  then show ?thesis by (simp add: comp_def sortServerEntries_sort_key)
qed

lemma getOperationalDeviceRecords_sorted:
  assumes "getOperationalDeviceRecords isIPv6 deviceMatterQname s = Inr (Some device)"
  shows "\<exists>cached. map_of (operationalDeviceRecords s) deviceMatterQname = Some cached
           \<and> cachedAddresses cached \<noteq> []
           \<and> stablySortedBy (addressPriority isIPv6) (cachedAddresses cached)
                (returnedAddresses device)"
proof -
  from assms obtain cached addresses where
    c: "map_of (operationalDeviceRecords s) deviceMatterQname = Some cached"
    and a: "getAddresses cached = Inr addresses" "addresses \<noteq> []"
    and d: "device = AList.update ''addresses''
              (AddressArray (map toServerAddressIp (sortServerEntries isIPv6 (map snd addresses))))
              cached"
    unfolding getOperationalDeviceRecords_def
    by (auto split: option.splits sum.splits if_splits)
  have "returnedAddresses device
        = map toServerAddressIp (sortServerEntries isIPv6 (map snd addresses))"
    unfolding d returnedAddresses_def by (simp add: update_conv')
  with a c sorted_addresses [of isIPv6 addresses] show ?thesis
    by (simp add: cachedAddresses_def)
qed

lemma mapE_list_all2:
  "mapE f xs = Inr ys \<Longrightarrow> (\<And>x y. x \<in> set xs \<Longrightarrow> f x = Inr y \<Longrightarrow> R x y) \<Longrightarrow> list_all2 R xs ys"
proof (induction xs arbitrary: ys)
  case Nil
  then show ?case by simp
next
  case (Cons x xs)
  from Cons.prems(1) obtain y ys1 where
    y: "f x = Inr y" and ys1: "mapE f xs = Inr ys1" and ys: "ys = y # ys1"
    by (auto split: sum.splits)
  from Cons.prems(2) [OF _ y] have "R x y" by simp
  moreover from Cons.IH [OF ys1] Cons.prems(2) have "list_all2 R xs ys1" by simp
  ultimately show ?case unfolding ys by simp
qed

lemma getCommissionableDeviceRecords_sorted:
  assumes "getCommissionableDeviceRecords isIPv6 identifier s = Inr devices"
  shows "list_all2 (\<lambda>cached device.
             stablySortedBy (addressPriority isIPv6) (cachedAddresses cached)
               (returnedAddresses device))
           (filter (matchesIdentifier identifier) (map snd (commissionableDeviceRecords s)))
           devices"
proof (rule mapE_list_all2 [OF assms [unfolded getCommissionableDeviceRecords_def Let_def]])
  fix cached device
  assume "(case getAddresses cached of
             Inl e \<Rightarrow> Inl e
           | Inr addresses \<Rightarrow>
               Inr (AList.delete ''expires''
                     (AList.update ''addresses''
                        (AddressArray (map toServerAddressIp
                           (sortServerEntries isIPv6 (map snd addresses)))) cached)))
          = Inr device"
  then obtain addresses where
    a: "getAddresses cached = Inr addresses"
    and d: "device = AList.delete ''expires''
                     (AList.update ''addresses''
                        (AddressArray (map toServerAddressIp
                           (sortServerEntries isIPv6 (map snd addresses)))) cached)"
    by (auto split: sum.splits)
  have "returnedAddresses device
        = map toServerAddressIp (sortServerEntries isIPv6 (map snd addresses))"
    unfolding d returnedAddresses_def by (simp add: update_conv' delete_conv')
  with a sorted_addresses [of isIPv6 addresses]
  show "stablySortedBy (addressPriority isIPv6) (cachedAddresses cached) (returnedAddresses device)"
    by (simp add: cachedAddresses_def)
qed

lemma list_all2_setD:
  "list_all2 R xs ys \<Longrightarrow> y \<in> set ys \<Longrightarrow> \<exists>x \<in> set xs. R x y"
  by (induction rule: list_all2_induct) auto

lemma newDevices_called:
  "newDevices discoveredDevices devices = (called, discovered) \<Longrightarrow> set called \<subseteq> set devices"
proof (induction devices arbitrary: discoveredDevices called discovered)
  case Nil
  then show ?case by simp
next
  case (Cons device devices)
  show ?case
  proof (cases "map_of device ''deviceIdentifier'' \<in> set discoveredDevices")
    case True
    with Cons.prems have "newDevices discoveredDevices devices = (called, discovered)" by simp
    from Cons.IH [OF this] show ?thesis by auto
  next
    case False
    with Cons.prems obtain called1 where
      n: "newDevices (discoveredDevices @ [map_of device ''deviceIdentifier'']) devices
          = (called1, discovered)"
      and c: "called = device # called1"
      by (auto split: prod.splits)
    from Cons.IH [OF n] show ?thesis unfolding c by auto
  qed
qed

text \<open>
  Claim C9. The addresses of every device that the scanner returns to a caller, from
  \<^verbatim>\<open>getOperationalDeviceRecords\<close> and \<^verbatim>\<open>getCommissionableDeviceRecords\<close> and so from the
  discovery methods that return their results, are a stable permutation of the addresses
  cached for the device, ordered by the priority IPv6-fd, IPv6 link-local, other IPv6, IPv4:
  a permutation with ascending priorities in which the addresses of each priority keep their
  order in the cache. So is the list that \<^verbatim>\<open>sortServerEntries\<close> returns of the list it is given.
\<close>

theorem returned_addresses_stable_permutation:
  "stablySortedBy (addressPriority isIPv6) entries (sortServerEntries isIPv6 entries)
   \<and> (getOperationalDeviceRecords isIPv6 deviceMatterQname s = Inr (Some device)
        \<longrightarrow> (\<exists>cached. map_of (operationalDeviceRecords s) deviceMatterQname = Some cached
                \<and> stablySortedBy (addressPriority isIPv6) (cachedAddresses cached)
                     (returnedAddresses device)))
   \<and> (getCommissionableDeviceRecords isIPv6 identifiers s = Inr devices
        \<longrightarrow> list_all2 (\<lambda>cached device.
                stablySortedBy (addressPriority isIPv6) (cachedAddresses cached)
                  (returnedAddresses device))
              (filter (matchesIdentifier identifiers) (map snd (commissionableDeviceRecords s)))
              devices)
   \<and> (findOperationalDevice isIPv6 deviceMatterQname timeoutSeconds ignoreExistingRecords s
         = Inr (Returned (Some device))
        \<longrightarrow> (\<exists>cached. map_of (operationalDeviceRecords s) deviceMatterQname = Some cached
                \<and> stablySortedBy (addressPriority isIPv6) (cachedAddresses cached)
                     (returnedAddresses device)))
   \<and> (findOperationalDeviceResumed isIPv6 deviceMatterQname s = Inr (Some device, s1)
        \<longrightarrow> (\<exists>cached. map_of (operationalDeviceRecords s) deviceMatterQname = Some cached
                \<and> stablySortedBy (addressPriority isIPv6) (cachedAddresses cached)
                     (returnedAddresses device)))
   \<and> (findCommissionableDevices isIPv6 identifiers timeout0 ignoreExistingRecords s
         = Inr (Returned devices)
        \<longrightarrow> (\<forall>device \<in> set devices.
               \<exists>cached \<in> set (filter (matchesIdentifier identifiers)
                                 (map snd (commissionableDeviceRecords s))).
                 stablySortedBy (addressPriority isIPv6) (cachedAddresses cached)
                   (returnedAddresses device)))
   \<and> (findCommissionableDevicesResumed isIPv6 identifiers s = Inr (devices, s1)
        \<longrightarrow> list_all2 (\<lambda>cached device.
                stablySortedBy (addressPriority isIPv6) (cachedAddresses cached)
                  (returnedAddresses device))
              (filter (matchesIdentifier identifiers) (map snd (commissionableDeviceRecords s)))
              devices)
   \<and> (continuousRound isIPv6 identifiers queryId discoveryEndTime now discoveredDevices s
         = Inr (called, discovered, outcome)
        \<longrightarrow> (\<forall>device \<in> set called.
               \<exists>cached \<in> set (filter (matchesIdentifier identifiers)
                                 (map snd (commissionableDeviceRecords s))).
                 stablySortedBy (addressPriority isIPv6) (cachedAddresses cached)
                   (returnedAddresses device))
            \<and> (outcome = Returned devices
                \<longrightarrow> list_all2 (\<lambda>cached device.
                        stablySortedBy (addressPriority isIPv6) (cachedAddresses cached)
                          (returnedAddresses device))
                      (filter (matchesIdentifier identifiers)
                         (map snd (commissionableDeviceRecords s)))
                      devices))"
proof (intro conjI impI)
  show "stablySortedBy (addressPriority isIPv6) entries (sortServerEntries isIPv6 entries)"
    unfolding sortServerEntries_sort_key by (rule stablySortedBy_sort_key)
next
  assume "getOperationalDeviceRecords isIPv6 deviceMatterQname s = Inr (Some device)"
  from getOperationalDeviceRecords_sorted [OF this]
  show "\<exists>cached. map_of (operationalDeviceRecords s) deviceMatterQname = Some cached
                \<and> stablySortedBy (addressPriority isIPv6) (cachedAddresses cached)
                     (returnedAddresses device)"
    by blast
next
  assume "getCommissionableDeviceRecords isIPv6 identifiers s = Inr devices"
  then show "list_all2 (\<lambda>cached device.
                stablySortedBy (addressPriority isIPv6) (cachedAddresses cached)
                  (returnedAddresses device))
              (filter (matchesIdentifier identifiers) (map snd (commissionableDeviceRecords s)))
              devices"
    by (rule getCommissionableDeviceRecords_sorted)
next
  assume "findOperationalDevice isIPv6 deviceMatterQname timeoutSeconds ignoreExistingRecords s
         = Inr (Returned (Some device))"
  then have "getOperationalDeviceRecords isIPv6 deviceMatterQname s = Inr (Some device)"
    unfolding findOperationalDevice_def
    by (auto split: if_splits sum.splits option.splits)
  from getOperationalDeviceRecords_sorted [OF this]
  show "\<exists>cached. map_of (operationalDeviceRecords s) deviceMatterQname = Some cached
                \<and> stablySortedBy (addressPriority isIPv6) (cachedAddresses cached)
                     (returnedAddresses device)"
    by blast
next
  assume "findOperationalDeviceResumed isIPv6 deviceMatterQname s = Inr (Some device, s1)"
  then have "getOperationalDeviceRecords isIPv6 deviceMatterQname s = Inr (Some device)"
    unfolding findOperationalDeviceResumed_def by (auto split: sum.splits)
  from getOperationalDeviceRecords_sorted [OF this]
  show "\<exists>cached. map_of (operationalDeviceRecords s) deviceMatterQname = Some cached
                \<and> stablySortedBy (addressPriority isIPv6) (cachedAddresses cached)
                     (returnedAddresses device)"
    by blast
next
  assume "findCommissionableDevices isIPv6 identifiers timeout0 ignoreExistingRecords s
         = Inr (Returned devices)"
  then obtain found where
    f: "getCommissionableDeviceRecords isIPv6 identifiers s = Inr found"
    and d: "devices = filter hasAddresses found"
    unfolding findCommissionableDevices_def
    by (auto simp: Let_def split: if_splits sum.splits)
  show "\<forall>device \<in> set devices.
               \<exists>cached \<in> set (filter (matchesIdentifier identifiers)
                                 (map snd (commissionableDeviceRecords s))).
                 stablySortedBy (addressPriority isIPv6) (cachedAddresses cached)
                   (returnedAddresses device)"
  proof
    fix device
    assume "device \<in> set devices"
    then have "device \<in> set found" unfolding d by simp
    with getCommissionableDeviceRecords_sorted [OF f]
    show "\<exists>cached \<in> set (filter (matchesIdentifier identifiers)
                                 (map snd (commissionableDeviceRecords s))).
                 stablySortedBy (addressPriority isIPv6) (cachedAddresses cached)
                   (returnedAddresses device)"
      by (rule list_all2_setD)
  qed
next
  assume "findCommissionableDevicesResumed isIPv6 identifiers s = Inr (devices, s1)"
  then have "getCommissionableDeviceRecords isIPv6 identifiers s = Inr devices"
    unfolding findCommissionableDevicesResumed_def by (auto split: sum.splits)
  then show "list_all2 (\<lambda>cached device.
                stablySortedBy (addressPriority isIPv6) (cachedAddresses cached)
                  (returnedAddresses device))
              (filter (matchesIdentifier identifiers) (map snd (commissionableDeviceRecords s)))
              devices"
    by (rule getCommissionableDeviceRecords_sorted)
next
  assume r: "continuousRound isIPv6 identifiers queryId discoveryEndTime now discoveredDevices s
         = Inr (called, discovered, outcome)"
  then obtain found where
    f: "getCommissionableDeviceRecords isIPv6 identifiers s = Inr found"
    and n: "newDevices discoveredDevices found = (called, discovered)"
    unfolding continuousRound_def
    by (auto simp: Let_def split: if_splits sum.splits prod.splits)
  show "\<forall>device \<in> set called.
               \<exists>cached \<in> set (filter (matchesIdentifier identifiers)
                                 (map snd (commissionableDeviceRecords s))).
                 stablySortedBy (addressPriority isIPv6) (cachedAddresses cached)
                   (returnedAddresses device)"
  proof
    fix device
    assume "device \<in> set called"
    with newDevices_called [OF n] have "device \<in> set found" by blast
    with getCommissionableDeviceRecords_sorted [OF f]
    show "\<exists>cached \<in> set (filter (matchesIdentifier identifiers)
                                 (map snd (commissionableDeviceRecords s))).
                 stablySortedBy (addressPriority isIPv6) (cachedAddresses cached)
                   (returnedAddresses device)"
      by (rule list_all2_setD)
  qed
next
  assume r: "continuousRound isIPv6 identifiers queryId discoveryEndTime now discoveredDevices s
         = Inr (called, discovered, outcome)"
    and o: "outcome = Returned devices"
  then have "getCommissionableDeviceRecords isIPv6 identifiers s = Inr devices"
    unfolding continuousRound_def
    by (auto simp: Let_def split: if_splits sum.splits prod.splits)
  then show "list_all2 (\<lambda>cached device.
                        stablySortedBy (addressPriority isIPv6) (cachedAddresses cached)
                          (returnedAddresses device))
                      (filter (matchesIdentifier identifiers)
                         (map snd (commissionableDeviceRecords s)))
                      devices"
    by (rule getCommissionableDeviceRecords_sorted)
qed

lemma ex_getOperationalDeviceRecords:
  "getOperationalDeviceRecords exIsIPv6 ''A1B2-0001._matter._tcp.local'' exScannerAddresses
     = Inr (Some exReturnedDevice)"
  by code_simp

lemma ex_getCommissionableDeviceRecords:
  "getCommissionableDeviceRecords exIsIPv6 IdNone exScannerAddresses
     = Inr [exReturnedCommissionable]"
  by code_simp

lemma ex_findOperationalDevice:
  "findOperationalDevice exIsIPv6 ''A1B2-0001._matter._tcp.local'' None False exScannerAddresses
     = Inr (Returned (Some exReturnedDevice))"
  by (simp add: findOperationalDevice_def ex_getOperationalDeviceRecords)
     (simp add: exScannerAddresses_def newMdnsScanner_def)

lemma ex_findCommissionableDevices:
  "findCommissionableDevices exIsIPv6 IdNone 5 False exScannerAddresses
     = Inr (Returned [exReturnedCommissionable])"
  by (simp add: findCommissionableDevices_def ex_getCommissionableDeviceRecords)
     (simp add: hasAddresses_def exReturnedCommissionable_def exAddressCommissionable_def)

lemma ex_cached:
  "map_of (operationalDeviceRecords exScannerAddresses) ''A1B2-0001._matter._tcp.local''
     = Some exAddressDevice"
  "filter (matchesIdentifier IdNone) (map snd (commissionableDeviceRecords exScannerAddresses))
     = [exAddressCommissionable]"
  by (simp_all add: exScannerAddresses_def matchesIdentifier_def exAddressCommissionable_def)

lemma ex_addresses:
  "cachedAddresses exAddressDevice
     = map exReturned [''192.168.1.5'', ''2001:db8::1'', ''fe80::1%eth0'', ''fd00::1'',
         ''10.0.0.7'', ''fd00::2'']"
  "returnedAddresses exReturnedDevice
     = map exReturned [''fd00::1'', ''fd00::2'', ''fe80::1%eth0'', ''2001:db8::1'',
         ''192.168.1.5'', ''10.0.0.7'']"
  "cachedAddresses exAddressCommissionable
     = map exReturned [''10.0.0.7'', ''fe80::1%eth0'', ''fd00::2'']"
  "returnedAddresses exReturnedCommissionable
     = map exReturned [''fd00::2'', ''fe80::1%eth0'', ''10.0.0.7'']"
  by (simp_all add: cachedAddresses_def returnedAddresses_def getAddresses_def exAddressDevice_def
      exReturnedDevice_def exAddressCommissionable_def exReturnedCommissionable_def exAddress_def
      exReturned_def toServerAddressIp_def)

theorem returned_addresses_stable_permutation_witness:
  "getOperationalDeviceRecords exIsIPv6 ''A1B2-0001._matter._tcp.local'' exScannerAddresses
     = Inr (Some exReturnedDevice)
   \<and> findOperationalDevice exIsIPv6 ''A1B2-0001._matter._tcp.local'' None False exScannerAddresses
       = Inr (Returned (Some exReturnedDevice))
   \<and> cachedAddresses exAddressDevice
       = map exReturned [''192.168.1.5'', ''2001:db8::1'', ''fe80::1%eth0'', ''fd00::1'',
           ''10.0.0.7'', ''fd00::2'']
   \<and> returnedAddresses exReturnedDevice
       = map exReturned [''fd00::1'', ''fd00::2'', ''fe80::1%eth0'', ''2001:db8::1'',
           ''192.168.1.5'', ''10.0.0.7'']
   \<and> stablySortedBy (addressPriority exIsIPv6) (cachedAddresses exAddressDevice)
         (returnedAddresses exReturnedDevice)
   \<and> getCommissionableDeviceRecords exIsIPv6 IdNone exScannerAddresses
       = Inr [exReturnedCommissionable]
   \<and> findCommissionableDevices exIsIPv6 IdNone 5 False exScannerAddresses
       = Inr (Returned [exReturnedCommissionable])
   \<and> cachedAddresses exAddressCommissionable
       = map exReturned [''10.0.0.7'', ''fe80::1%eth0'', ''fd00::2'']
   \<and> returnedAddresses exReturnedCommissionable
       = map exReturned [''fd00::2'', ''fe80::1%eth0'', ''10.0.0.7'']
   \<and> stablySortedBy (addressPriority exIsIPv6) (cachedAddresses exAddressCommissionable)
         (returnedAddresses exReturnedCommissionable)"
proof -
  note t = returned_addresses_stable_permutation [of exIsIPv6 "[]"
      "''A1B2-0001._matter._tcp.local''" exScannerAddresses exReturnedDevice IdNone
      "[exReturnedCommissionable]" None False]
  from t ex_getOperationalDeviceRecords
  have "\<exists>cached. map_of (operationalDeviceRecords exScannerAddresses)
                    ''A1B2-0001._matter._tcp.local'' = Some cached
                \<and> stablySortedBy (addressPriority exIsIPv6) (cachedAddresses cached)
                     (returnedAddresses exReturnedDevice)"
    by blast
  then have o: "stablySortedBy (addressPriority exIsIPv6) (cachedAddresses exAddressDevice)
         (returnedAddresses exReturnedDevice)"
    by (simp add: ex_cached)
  from t ex_getCommissionableDeviceRecords
  have "list_all2 (\<lambda>cached device.
                stablySortedBy (addressPriority exIsIPv6) (cachedAddresses cached)
                  (returnedAddresses device))
              (filter (matchesIdentifier IdNone)
                 (map snd (commissionableDeviceRecords exScannerAddresses)))
              [exReturnedCommissionable]"
    by blast
  then have c: "stablySortedBy (addressPriority exIsIPv6) (cachedAddresses exAddressCommissionable)
         (returnedAddresses exReturnedCommissionable)"
    by (simp add: ex_cached)
  from o c ex_getOperationalDeviceRecords ex_findOperationalDevice ex_getCommissionableDeviceRecords
    ex_findCommissionableDevices ex_addresses
  show ?thesis by blast
qed

section \<open>Properties of the send loops\<close>

lemma length_DnsCodec_encode:
  "length (DnsCodec_encode encodeQuery m) =
     12 + sum_list (map (length \<circ> encodeQuery) (queries m)) + sum_list (map length (answers m))
        + sum_list (map length (authorities m)) + sum_list (map length (additionalRecords m))"
  by (simp add: DnsCodec_encode_def u16_def length_concat comp_def)

lemma sendQueriesLoop_types:
  "sendQueriesLoop er E cur sz as = (sent, w, final) \<Longrightarrow> messageType cur = t
   \<Longrightarrow> (\<forall>m \<in> set sent. messageType m = t) \<and> messageType final = t"
proof (induction as arbitrary: cur sz sent w final)
  case Nil
  then show ?case by simp
next
  case (Cons a as)
  show ?case
  proof (cases "sz + length (er a) > MAX_MDNS_MESSAGE_SIZE")
    case True
    obtain sent' w' final' where r: "sendQueriesLoop er E (cur\<lparr>queries := [], answers := [er a]\<rparr>) (E + length (er a)) as = (sent', w', final')"
      by (cases "sendQueriesLoop er E (cur\<lparr>queries := [], answers := [er a]\<rparr>) (E + length (er a)) as") auto
    from Cons.IH [OF r] Cons.prems(2) have "(\<forall>m \<in> set sent'. messageType m = t) \<and> messageType final' = t" by simp
    moreover from Cons.prems(1) True r have "sent = cur # sent'" "final = final'" by (simp_all add: Let_def)
    ultimately show ?thesis using Cons.prems(2) by simp
  next
    case False
    with Cons.prems(1) have r: "sendQueriesLoop er E (cur\<lparr>answers := answers cur @ [er a]\<rparr>) (sz + length (er a)) as = (sent, w, final)"
      by (simp add: Let_def)
    from Cons.IH [OF r] Cons.prems(2) show ?thesis by simp
  qed
qed

lemma sendQueriesLoop_answers:
  "sendQueriesLoop er E cur sz as = (sent, w, final)
   \<Longrightarrow> concat (map answers sent) @ answers final = answers cur @ map er as"
proof (induction as arbitrary: cur sz sent w final)
  case Nil
  then show ?case by simp
next
  case (Cons a as)
  show ?case
  proof (cases "sz + length (er a) > MAX_MDNS_MESSAGE_SIZE")
    case True
    obtain sent' w' final' where r: "sendQueriesLoop er E (cur\<lparr>queries := [], answers := [er a]\<rparr>) (E + length (er a)) as = (sent', w', final')"
      by (cases "sendQueriesLoop er E (cur\<lparr>queries := [], answers := [er a]\<rparr>) (E + length (er a)) as") auto
    from Cons.IH [OF r] have "concat (map answers sent') @ answers final' = [er a] @ map er as" by simp
    moreover from Cons.prems(1) True r have "sent = cur # sent'" "final = final'" by (simp_all add: Let_def)
    ultimately show ?thesis by simp
  next
    case False
    with Cons.prems(1) have r: "sendQueriesLoop er E (cur\<lparr>answers := answers cur @ [er a]\<rparr>) (sz + length (er a)) as = (sent, w, final)"
      by (simp add: Let_def)
    from Cons.IH [OF r] show ?thesis by simp
  qed
qed

lemma sendQueriesLoop_sizes:
  "sendQueriesLoop er E cur sz as = (sent, w, final) \<Longrightarrow> counted eq E cur sz
   \<Longrightarrow> length (DnsCodec_encode eq (cur\<lparr>queries := [], answers := []\<rparr>)) \<le> E
   \<Longrightarrow> (\<forall>m \<in> set (sent @ [final]). 2 \<le> length (answers m) \<longrightarrow> length (DnsCodec_encode eq m) \<le> MAX_MDNS_MESSAGE_SIZE)"
proof (induction as arbitrary: cur sz sent w final)
  case Nil
  then show ?case by (auto simp: counted_def)
next
  case (Cons a as)
  show ?case
  proof (cases "sz + length (er a) > MAX_MDNS_MESSAGE_SIZE")
    case True
    let ?cur' = "cur\<lparr>queries := [], answers := [er a]\<rparr>"
    obtain sent' w' final' where r: "sendQueriesLoop er E ?cur' (E + length (er a)) as = (sent', w', final')"
      by (cases "sendQueriesLoop er E ?cur' (E + length (er a)) as") auto
    have c: "counted eq E ?cur' (E + length (er a))"
      using Cons.prems(3) by (simp add: counted_def length_DnsCodec_encode)
    have b: "length (DnsCodec_encode eq (?cur'\<lparr>queries := [], answers := []\<rparr>)) \<le> E"
      using Cons.prems(3) by simp
    from Cons.IH [OF r c b] have ih: "\<forall>m \<in> set (sent' @ [final']). 2 \<le> length (answers m) \<longrightarrow> length (DnsCodec_encode eq m) \<le> MAX_MDNS_MESSAGE_SIZE" .
    from Cons.prems(1) True r have e: "sent = cur # sent'" "final = final'" by (simp_all add: Let_def)
    have "2 \<le> length (answers cur) \<longrightarrow> length (DnsCodec_encode eq cur) \<le> MAX_MDNS_MESSAGE_SIZE"
      using Cons.prems(2) by (auto simp: counted_def)
    with ih e show ?thesis by simp
  next
    case False
    let ?cur' = "cur\<lparr>answers := answers cur @ [er a]\<rparr>"
    from False Cons.prems(1) have r: "sendQueriesLoop er E ?cur' (sz + length (er a)) as = (sent, w, final)"
      by (simp add: Let_def)
    have c: "counted eq E ?cur' (sz + length (er a))"
      using Cons.prems(2) False by (simp add: counted_def length_DnsCodec_encode)
    have b: "length (DnsCodec_encode eq (?cur'\<lparr>queries := [], answers := []\<rparr>)) \<le> E"
      using Cons.prems(3) by simp
    from Cons.IH [OF r c b] show ?thesis .
  qed
qed


lemma sendQueriesLoop_fits:
  "sendQueriesLoop er E cur sz as = (sent, w, final)
   \<Longrightarrow> sz = E + sum_list (map length (answers cur))
   \<Longrightarrow> length (DnsCodec_encode eq cur) \<le> sz \<Longrightarrow> sz \<le> MAX_MDNS_MESSAGE_SIZE
   \<Longrightarrow> length (DnsCodec_encode eq (cur\<lparr>queries := [], answers := []\<rparr>)) \<le> E
   \<Longrightarrow> \<forall>a \<in> set as. E + length (er a) \<le> MAX_MDNS_MESSAGE_SIZE
   \<Longrightarrow> (\<forall>m \<in> set (sent @ [final]). length (DnsCodec_encode eq m) \<le> MAX_MDNS_MESSAGE_SIZE)"
proof (induction as arbitrary: cur sz sent w final)
  case Nil
  then show ?case by auto
next
  case (Cons a as)
  show ?case
  proof (cases "sz + length (er a) > MAX_MDNS_MESSAGE_SIZE")
    case True
    let ?cur' = "cur\<lparr>queries := [], answers := [er a]\<rparr>"
    obtain sent' w' final' where r: "sendQueriesLoop er E ?cur' (E + length (er a)) as = (sent', w', final')"
      by (cases "sendQueriesLoop er E ?cur' (E + length (er a)) as") auto
    have 1: "E + length (er a) = E + sum_list (map length (answers ?cur'))" by simp
    have 2: "length (DnsCodec_encode eq ?cur') \<le> E + length (er a)"
      using Cons.prems(5) by (simp add: length_DnsCodec_encode)
    have 3: "E + length (er a) \<le> MAX_MDNS_MESSAGE_SIZE" using Cons.prems(6) by simp
    have 4: "length (DnsCodec_encode eq (?cur'\<lparr>queries := [], answers := []\<rparr>)) \<le> E"
      using Cons.prems(5) by simp
    have 5: "\<forall>a \<in> set as. E + length (er a) \<le> MAX_MDNS_MESSAGE_SIZE" using Cons.prems(6) by simp
    note ih = Cons.IH [OF r 1 2 3 4 5]
    from Cons.prems(1) True r have e: "sent = cur # sent'" "final = final'" by (simp_all add: Let_def)
    have "length (DnsCodec_encode eq cur) \<le> MAX_MDNS_MESSAGE_SIZE"
      using Cons.prems(3,4) by simp
    with ih e show ?thesis by simp
  next
    case False
    let ?cur' = "cur\<lparr>answers := answers cur @ [er a]\<rparr>"
    from False Cons.prems(1) have r: "sendQueriesLoop er E ?cur' (sz + length (er a)) as = (sent, w, final)"
      by (simp add: Let_def)
    have 1: "sz + length (er a) = E + sum_list (map length (answers ?cur'))"
      using Cons.prems(2) by simp
    have 2: "length (DnsCodec_encode eq ?cur') \<le> sz + length (er a)"
      using Cons.prems(3) by (simp add: length_DnsCodec_encode)
    have 3: "sz + length (er a) \<le> MAX_MDNS_MESSAGE_SIZE" using False by simp
    have 4: "length (DnsCodec_encode eq (?cur'\<lparr>queries := [], answers := []\<rparr>)) \<le> E"
      using Cons.prems(5) by simp
    have 5: "\<forall>a \<in> set as. E + length (er a) \<le> MAX_MDNS_MESSAGE_SIZE" using Cons.prems(6) by simp
    show ?thesis by (rule Cons.IH [OF r 1 2 3 4 5])
  qed
qed

lemma sendQueriesLoop_warns:
  "sendQueriesLoop er E cur sz (a # as) = (sent, w, final) \<Longrightarrow> answers cur = []
   \<Longrightarrow> sz + length (er a) > MAX_MDNS_MESSAGE_SIZE \<Longrightarrow> 1 \<le> w"
  by (auto simp: Let_def split: prod.splits)


lemma sendRecordsLoop_types:
  "sendRecordsLoop er E cur sz as = (sent, final, sz') \<Longrightarrow> messageType cur = t
   \<Longrightarrow> (\<forall>m \<in> set sent. messageType m = t) \<and> messageType final = t"
proof (induction as arbitrary: cur sz sent final)
  case Nil
  then show ?case by simp
next
  case (Cons a as)
  show ?case
  proof (cases "sz + length (er a) > MAX_MDNS_MESSAGE_SIZE")
    case True
    obtain sent' final' sz'' where r: "sendRecordsLoop er E (cur\<lparr>answers := [er a]\<rparr>) (E + length (er a)) as = (sent', final', sz'')"
      by (cases "sendRecordsLoop er E (cur\<lparr>answers := [er a]\<rparr>) (E + length (er a)) as") auto
    from Cons.prems(1) True r have e: "sent = cur # sent'" "final = final'" "sz' = sz''" by (simp_all add: Let_def)
    from Cons.IH [OF r [unfolded e(3) [symmetric]]] Cons.prems(2)
    have "(\<forall>m \<in> set sent'. messageType m = t) \<and> messageType final' = t" by simp
    with e show ?thesis using Cons.prems(2) by simp
  next
    case False
    with Cons.prems(1) have r: "sendRecordsLoop er E (cur\<lparr>answers := answers cur @ [er a]\<rparr>) (sz + length (er a)) as = (sent, final, sz')"
      by (simp add: Let_def)
    from Cons.IH [OF r] Cons.prems(2) show ?thesis by simp
  qed
qed

lemma sendRecordsLoop_answers:
  "sendRecordsLoop er E cur sz as = (sent, final, sz')
   \<Longrightarrow> concat (map answers sent) @ answers final = answers cur @ map er as"
proof (induction as arbitrary: cur sz sent final)
  case Nil
  then show ?case by simp
next
  case (Cons a as)
  show ?case
  proof (cases "sz + length (er a) > MAX_MDNS_MESSAGE_SIZE")
    case True
    obtain sent' final' sz'' where r: "sendRecordsLoop er E (cur\<lparr>answers := [er a]\<rparr>) (E + length (er a)) as = (sent', final', sz'')"
      by (cases "sendRecordsLoop er E (cur\<lparr>answers := [er a]\<rparr>) (E + length (er a)) as") auto
    from Cons.prems(1) True r have e: "sent = cur # sent'" "final = final'" "sz' = sz''" by (simp_all add: Let_def)
    from Cons.IH [OF r [unfolded e(3) [symmetric]]]
    have "concat (map answers sent') @ answers final' = [er a] @ map er as" by simp
    with e show ?thesis by simp
  next
    case False
    with Cons.prems(1) have r: "sendRecordsLoop er E (cur\<lparr>answers := answers cur @ [er a]\<rparr>) (sz + length (er a)) as = (sent, final, sz')"
      by (simp add: Let_def)
    from Cons.IH [OF r] show ?thesis by simp
  qed
qed

text \<open>
  What the answer loop of \<^verbatim>\<open>sendRecords\<close> guarantees: the sent messages with two answers or
  more fit, and the counter of the last message is exact.
\<close>

lemma sendRecordsLoop_sizes:
  "sendRecordsLoop er E cur sz as = (sent, final, sz')
   \<Longrightarrow> additionalRecords cur = []
   \<Longrightarrow> sz = E + sum_list (map length (answers cur))
   \<Longrightarrow> length (DnsCodec_encode eq (cur\<lparr>answers := []\<rparr>)) = E
   \<Longrightarrow> 2 \<le> length (answers cur) \<longrightarrow> sz \<le> MAX_MDNS_MESSAGE_SIZE
   \<Longrightarrow> (\<forall>m \<in> set sent. 2 \<le> length (answers m) \<longrightarrow> length (DnsCodec_encode eq m) \<le> MAX_MDNS_MESSAGE_SIZE)
       \<and> length (DnsCodec_encode eq final) = sz' \<and> additionalRecords final = []
       \<and> (2 \<le> length (answers final) \<longrightarrow> sz' \<le> MAX_MDNS_MESSAGE_SIZE)"
proof (induction as arbitrary: cur sz sent final)
  case Nil
  then show ?case by (auto simp: length_DnsCodec_encode)
next
  case (Cons a as)
  show ?case
  proof (cases "sz + length (er a) > MAX_MDNS_MESSAGE_SIZE")
    case True
    let ?cur' = "cur\<lparr>answers := [er a]\<rparr>"
    obtain sent' final' sz'' where r: "sendRecordsLoop er E ?cur' (E + length (er a)) as = (sent', final', sz'')"
      by (cases "sendRecordsLoop er E ?cur' (E + length (er a)) as") auto
    from Cons.prems(1) True r have e: "sent = cur # sent'" "final = final'" "sz' = sz''" by (simp_all add: Let_def)
    have 1: "additionalRecords ?cur' = []" using Cons.prems(2) by simp
    have 2: "E + length (er a) = E + sum_list (map length (answers ?cur'))" by simp
    have 3: "length (DnsCodec_encode eq (?cur'\<lparr>answers := []\<rparr>)) = E" using Cons.prems(4) by simp
    have 4: "2 \<le> length (answers ?cur') \<longrightarrow> E + length (er a) \<le> MAX_MDNS_MESSAGE_SIZE" by simp
    note ih = Cons.IH [OF r [unfolded e(3) [symmetric]] 1 2 3 4]
    have "2 \<le> length (answers cur) \<longrightarrow> length (DnsCodec_encode eq cur) \<le> MAX_MDNS_MESSAGE_SIZE"
      using Cons.prems(2,3,4,5) by (auto simp: length_DnsCodec_encode)
    with ih e show ?thesis by simp
  next
    case False
    let ?cur' = "cur\<lparr>answers := answers cur @ [er a]\<rparr>"
    from False Cons.prems(1) have r: "sendRecordsLoop er E ?cur' (sz + length (er a)) as = (sent, final, sz')"
      by (simp add: Let_def)
    have 1: "additionalRecords ?cur' = []" using Cons.prems(2) by simp
    have 2: "sz + length (er a) = E + sum_list (map length (answers ?cur'))" using Cons.prems(3) by simp
    have 3: "length (DnsCodec_encode eq (?cur'\<lparr>answers := []\<rparr>)) = E" using Cons.prems(4) by simp
    have 4: "2 \<le> length (answers ?cur') \<longrightarrow> sz + length (er a) \<le> MAX_MDNS_MESSAGE_SIZE" using False by simp
    show ?thesis by (rule Cons.IH [OF r 1 2 3 4])
  qed
qed

lemma sendRecordsLoop_fits:
  "sendRecordsLoop er E cur sz as = (sent, final, sz')
   \<Longrightarrow> additionalRecords cur = []
   \<Longrightarrow> sz = E + sum_list (map length (answers cur))
   \<Longrightarrow> length (DnsCodec_encode eq (cur\<lparr>answers := []\<rparr>)) = E
   \<Longrightarrow> sz \<le> MAX_MDNS_MESSAGE_SIZE
   \<Longrightarrow> \<forall>a \<in> set as. E + length (er a) \<le> MAX_MDNS_MESSAGE_SIZE
   \<Longrightarrow> (\<forall>m \<in> set sent. length (DnsCodec_encode eq m) \<le> MAX_MDNS_MESSAGE_SIZE)
       \<and> sz' \<le> MAX_MDNS_MESSAGE_SIZE"
proof (induction as arbitrary: cur sz sent final)
  case Nil
  then show ?case by auto
next
  case (Cons a as)
  show ?case
  proof (cases "sz + length (er a) > MAX_MDNS_MESSAGE_SIZE")
    case True
    let ?cur' = "cur\<lparr>answers := [er a]\<rparr>"
    obtain sent' final' sz'' where r: "sendRecordsLoop er E ?cur' (E + length (er a)) as = (sent', final', sz'')"
      by (cases "sendRecordsLoop er E ?cur' (E + length (er a)) as") auto
    from Cons.prems(1) True r have e: "sent = cur # sent'" "final = final'" "sz' = sz''" by (simp_all add: Let_def)
    have 1: "additionalRecords ?cur' = []" using Cons.prems(2) by simp
    have 2: "E + length (er a) = E + sum_list (map length (answers ?cur'))" by simp
    have 3: "length (DnsCodec_encode eq (?cur'\<lparr>answers := []\<rparr>)) = E" using Cons.prems(4) by simp
    have 4: "E + length (er a) \<le> MAX_MDNS_MESSAGE_SIZE" using Cons.prems(6) by simp
    have 5: "\<forall>a \<in> set as. E + length (er a) \<le> MAX_MDNS_MESSAGE_SIZE" using Cons.prems(6) by simp
    note ih = Cons.IH [OF r [unfolded e(3) [symmetric]] 1 2 3 4 5]
    have "length (DnsCodec_encode eq cur) \<le> MAX_MDNS_MESSAGE_SIZE"
      using Cons.prems(2,3,4,5) by (auto simp: length_DnsCodec_encode)
    with ih e show ?thesis by simp
  next
    case False
    let ?cur' = "cur\<lparr>answers := answers cur @ [er a]\<rparr>"
    from False Cons.prems(1) have r: "sendRecordsLoop er E ?cur' (sz + length (er a)) as = (sent, final, sz')"
      by (simp add: Let_def)
    have 1: "additionalRecords ?cur' = []" using Cons.prems(2) by simp
    have 2: "sz + length (er a) = E + sum_list (map length (answers ?cur'))" using Cons.prems(3) by simp
    have 3: "length (DnsCodec_encode eq (?cur'\<lparr>answers := []\<rparr>)) = E" using Cons.prems(4) by simp
    have 4: "sz + length (er a) \<le> MAX_MDNS_MESSAGE_SIZE" using False by simp
    have 5: "\<forall>a \<in> set as. E + length (er a) \<le> MAX_MDNS_MESSAGE_SIZE" using Cons.prems(6) by simp
    show ?thesis by (rule Cons.IH [OF r 1 2 3 4 5])
  qed
qed

lemma addAdditionalRecords_frame:
  "messageType (addAdditionalRecords er cur sz rs) = messageType cur
   \<and> answers (addAdditionalRecords er cur sz rs) = answers cur"
  by (induction rs arbitrary: cur sz) (simp_all add: Let_def)

lemma addAdditionalRecords_size:
  "length (DnsCodec_encode eq cur) = sz
   \<Longrightarrow> addAdditionalRecords er cur sz rs = cur
       \<or> length (DnsCodec_encode eq (addAdditionalRecords er cur sz rs)) \<le> MAX_MDNS_MESSAGE_SIZE"
proof (induction rs arbitrary: cur sz)
  case Nil
  then show ?case by simp
next
  case (Cons r rs)
  show ?case
  proof (cases "sz + length (er r) > MAX_MDNS_MESSAGE_SIZE")
    case True
    then show ?thesis by (simp add: Let_def)
  next
    case False
    let ?cur' = "cur\<lparr>additionalRecords := additionalRecords cur @ [er r]\<rparr>"
    have l: "length (DnsCodec_encode eq ?cur') = sz + length (er r)"
      using Cons.prems by (simp add: length_DnsCodec_encode)
    from Cons.IH [OF l] False l show ?thesis by (auto simp: Let_def)
  qed
qed


lemma datagramLength_sum:
  "datagramLength eq m =
     12 + sum_list (map (length \<circ> eq) (queries m)) + sum_list (map length (answers m))
        + sum_list (map length (authorities m)) + sum_list (map length (additionalRecords m))"
  by (simp add: datagramLength_def length_DnsCodec_encode)

lemma sentQueries_cases:
  obtains sent w final where
    "sendQueriesLoop er (emptyQueryLength eq s)
       \<lparr> messageType = TruncatedQuery, transactionId = 0,
         queries = concat (map (activeQueries \<circ> snd) (activeAnnounceQueries s)),
         answers = [], authorities = [], additionalRecords = [] \<rparr>
       (emptyQueryLength eq s) (getActiveQueryEarlierAnswers s) = (sent, w, final)"
    "sentQueries eq er s = sent @ [final\<lparr>messageType := Query\<rparr>]"
    "snd (snd (sendQueries eq er s)) = w"
proof -
  let ?m = "\<lparr> messageType = TruncatedQuery, transactionId = 0,
         queries = concat (map (activeQueries \<circ> snd) (activeAnnounceQueries s)),
         answers = ([] :: ByteArray list), authorities = [], additionalRecords = [] \<rparr>"
  obtain sent w final where
    r: "sendQueriesLoop er (emptyQueryLength eq s) ?m (emptyQueryLength eq s)
          (getActiveQueryEarlierAnswers s) = (sent, w, final)"
    by (cases "sendQueriesLoop er (emptyQueryLength eq s) ?m (emptyQueryLength eq s)
          (getActiveQueryEarlierAnswers s)") auto
  have "sentQueries eq er s = sent @ [final\<lparr>messageType := Query\<rparr>]"
       "snd (snd (sendQueries eq er s)) = w"
    using r
    by (simp_all add: sentQueries_def sendQueries_def Let_def emptyQueryLength_def
          datagramLength_def getActiveQueryEarlierAnswers_def comp_def map_concat)
  with r show ?thesis using that by blast
qed

lemma sentQueries_warns:
  assumes "getActiveQueryEarlierAnswers s = a # rest"
    and "1500 < emptyQueryLength eq s + length (er a)"
  shows "1 \<le> loggedWarnings eq er s"
proof -
  obtain sent w final where r: "sendQueriesLoop er (emptyQueryLength eq s)
       \<lparr> messageType = TruncatedQuery, transactionId = 0,
         queries = concat (map (activeQueries \<circ> snd) (activeAnnounceQueries s)),
         answers = [], authorities = [], additionalRecords = [] \<rparr>
       (emptyQueryLength eq s) (getActiveQueryEarlierAnswers s) = (sent, w, final)"
    and w: "snd (snd (sendQueries eq er s)) = w"
    by (rule sentQueries_cases)
  from sendQueriesLoop_warns [OF r [unfolded assms(1)]] assms(2) w show ?thesis
    by (simp add: loggedWarnings_def MAX_MDNS_MESSAGE_SIZE_def)
qed

lemma sentQueries_types:
  "sentQueries eq er s \<noteq> [] \<and> messageType (last (sentQueries eq er s)) = Query
   \<and> (\<forall>m \<in> set (butlast (sentQueries eq er s)). messageType m = TruncatedQuery)"
proof -
  obtain sent w final where r: "sendQueriesLoop er (emptyQueryLength eq s)
       \<lparr> messageType = TruncatedQuery, transactionId = 0,
         queries = concat (map (activeQueries \<circ> snd) (activeAnnounceQueries s)),
         answers = [], authorities = [], additionalRecords = [] \<rparr>
       (emptyQueryLength eq s) (getActiveQueryEarlierAnswers s) = (sent, w, final)"
    and e: "sentQueries eq er s = sent @ [final\<lparr>messageType := Query\<rparr>]"
    by (rule sentQueries_cases)
  from sendQueriesLoop_types [OF r] have "\<forall>m \<in> set sent. messageType m = TruncatedQuery" by simp
  with e show ?thesis by simp
qed

lemma sentQueries_answers:
  "concat (map answers (sentQueries eq er s)) = map er (getActiveQueryEarlierAnswers s)"
proof -
  obtain sent w final where r: "sendQueriesLoop er (emptyQueryLength eq s)
       \<lparr> messageType = TruncatedQuery, transactionId = 0,
         queries = concat (map (activeQueries \<circ> snd) (activeAnnounceQueries s)),
         answers = [], authorities = [], additionalRecords = [] \<rparr>
       (emptyQueryLength eq s) (getActiveQueryEarlierAnswers s) = (sent, w, final)"
    and e: "sentQueries eq er s = sent @ [final\<lparr>messageType := Query\<rparr>]"
    by (rule sentQueries_cases)
  from sendQueriesLoop_answers [OF r] e show ?thesis by simp
qed

lemma datagramLength_messageType [simp]:
  "datagramLength eq (m\<lparr>messageType := t\<rparr>) = datagramLength eq m"
  by (simp add: datagramLength_sum)

lemma sentQueries_sizes:
  "\<forall>m \<in> set (sentQueries eq er s). 2 \<le> length (answers m) \<longrightarrow> datagramLength eq m \<le> 1500"
proof -
  let ?m = "\<lparr> messageType = TruncatedQuery, transactionId = 0,
         queries = concat (map (activeQueries \<circ> snd) (activeAnnounceQueries s)),
         answers = ([] :: ByteArray list), authorities = [], additionalRecords = [] \<rparr>"
  obtain sent w final where r: "sendQueriesLoop er (emptyQueryLength eq s) ?m
       (emptyQueryLength eq s) (getActiveQueryEarlierAnswers s) = (sent, w, final)"
    and e: "sentQueries eq er s = sent @ [final\<lparr>messageType := Query\<rparr>]"
    by (rule sentQueries_cases)
  have c: "counted eq (emptyQueryLength eq s) ?m (emptyQueryLength eq s)"
    by (simp add: counted_def emptyQueryLength_def datagramLength_def)
  have b: "length (DnsCodec_encode eq (?m\<lparr>queries := [], answers := []\<rparr>)) \<le> emptyQueryLength eq s"
    by (simp add: emptyQueryLength_def datagramLength_def length_DnsCodec_encode)
  from sendQueriesLoop_sizes [OF r c b]
  have "\<forall>m \<in> set (sent @ [final]). 2 \<le> length (answers m) \<longrightarrow> datagramLength eq m \<le> 1500"
    by (simp add: datagramLength_def MAX_MDNS_MESSAGE_SIZE_def)
  with e show ?thesis by auto
qed

lemma sentQueries_fits:
  assumes "emptyQueryLength eq s \<le> 1500"
    and "\<forall>a \<in> set (getActiveQueryEarlierAnswers s). emptyQueryLength eq s + length (er a) \<le> 1500"
  shows "\<forall>m \<in> set (sentQueries eq er s). datagramLength eq m \<le> 1500"
proof -
  let ?m = "\<lparr> messageType = TruncatedQuery, transactionId = 0,
         queries = concat (map (activeQueries \<circ> snd) (activeAnnounceQueries s)),
         answers = ([] :: ByteArray list), authorities = [], additionalRecords = [] \<rparr>"
  let ?E = "emptyQueryLength eq s"
  obtain sent w final where r: "sendQueriesLoop er ?E ?m ?E (getActiveQueryEarlierAnswers s) = (sent, w, final)"
    and e: "sentQueries eq er s = sent @ [final\<lparr>messageType := Query\<rparr>]"
    by (rule sentQueries_cases)
  have 1: "?E = ?E + sum_list (map length (answers ?m))" by simp
  have 2: "length (DnsCodec_encode eq ?m) \<le> ?E" by (simp add: emptyQueryLength_def datagramLength_def)
  have 3: "?E \<le> MAX_MDNS_MESSAGE_SIZE" using assms(1) by (simp add: MAX_MDNS_MESSAGE_SIZE_def)
  have 4: "length (DnsCodec_encode eq (?m\<lparr>queries := [], answers := []\<rparr>)) \<le> ?E"
    by (simp add: emptyQueryLength_def datagramLength_def length_DnsCodec_encode)
  have 5: "\<forall>a \<in> set (getActiveQueryEarlierAnswers s). ?E + length (er a) \<le> MAX_MDNS_MESSAGE_SIZE"
    using assms(2) by (simp add: MAX_MDNS_MESSAGE_SIZE_def)
  from sendQueriesLoop_fits [OF r 1 2 3 4 5]
  have "\<forall>m \<in> set (sent @ [final]). datagramLength eq m \<le> 1500"
    by (simp add: datagramLength_def MAX_MDNS_MESSAGE_SIZE_def)
  with e show ?thesis by auto
qed

lemma sendRecords_cases:
  obtains sent final sz where
    "sendRecordsLoop er (emptyRecordsLength eq er d)
       \<lparr> messageType = messageType d, transactionId = transactionId d, queries = queries d,
         answers = [], authorities = map er (authorities d), additionalRecords = [] \<rparr>
       (emptyRecordsLength eq er d) (answers d) = (sent, final, sz)"
    "sendRecords eq er d = sent @ [addAdditionalRecords er final sz (additionalRecords d)]"
proof -
  let ?m = "\<lparr> messageType = messageType d, transactionId = transactionId d, queries = queries d,
         answers = ([] :: ByteArray list), authorities = map er (authorities d), additionalRecords = [] \<rparr>"
  obtain sent final sz where
    r: "sendRecordsLoop er (emptyRecordsLength eq er d) ?m (emptyRecordsLength eq er d) (answers d)
          = (sent, final, sz)"
    by (cases "sendRecordsLoop er (emptyRecordsLength eq er d) ?m (emptyRecordsLength eq er d) (answers d)") auto
  have "sendRecords eq er d = sent @ [addAdditionalRecords er final sz (additionalRecords d)]"
    using r by (simp add: sendRecords_def Let_def emptyRecordsLength_def datagramLength_def)
  with r show ?thesis using that by blast
qed

lemma sendRecords_types:
  "sendRecords eq er d \<noteq> [] \<and> (\<forall>m \<in> set (sendRecords eq er d). messageType m = messageType d)"
proof -
  obtain sent final sz where r: "sendRecordsLoop er (emptyRecordsLength eq er d)
       \<lparr> messageType = messageType d, transactionId = transactionId d, queries = queries d,
         answers = [], authorities = map er (authorities d), additionalRecords = [] \<rparr>
       (emptyRecordsLength eq er d) (answers d) = (sent, final, sz)"
    and e: "sendRecords eq er d = sent @ [addAdditionalRecords er final sz (additionalRecords d)]"
    by (rule sendRecords_cases)
  from sendRecordsLoop_types [OF r] e show ?thesis
    by (simp add: addAdditionalRecords_frame)
qed

lemma sendRecords_answers:
  "concat (map answers (sendRecords eq er d)) = map er (answers d)"
proof -
  obtain sent final sz where r: "sendRecordsLoop er (emptyRecordsLength eq er d)
       \<lparr> messageType = messageType d, transactionId = transactionId d, queries = queries d,
         answers = [], authorities = map er (authorities d), additionalRecords = [] \<rparr>
       (emptyRecordsLength eq er d) (answers d) = (sent, final, sz)"
    and e: "sendRecords eq er d = sent @ [addAdditionalRecords er final sz (additionalRecords d)]"
    by (rule sendRecords_cases)
  from sendRecordsLoop_answers [OF r] e show ?thesis
    by (simp add: addAdditionalRecords_frame)
qed

lemma sendRecords_sizes:
  "\<forall>m \<in> set (sendRecords eq er d). 2 \<le> length (answers m) \<longrightarrow> datagramLength eq m \<le> 1500"
proof -
  let ?m = "\<lparr> messageType = messageType d, transactionId = transactionId d, queries = queries d,
         answers = ([] :: ByteArray list), authorities = map er (authorities d), additionalRecords = [] \<rparr>"
  let ?E = "emptyRecordsLength eq er d"
  obtain sent final sz where r: "sendRecordsLoop er ?E ?m ?E (answers d) = (sent, final, sz)"
    and e: "sendRecords eq er d = sent @ [addAdditionalRecords er final sz (additionalRecords d)]"
    by (rule sendRecords_cases)
  have 1: "additionalRecords ?m = []" by simp
  have 2: "?E = ?E + sum_list (map length (answers ?m))" by simp
  have 3: "length (DnsCodec_encode eq (?m\<lparr>answers := []\<rparr>)) = ?E"
    by (simp add: emptyRecordsLength_def datagramLength_def)
  have 4: "2 \<le> length (answers ?m) \<longrightarrow> ?E \<le> MAX_MDNS_MESSAGE_SIZE" by simp
  note l = sendRecordsLoop_sizes [OF r 1 2 3 4]
  let ?f = "addAdditionalRecords er final sz (additionalRecords d)"
  from l have fl: "length (DnsCodec_encode eq final) = sz" by simp
  have "2 \<le> length (answers ?f) \<longrightarrow> datagramLength eq ?f \<le> 1500"
    using addAdditionalRecords_size [OF fl, of er "additionalRecords d"] l
    by (auto simp: datagramLength_def MAX_MDNS_MESSAGE_SIZE_def addAdditionalRecords_frame)
  with l e show ?thesis by (auto simp: datagramLength_def MAX_MDNS_MESSAGE_SIZE_def)
qed

lemma sendRecords_fits:
  assumes "emptyRecordsLength eq er d \<le> 1500"
    and "\<forall>a \<in> set (answers d). emptyRecordsLength eq er d + length (er a) \<le> 1500"
  shows "\<forall>m \<in> set (sendRecords eq er d). datagramLength eq m \<le> 1500"
proof -
  let ?m = "\<lparr> messageType = messageType d, transactionId = transactionId d, queries = queries d,
         answers = ([] :: ByteArray list), authorities = map er (authorities d), additionalRecords = [] \<rparr>"
  let ?E = "emptyRecordsLength eq er d"
  obtain sent final sz where r: "sendRecordsLoop er ?E ?m ?E (answers d) = (sent, final, sz)"
    and e: "sendRecords eq er d = sent @ [addAdditionalRecords er final sz (additionalRecords d)]"
    by (rule sendRecords_cases)
  have 1: "additionalRecords ?m = []" by simp
  have 2: "?E = ?E + sum_list (map length (answers ?m))" by simp
  have 3: "length (DnsCodec_encode eq (?m\<lparr>answers := []\<rparr>)) = ?E"
    by (simp add: emptyRecordsLength_def datagramLength_def)
  have 4: "2 \<le> length (answers ?m) \<longrightarrow> ?E \<le> MAX_MDNS_MESSAGE_SIZE" by simp
  have 5: "?E \<le> MAX_MDNS_MESSAGE_SIZE" using assms(1) by (simp add: MAX_MDNS_MESSAGE_SIZE_def)
  have 6: "\<forall>a \<in> set (answers d). ?E + length (er a) \<le> MAX_MDNS_MESSAGE_SIZE"
    using assms(2) by (simp add: MAX_MDNS_MESSAGE_SIZE_def)
  note l = sendRecordsLoop_sizes [OF r 1 2 3 4]
  note f = sendRecordsLoop_fits [OF r 1 2 3 5 6]
  let ?f = "addAdditionalRecords er final sz (additionalRecords d)"
  from l have fl: "length (DnsCodec_encode eq final) = sz" by simp
  have "datagramLength eq ?f \<le> 1500"
    using addAdditionalRecords_size [OF fl, of er "additionalRecords d"] f fl
    by (auto simp: datagramLength_def MAX_MDNS_MESSAGE_SIZE_def)
  with f e show ?thesis by (auto simp: datagramLength_def MAX_MDNS_MESSAGE_SIZE_def)
qed

text \<open>
  Claim C2, as the code has it. One \<^verbatim>\<open>sendQueries\<close> cycle sends at least one message; the
  last has type \<^verbatim>\<open>Query\<close> and all before it have type \<^verbatim>\<open>TruncatedQuery\<close>; the encoded known
  answers are sent in order, each exactly once, whatever their size; a datagram that
  carries two answers or more is at most 1500 bytes, and so is every datagram when the
  message without answers plus any single answer stays within 1500 bytes; when already the
  first answer does not fit beside the questions, a warning is logged. The messages of
  \<^verbatim>\<open>sendRecords\<close> all keep the message type they were given (\<^verbatim>\<open>Response\<close> in every call of the
  server), carry the encoded answers in order, each exactly once, and obey the same two
  size bounds.
\<close>

theorem mdns_bursts:
  "sentQueries eq er s \<noteq> []
   \<and> messageType (last (sentQueries eq er s)) = Query
   \<and> (\<forall>m \<in> set (butlast (sentQueries eq er s)). messageType m = TruncatedQuery)
   \<and> concat (map answers (sentQueries eq er s)) = map er (getActiveQueryEarlierAnswers s)
   \<and> (\<forall>m \<in> set (sentQueries eq er s). 2 \<le> length (answers m) \<longrightarrow> datagramLength eq m \<le> 1500)
   \<and> (emptyQueryLength eq s \<le> 1500
        \<and> (\<forall>a \<in> set (getActiveQueryEarlierAnswers s). emptyQueryLength eq s + length (er a) \<le> 1500)
      \<longrightarrow> (\<forall>m \<in> set (sentQueries eq er s). datagramLength eq m \<le> 1500))
   \<and> (\<forall>a rest. getActiveQueryEarlierAnswers s = a # rest
          \<and> 1500 < emptyQueryLength eq s + length (er a) \<longrightarrow> 1 \<le> loggedWarnings eq er s)
   \<and> sendRecords eq er d \<noteq> []
   \<and> (\<forall>m \<in> set (sendRecords eq er d). messageType m = messageType d)
   \<and> concat (map answers (sendRecords eq er d)) = map er (answers d)
   \<and> (\<forall>m \<in> set (sendRecords eq er d). 2 \<le> length (answers m) \<longrightarrow> datagramLength eq m \<le> 1500)
   \<and> (emptyRecordsLength eq er d \<le> 1500
        \<and> (\<forall>a \<in> set (answers d). emptyRecordsLength eq er d + length (er a) \<le> 1500)
      \<longrightarrow> (\<forall>m \<in> set (sendRecords eq er d). datagramLength eq m \<le> 1500))"
  using sentQueries_types [of eq er s] sentQueries_answers [of eq er s]
    sentQueries_sizes [of eq er s] sentQueries_fits [of eq s er] sentQueries_warns [of s _ _ eq er]
    sendRecords_types [of eq er d] sendRecords_answers [of eq er d]
    sendRecords_sizes [of eq er d] sendRecords_fits [of eq er d]
  by blast

lemma ex_sendRecords:
  "map messageType (sendRecords exEncodeQuery exEncodeRecord exResponse) = [Response, Response]
   \<and> map (length \<circ> answers) (sendRecords exEncodeQuery exEncodeRecord exResponse) = [2, 1]"
  by (simp add: sendRecords_def exResponse_def exEncodeRecord_def exRecord_def Let_def
      DnsCodec_encode_def u16_def MAX_MDNS_MESSAGE_SIZE_def)

lemma ex_sentQueries:
  "map messageType (sentQueries exEncodeQuery exEncodeRecord exScannerThreeAnswers) = [TruncatedQuery, Query]
   \<and> map (length \<circ> answers) (sentQueries exEncodeQuery exEncodeRecord exScannerThreeAnswers) = [2, 1]"
  by (simp add: sentQueries_def sendQueries_def exScannerThreeAnswers_def newMdnsScanner_def
      exEncodeRecord_def exRecord_def Let_def
      DnsCodec_encode_def u16_def MAX_MDNS_MESSAGE_SIZE_def)

lemma ex_two_queries:
  "map (datagramLength exEncodeQuery) (sentQueries exEncodeQuery exEncodeRecord exScannerTwoQueries) = [1612]
  \<and> map answers (sentQueries exEncodeQuery exEncodeRecord exScannerTwoQueries) = [[]]"
  by (simp add: sentQueries_def sendQueries_def exScannerTwoQueries_def newMdnsScanner_def
      exEncodeRecord_def exEncodeQuery_def exRecord_def Let_def datagramLength_def
      DnsCodec_encode_def u16_def MAX_MDNS_MESSAGE_SIZE_def)


text \<open>
  The claim as stated fails: a response with three answers of 700 bytes goes out as two
  messages of type \<^verbatim>\<open>Response\<close>, and a cycle with two questions of 800 bytes and no known
  answer sends one datagram of 1612 bytes.
\<close>

theorem mdns_bursts_counterexample:
  "length (sendRecords exEncodeQuery exEncodeRecord exResponse) = 2
   \<and> messageType (hd (sendRecords exEncodeQuery exEncodeRecord exResponse)) \<noteq> TruncatedQuery
   \<and> messageType (last (sendRecords exEncodeQuery exEncodeRecord exResponse)) \<noteq> Query
   \<and> sentQueries exEncodeQuery exEncodeRecord exScannerTwoQueries \<noteq> []
   \<and> answers (hd (sentQueries exEncodeQuery exEncodeRecord exScannerTwoQueries)) = []
   \<and> 1500 < datagramLength exEncodeQuery (hd (sentQueries exEncodeQuery exEncodeRecord exScannerTwoQueries))"
proof -
  have "map messageType (sendRecords exEncodeQuery exEncodeRecord exResponse) = [Response, Response]"
    using ex_sendRecords by simp
  then obtain m1 m2 where r: "sendRecords exEncodeQuery exEncodeRecord exResponse = [m1, m2]"
    "messageType m1 = Response" "messageType m2 = Response"
    by auto
  have "map (datagramLength exEncodeQuery) (sentQueries exEncodeQuery exEncodeRecord exScannerTwoQueries) = [1612]"
    "map answers (sentQueries exEncodeQuery exEncodeRecord exScannerTwoQueries) = [[]]"
    using ex_two_queries by simp_all
  then obtain m where q: "sentQueries exEncodeQuery exEncodeRecord exScannerTwoQueries = [m]"
    "datagramLength exEncodeQuery m = 1612" "answers m = []"
    by auto
  from r q show ?thesis by simp
qed

theorem mdns_bursts_witness:
  "2 \<le> length (answers (hd (sentQueries exEncodeQuery exEncodeRecord exScannerThreeAnswers)))
   \<and> datagramLength exEncodeQuery (hd (sentQueries exEncodeQuery exEncodeRecord exScannerThreeAnswers)) \<le> 1500
   \<and> emptyQueryLength exEncodeQuery exScannerThreeAnswers + 700 \<le> 1500
   \<and> datagramLength exEncodeQuery (last (sentQueries exEncodeQuery exEncodeRecord exScannerThreeAnswers)) \<le> 1500
   \<and> 2 \<le> length (answers (hd (sendRecords exEncodeQuery exEncodeRecord exResponse)))
   \<and> datagramLength exEncodeQuery (hd (sendRecords exEncodeQuery exEncodeRecord exResponse)) \<le> 1500
   \<and> emptyRecordsLength exEncodeQuery exEncodeRecord exResponse + 700 \<le> 1500
   \<and> datagramLength exEncodeQuery (last (sendRecords exEncodeQuery exEncodeRecord exResponse)) \<le> 1500
   \<and> 1500 < emptyQueryLength exEncodeQuery exScannerBigAnswer + length (exEncodeRecord (exRecord 1600))
   \<and> 1 \<le> loggedWarnings exEncodeQuery exEncodeRecord exScannerBigAnswer"
proof -
  have big: "getActiveQueryEarlierAnswers exScannerBigAnswer = exRecord 1600 # []"
    "1500 < emptyQueryLength exEncodeQuery exScannerBigAnswer + length (exEncodeRecord (exRecord 1600))"
    by (simp_all add: getActiveQueryEarlierAnswers_def exScannerBigAnswer_def newMdnsScanner_def
          emptyQueryLength_def datagramLength_sum exEncodeRecord_def exRecord_def)
  from mdns_bursts [of exEncodeQuery exEncodeRecord exScannerBigAnswer exResponse] big
  have w: "1 \<le> loggedWarnings exEncodeQuery exEncodeRecord exScannerBigAnswer" by blast
  let ?q = "sentQueries exEncodeQuery exEncodeRecord exScannerThreeAnswers"
  let ?r = "sendRecords exEncodeQuery exEncodeRecord exResponse"
  note t = mdns_bursts [of exEncodeQuery exEncodeRecord exScannerThreeAnswers exResponse]
  have q2: "map (length \<circ> answers) ?q = [2, 1]" using ex_sentQueries by simp
  have r2: "map (length \<circ> answers) ?r = [2, 1]" using ex_sendRecords by simp
  from q2 obtain a b where qs: "?q = [a, b]" "length (answers a) = 2" by auto
  from r2 obtain c e where rs: "?r = [c, e]" "length (answers c) = 2" by auto
  have eq: "emptyQueryLength exEncodeQuery exScannerThreeAnswers = 12"
    by (simp add: emptyQueryLength_def datagramLength_sum exScannerThreeAnswers_def newMdnsScanner_def)
  have er: "emptyRecordsLength exEncodeQuery exEncodeRecord exResponse = 12"
    by (simp add: emptyRecordsLength_def datagramLength_sum exResponse_def)
  have ka: "\<forall>a \<in> set (getActiveQueryEarlierAnswers exScannerThreeAnswers).
              emptyQueryLength exEncodeQuery exScannerThreeAnswers + length (exEncodeRecord a) \<le> 1500"
    by (simp add: emptyQueryLength_def datagramLength_sum getActiveQueryEarlierAnswers_def
          exScannerThreeAnswers_def newMdnsScanner_def exEncodeRecord_def exRecord_def)
  have ra: "\<forall>a \<in> set (answers exResponse).
              emptyRecordsLength exEncodeQuery exEncodeRecord exResponse + length (exEncodeRecord a) \<le> 1500"
    by (simp add: emptyRecordsLength_def datagramLength_sum exResponse_def exEncodeRecord_def
          exRecord_def)
  from t ka eq have "\<forall>m \<in> set ?q. datagramLength exEncodeQuery m \<le> 1500" by simp
  moreover from t ra er have "\<forall>m \<in> set ?r. datagramLength exEncodeQuery m \<le> 1500" by simp
  ultimately show ?thesis using qs rs eq er big w by simp
qed

section \<open>Properties of the announce schedule and of the active queries\<close>

text \<open>
  Claim C3. A \<^verbatim>\<open>sendQueries\<close> cycle schedules the next one after the current announce
  interval and doubles the interval, capped at 3600 seconds; so the timer of the cycle after
  it runs twice as long, capped at 3600 seconds. A \<^verbatim>\<open>setQueryRecords\<close> call that changes the
  stored queries resets the interval to 1.5 seconds and starts a timer of 0 milliseconds.
\<close>

theorem announce_interval_schedule:
  "queryTimer (fst (sendQueries eq er s)) = Some (nextAnnounceIntervalSeconds s * 1000)
   \<and> nextAnnounceIntervalSeconds (fst (sendQueries eq er s))
       = (if nextAnnounceIntervalSeconds s * 2 \<le> 3600 then nextAnnounceIntervalSeconds s * 2 else 3600)
   \<and> queryTimer (fst (sendQueries eq er (fst (sendQueries eq er s))))
       = Some (if nextAnnounceIntervalSeconds s * 1000 * 2 \<le> 3600 * 1000
               then nextAnnounceIntervalSeconds s * 1000 * 2 else 3600 * 1000)
   \<and> (activeAnnounceQueries (setQueryRecords queryId queries0 answers0 s) \<noteq> activeAnnounceQueries s
        \<longrightarrow> nextAnnounceIntervalSeconds (setQueryRecords queryId queries0 answers0 s) = 3 / 2
            \<and> queryTimer (setQueryRecords queryId queries0 answers0 s) = Some 0)"
proof -
  have 1: "queryTimer (fst (sendQueries eq er s)) = Some (nextAnnounceIntervalSeconds s * 1000)" for s
    by (simp add: sendQueries_def Let_def split: prod.splits)
  have 2: "nextAnnounceIntervalSeconds (fst (sendQueries eq er s))
       = (if nextAnnounceIntervalSeconds s * 2 \<le> 3600 then nextAnnounceIntervalSeconds s * 2 else 3600)" for s
    by (simp add: sendQueries_def Let_def min_def split: prod.splits)
  have 3: "activeAnnounceQueries (setQueryRecords queryId queries0 answers0 s) \<noteq> activeAnnounceQueries s
        \<longrightarrow> nextAnnounceIntervalSeconds (setQueryRecords queryId queries0 answers0 s) = 3 / 2
            \<and> queryTimer (setQueryRecords queryId queries0 answers0 s) = Some 0"
    by (auto simp: setQueryRecords_def storeQueryRecords_def START_ANNOUNCE_INTERVAL_SECONDS_def
          Let_def split: option.splits)
  show ?thesis using 1 [of s] 1 [of "fst (sendQueries eq er s)"] 2 [of s] 3 by simp
qed

theorem announce_interval_schedule_witness:
  "nextAnnounceIntervalSeconds exScannerOneQuery = 48
   \<and> activeAnnounceQueries (setQueryRecords ''q'' [exQueryFor ''b.local''] [] exScannerOneQuery)
       \<noteq> activeAnnounceQueries exScannerOneQuery
   \<and> nextAnnounceIntervalSeconds (setQueryRecords ''q'' [exQueryFor ''b.local''] [] exScannerOneQuery) = 3 / 2
   \<and> queryTimer (setQueryRecords ''q'' [exQueryFor ''b.local''] [] exScannerOneQuery) = Some 0
   \<and> queryTimer (fst (sendQueries exEncodeQuery exEncodeRecord exScannerOneQuery)) = Some 48000
   \<and> queryTimer (fst (sendQueries exEncodeQuery exEncodeRecord
        (fst (sendQueries exEncodeQuery exEncodeRecord exScannerOneQuery)))) = Some 96000"
proof -
  have c: "activeAnnounceQueries (setQueryRecords ''q'' [exQueryFor ''b.local''] [] exScannerOneQuery)
       \<noteq> activeAnnounceQueries exScannerOneQuery"
    by (simp add: setQueryRecords_def storeQueryRecords_def exScannerOneQuery_def newMdnsScanner_def
          exQueryFor_def sameQuery_def Let_def)
  have i: "nextAnnounceIntervalSeconds exScannerOneQuery = 48"
    by (simp add: exScannerOneQuery_def)
  from announce_interval_schedule [of exEncodeQuery exEncodeRecord exScannerOneQuery "''q''"
      "[exQueryFor ''b.local'']" "[]"] c i
  show ?thesis by simp
qed

text \<open>
  Claim C1, as the code has it. When an active query exists for \<open>queryId\<close>: if every new
  query tuple (name, class, type) is already stored, the call changes nothing; otherwise
  the stored queries are replaced by the new ones (not united with them), the new known
  answers are appended to the stored ones, the other active queries and the order of the
  table stay as they are, the interval is reset to 1.5 seconds and a timer of 0
  milliseconds is started.
\<close>

theorem setQueryRecords_existing:
  assumes "map_of (activeAnnounceQueries s) queryId = Some existing"
  shows "(set (map queryTuple queries0) \<subseteq> set (map queryTuple (activeQueries existing))
           \<longrightarrow> setQueryRecords queryId queries0 answers0 s = s)
       \<and> (\<not> set (map queryTuple queries0) \<subseteq> set (map queryTuple (activeQueries existing))
           \<longrightarrow> map_of (activeAnnounceQueries (setQueryRecords queryId queries0 answers0 s)) queryId
                 = Some \<lparr>activeQueries = queries0, knownAnswers = knownAnswers existing @ answers0\<rparr>
               \<and> (\<forall>k. k \<noteq> queryId \<longrightarrow>
                     map_of (activeAnnounceQueries (setQueryRecords queryId queries0 answers0 s)) k
                       = map_of (activeAnnounceQueries s) k)
               \<and> map fst (activeAnnounceQueries (setQueryRecords queryId queries0 answers0 s))
                   = map fst (activeAnnounceQueries s)
               \<and> nextAnnounceIntervalSeconds (setQueryRecords queryId queries0 answers0 s) = 3 / 2
               \<and> queryTimer (setQueryRecords queryId queries0 answers0 s) = Some 0)"
proof -
  let ?new = "filter (\<lambda>query. \<not> list_ex (\<lambda>existingQuery. sameQuery existingQuery query)
                                      (activeQueries existing)) queries0"
  have n: "(?new = []) = (set (map queryTuple queries0) \<subseteq> set (map queryTuple (activeQueries existing)))"
  proof
    assume e: "?new = []"
    show "set (map queryTuple queries0) \<subseteq> set (map queryTuple (activeQueries existing))"
    proof
      fix t assume "t \<in> set (map queryTuple queries0)"
      then obtain q where q: "q \<in> set queries0" "t = queryTuple q" by auto
      with e obtain x where x: "x \<in> set (activeQueries existing)" "sameQuery x q"
        by (auto simp: filter_empty_conv list_ex_iff)
      then have "queryTuple x = t"
        using q by (simp add: sameQuery_def queryTuple_def)
      with x(1) show "t \<in> set (map queryTuple (activeQueries existing))"
        by force
    qed
  next
    assume sub: "set (map queryTuple queries0) \<subseteq> set (map queryTuple (activeQueries existing))"
    show "?new = []"
      unfolding filter_empty_conv list_ex_iff
    proof (intro ballI notI)
      fix q assume q: "q \<in> set queries0" and n: "\<not> (\<exists>x \<in> set (activeQueries existing). sameQuery x q)"
      from q sub have "queryTuple q \<in> set (map queryTuple (activeQueries existing))" by auto
      then obtain x where "x \<in> set (activeQueries existing)" "queryTuple x = queryTuple q" by auto
      with n show False by (auto simp: sameQuery_def queryTuple_def)
    qed
  qed
  have k: "queryId \<in> fst ` set (activeAnnounceQueries s)"
    using assms by (rule map_of_SomeD [THEN imageI, of _ _ _ fst, simplified])
  show ?thesis
    using assms n k
    by (simp add: setQueryRecords_def storeQueryRecords_def Let_def update_conv'
        START_ANNOUNCE_INTERVAL_SECONDS_def AList.update_keys map_add_dom_app_simps)
qed


theorem setQueryRecords_existing_witness:
  "map_of (activeAnnounceQueries exScannerOneQuery) ''q''
     = Some \<lparr>activeQueries = [exQueryFor ''a.local''], knownAnswers = [exRecord 1]\<rparr>
   \<and> setQueryRecords ''q'' [exQueryFor ''a.local''] [exRecord 2] exScannerOneQuery = exScannerOneQuery
   \<and> map_of (activeAnnounceQueries
        (setQueryRecords ''q'' [exQueryFor ''b.local'', exQueryFor ''a.local''] [exRecord 2] exScannerOneQuery)) ''q''
       = Some \<lparr>activeQueries = [exQueryFor ''b.local'', exQueryFor ''a.local''],
               knownAnswers = [exRecord 1, exRecord 2]\<rparr>
   \<and> nextAnnounceIntervalSeconds
        (setQueryRecords ''q'' [exQueryFor ''b.local'', exQueryFor ''a.local''] [exRecord 2] exScannerOneQuery) = 3 / 2
   \<and> queryTimer
        (setQueryRecords ''q'' [exQueryFor ''b.local'', exQueryFor ''a.local''] [exRecord 2] exScannerOneQuery) = Some 0"
proof -
  have h: "map_of (activeAnnounceQueries exScannerOneQuery) ''q''
     = Some \<lparr>activeQueries = [exQueryFor ''a.local''], knownAnswers = [exRecord 1]\<rparr>"
    by (simp add: exScannerOneQuery_def)
  have a: "set (map queryTuple [exQueryFor ''a.local''])
             \<subseteq> set (map queryTuple (activeQueries \<lparr>activeQueries = [exQueryFor ''a.local''], knownAnswers = [exRecord 1]\<rparr>))"
    by simp
  have b: "\<not> set (map queryTuple [exQueryFor ''b.local'', exQueryFor ''a.local''])
             \<subseteq> set (map queryTuple (activeQueries \<lparr>activeQueries = [exQueryFor ''a.local''], knownAnswers = [exRecord 1]\<rparr>))"
    by (simp add: queryTuple_def exQueryFor_def)
  from setQueryRecords_existing [OF h, of "[exQueryFor ''a.local'']" "[exRecord 2]"] a
    setQueryRecords_existing [OF h, of "[exQueryFor ''b.local'', exQueryFor ''a.local'']" "[exRecord 2]"] b h
  show ?thesis by simp
qed

lemma ex_overwrite:
  "map_of (activeAnnounceQueries (setQueryRecords ''q'' [exQueryFor ''b.local''] [] exScannerOneQuery)) ''q''
     = Some \<lparr>activeQueries = [exQueryFor ''b.local''], knownAnswers = [exRecord 1]\<rparr>"
  by (simp add: setQueryRecords_def storeQueryRecords_def exScannerOneQuery_def newMdnsScanner_def
      exQueryFor_def sameQuery_def Let_def)

text \<open>
  The claim as stated fails: with the query for \<^verbatim>\<open>a.local\<close> stored, setting the query for
  \<^verbatim>\<open>b.local\<close> leaves only the latter stored.
\<close>

theorem setQueryRecords_union_counterexample:
  "map_of (activeAnnounceQueries exScannerOneQuery) ''q''
     = Some \<lparr>activeQueries = [exQueryFor ''a.local''], knownAnswers = [exRecord 1]\<rparr>
   \<and> map_of (activeAnnounceQueries (setQueryRecords ''q'' [exQueryFor ''b.local''] [] exScannerOneQuery)) ''q''
     = Some \<lparr>activeQueries = [exQueryFor ''b.local''], knownAnswers = [exRecord 1]\<rparr>
   \<and> set (map queryTuple [exQueryFor ''b.local''])
       \<noteq> set (map queryTuple [exQueryFor ''b.local'']) \<union> set (map queryTuple [exQueryFor ''a.local''])"
  using ex_overwrite by (auto simp: exScannerOneQuery_def queryTuple_def exQueryFor_def)

section \<open>Properties of TXT parsing\<close>


lemma jsSplit_Cons: "\<exists>p ps. jsSplit sep s = p # ps \<and> p = takeWhile (\<lambda>c. c \<noteq> sep) s"
  by (induction s) (auto split: list.splits)

lemma jsSplit_key: "jsSplit sep s = key # rest \<Longrightarrow> key = takeWhile (\<lambda>c. c \<noteq> sep) s"
  using jsSplit_Cons [of sep s] by auto

lemma jsSplit_not_Nil: "jsSplit sep s \<noteq> []"
  using jsSplit_Cons [of sep s] by auto

lemma parseTxtItems_other_key:
  "k \<notin> set txtIntKeys \<Longrightarrow> k \<notin> set txtStringKeys
   \<Longrightarrow> map_of (parseTxtItems acc items) k = map_of acc k"
proof (induction items arbitrary: acc)
  case Nil
  then show ?case by simp
next
  case (Cons item items)
  then show ?case
    by (auto simp: update_conv' split: list.splits option.splits)
qed

lemma parseTxtItems_absent_key:
  "k \<notin> set (map (takeWhile (\<lambda>c. c \<noteq> CHR ''='')) items)
   \<Longrightarrow> map_of (parseTxtItems acc items) k = map_of acc k"
proof (induction items arbitrary: acc)
  case Nil
  then show ?case by simp
next
  case (Cons item items)
  from Cons.prems have k: "k \<noteq> takeWhile (\<lambda>c. c \<noteq> CHR ''='') item"
    and r: "k \<notin> set (map (takeWhile (\<lambda>c. c \<noteq> CHR ''='')) items)" by auto
  show ?case
  proof (cases "jsSplit CHR ''='' item")
    case Nil
    then show ?thesis using Cons.IH [OF r] by simp
  next
    case (Cons key rest)
    then have "key \<noteq> k" using jsSplit_key [of "CHR ''=''" item key rest] k by simp
    then show ?thesis using Cons Cons.IH [OF r]
      by (auto simp: update_conv' split: list.splits option.splits)
  qed
qed

lemma parseTxtItems_int_key:
  "k \<in> set txtIntKeys \<Longrightarrow> map_of (parseTxtItems acc items) k = Some v
   \<Longrightarrow> (\<exists>i. v = Num i) \<or> map_of acc k = Some v"
proof (induction items arbitrary: acc)
  case Nil
  then show ?case by simp
next
  case (Cons item items)
  have d: "k \<notin> set txtStringKeys" using Cons.prems(1) by (auto simp: txtIntKeys_def txtStringKeys_def)
  show ?case
  proof (cases "jsSplit CHR ''='' item")
    case Nil
    then show ?thesis using Cons.prems Cons.IH [of acc] by simp
  next
    case c1: (Cons key rest)
    show ?thesis
    proof (cases rest)
      case Nil
      then show ?thesis using c1 Cons.prems Cons.IH [of acc] by simp
    next
      case c2: (Cons val rest2)
      show ?thesis
      proof (cases "key \<in> set txtIntKeys")
        case True
        show ?thesis
        proof (cases "parseInt val")
          case None
          then show ?thesis using c1 c2 True Cons.prems Cons.IH [of acc] by simp
        next
          case (Some i)
          with c1 c2 True Cons.prems(2)
          have "map_of (parseTxtItems (AList.update key (Num i) acc) items) k = Some v" by simp
          from Cons.IH [OF Cons.prems(1) this] show ?thesis
            by (auto simp: update_conv' split: if_splits)
        qed
      next
        case False
        then have kk: "key \<noteq> k" using Cons.prems(1) by auto
        show ?thesis
        proof (cases "key \<in> set txtStringKeys")
          case True
          with c1 c2 False Cons.prems(2)
          have "map_of (parseTxtItems (AList.update key (Str val) acc) items) k = Some v" by simp
          from Cons.IH [OF Cons.prems(1) this] kk show ?thesis
            by (auto simp: update_conv')
        next
          case f2: False
          then show ?thesis using c1 c2 False Cons.prems Cons.IH [of acc] by simp
        qed
      qed
    qed
  qed
qed

lemma map_of_setProperty: "map_of (setProperty k v obj) = (map_of obj)(k := v)"
  by (cases v) (simp_all add: setProperty_def update_conv' delete_conv')

lemma deriveVendorProduct_frame:
  "k \<noteq> ''V'' \<Longrightarrow> k \<noteq> ''P'' \<Longrightarrow> map_of (deriveVendorProduct p) k = map_of p k"
  by (simp add: deriveVendorProduct_def map_of_setProperty split: option.splits jsval.splits list.splits)

lemma deriveShortDiscriminator_frame:
  "k \<noteq> ''SD'' \<Longrightarrow> map_of (deriveShortDiscriminator p) k = map_of p k"
  by (simp add: deriveShortDiscriminator_def update_conv' split: option.splits jsval.splits)

lemma deriveShortDiscriminator_SD:
  "map_of p ''D'' = Some (Num d) \<Longrightarrow> map_of p ''SD'' = None
   \<Longrightarrow> map_of (deriveShortDiscriminator p) ''SD'' = Some (Num (jsBitAnd (jsShiftRight d 8) 15))"
  by (simp add: deriveShortDiscriminator_def update_conv')

lemma parseTxtRecord_other_key:
  "k \<notin> set txtIntKeys \<Longrightarrow> k \<notin> set txtStringKeys \<Longrightarrow> map_of (parseTxtRecord r) k = None"
  by (simp add: parseTxtRecord_def parseTxtItems_other_key split: DnsRecordValue.splits)

lemma parseTxtRecord_absent_key:
  "k \<notin> set (txtKeys r) \<Longrightarrow> map_of (parseTxtRecord r) k = None"
  by (cases "recordValue r") (simp_all add: parseTxtRecord_def txtKeys_def parseTxtItems_absent_key)

lemma parseTxtRecord_int_key:
  "k \<in> set txtIntKeys \<Longrightarrow> map_of (parseTxtRecord r) k = Some v \<Longrightarrow> \<exists>i. v = Num i"
  using parseTxtItems_int_key [of k "[]" _ v]
  by (cases "recordValue r") (auto simp: parseTxtRecord_def)

lemma parseCommissionableTxtRecord_Some:
  assumes "parseCommissionableTxtRecord now r = Some p"
  shows "map_of p ''addresses'' = Some (AddressMap [])"
    and "\<exists>d. map_of p ''D'' = Some (Num d)"
    and "map_of p ''SD'' = None"
    and "map_of p ''CM'' \<noteq> None"
proof -
  let ?base = "[(''addresses'', AddressMap []), (''expires'', Num (now + int (ttl r) * 1000))]"
  from assms have p: "p = AList.merge ?base (parseTxtRecord r)"
    and dc: "map_of p ''D'' \<noteq> None" "map_of p ''CM'' \<noteq> None"
    by (auto simp: parseCommissionableTxtRecord_def Let_def split: if_splits)
  have m: "map_of p = map_of ?base ++ map_of (parseTxtRecord r)"
    by (simp add: p merge_conv')
  have a: "map_of (parseTxtRecord r) ''addresses'' = None"
    by (rule parseTxtRecord_other_key) (simp_all add: txtIntKeys_def txtStringKeys_def)
  have sd: "map_of (parseTxtRecord r) ''SD'' = None"
    by (rule parseTxtRecord_other_key) (simp_all add: txtIntKeys_def txtStringKeys_def)
  show "map_of p ''addresses'' = Some (AddressMap [])" using a by (simp add: m map_add_def)
  show "map_of p ''SD'' = None" using sd by (simp add: m map_add_def)
  show "map_of p ''CM'' \<noteq> None" by (rule dc)
  from dc(1) obtain v where v: "map_of (parseTxtRecord r) ''D'' = Some v"
    by (auto simp: m map_add_def split: option.splits)
  then obtain d where "v = Num d"
    using parseTxtRecord_int_key [of "''D''" r v] by (auto simp: txtIntKeys_def)
  with v show "\<exists>d. map_of p ''D'' = Some (Num d)" by (simp add: m map_add_def)
qed

lemma parseCommissionableTxtRecord_None:
  "''D'' \<notin> set (txtKeys r) \<or> ''CM'' \<notin> set (txtKeys r) \<Longrightarrow> parseCommissionableTxtRecord now r = None"
  using parseTxtRecord_absent_key [of "''D''" r] parseTxtRecord_absent_key [of "''CM''" r]
  by (auto simp: parseCommissionableTxtRecord_def Let_def merge_conv' map_add_def)



lemma m15: "(15 :: 32 word) = mask 4"
  by (simp add: mask_eq_exp_minus_1)

lemma sd1: "(signed_drop_bit 8 (w :: 32 word)) AND 15 = take_bit 4 (drop_bit 8 w)"
  unfolding m15
  by (rule bit_word_eqI) (auto simp: bit_simps bit_signed_drop_bit_iff)

lemma sd2: "sint (take_bit 4 (x :: 32 word)) = take_bit 4 (uint x)"
  by (rule bit_eqI) (auto simp: bit_simps bit_signed_iff bit_unsigned_iff min_def)

lemma sd3: "take_bit 4 (uint (drop_bit 8 (word_of_int d :: 32 word))) = (d div 256) mod 16"
proof -
  have "take_bit 4 (uint (drop_bit 8 (word_of_int d :: 32 word))) = take_bit 4 (drop_bit 8 (take_bit 32 d))"
    by (simp add: unsigned_drop_bit_eq uint_word_of_int_eq)
  also have "\<dots> = take_bit 4 (drop_bit 8 d)"
    by (rule bit_eqI) (auto simp: bit_simps)
  also have "\<dots> = (d div 256) mod 16"
    by (simp add: take_bit_eq_mod drop_bit_eq_div)
  finally show ?thesis .
qed

lemma jsShortDiscriminator: "jsBitAnd (jsShiftRight d 8) 15 = (d div 256) mod 16"
  by (simp add: jsBitAnd_def jsShiftRight_def sd1 sd2 sd3)

section \<open>Properties of the caches\<close>

lemma srv_value: "recordType r = RT_SRV \<Longrightarrow> \<exists>a b c d. recordValue r = SrvValue a b c d"
  by (cases "recordValue r") (simp_all add: recordType_def)

lemma handleOperationalTxtRecord_goodbye:
  "ttl r = 0 \<Longrightarrow> map_of (operationalDeviceRecords (handleOperationalTxtRecord now r s)) (name r) = None"
  by (simp add: handleOperationalTxtRecord_def Let_def delete_conv')

lemma handleCommissionableTxtRecord_goodbye:
  "ttl r = 0 \<Longrightarrow>
   map_of (commissionableDeviceRecords (fst (handleCommissionableTxtRecord now r (s, missing)))) (name r) = None"
  by (simp add: handleCommissionableTxtRecord_def delete_conv')

lemma handleOperationalSrvRecord_goodbye:
  assumes "ttl r = 0" "recordType r = RT_SRV"
  shows "\<exists>s'. handleOperationalSrvRecord now r answers0 formerAnswers netInterface s = Inr s'
            \<and> map_of (operationalDeviceRecords s') (name r) = None
            \<and> (\<forall>n. n \<noteq> name r \<longrightarrow> map_of (operationalDeviceRecords s') n = map_of (operationalDeviceRecords s) n)"
proof -
  from srv_value [OF assms(2)] obtain a b c d where "recordValue r = SrvValue a b c d" by blast
  with assms(1) show ?thesis
    by (simp add: handleOperationalSrvRecord_def handleOperationalSrv_def Let_def delete_conv')
qed

lemma handleCommissionableSrvRecord_goodbye:
  assumes "ttl r = 0" "recordType r = RT_SRV"
  shows "\<exists>s' missing'. handleCommissionableSrvRecord toVendorId now answers0 formerAnswers netInterface r
              (s, missing) = Inr (s', missing')
            \<and> map_of (commissionableDeviceRecords s') (name r) = None"
proof -
  from srv_value [OF assms(2)] obtain a b c d where "recordValue r = SrvValue a b c d" by blast
  with assms(1) show ?thesis
    by (cases "map_of (commissionableDeviceRecords s) (name r)")
       (simp_all add: handleCommissionableSrvRecord_def handleCommissionableSrv_def delete_conv')
qed

lemma handleOperationalTxtRecord_others:
  "n \<noteq> name r \<Longrightarrow>
   map_of (operationalDeviceRecords (handleOperationalTxtRecord now r s)) n
     = map_of (operationalDeviceRecords s) n"
  by (simp add: handleOperationalTxtRecord_def Let_def delete_conv' update_conv')

lemma handleDnsMessage_srv_goodbye:
  assumes "\<not> closing s" "messageType m = Response \<or> messageType m = TruncatedResponse"
    and "find (isOperational RT_SRV) (answers m @ additionalRecords m) = Some r" "ttl r = 0"
  shows "\<exists>s'. handleDnsMessage toVendorId now (Some m) netInterface s = Inr s'
            \<and> map_of (operationalDeviceRecords s') (name r) = None"
proof -
  let ?answers = "answers m @ additionalRecords m"
  let ?former = "getActiveQueryEarlierAnswers s"
  let ?s1 = "(case find (isOperational RT_TXT) ?answers of
                Some r \<Rightarrow> handleOperationalTxtRecord now r s | None \<Rightarrow> s)"
  from assms(3) have "isOperational RT_SRV r" by (auto simp: find_Some_iff)
  then have t: "recordType r = RT_SRV" by (simp add: isOperational_def)
  from handleOperationalSrvRecord_goodbye [OF assms(4) t, of now ?answers ?former netInterface ?s1]
  obtain s' where s': "handleOperationalSrvRecord now r ?answers ?former netInterface ?s1 = Inr s'"
    "map_of (operationalDeviceRecords s') (name r) = None" by blast
  have "handleOperationalRecords now ?answers ?former netInterface s = Inr (True, s')"
    using assms(3) s'(1) by (simp add: handleOperationalRecords_def Let_def)
  then have "handleDnsMessage toVendorId now (Some m) netInterface s = Inr s'"
    using assms(1,2) by (auto simp: handleDnsMessage_def Let_def)
  with s'(2) show ?thesis by blast
qed

lemma handleDnsMessage_txt_goodbye:
  assumes "\<not> closing s" "messageType m = Response \<or> messageType m = TruncatedResponse"
    and "find (isOperational RT_TXT) (answers m @ additionalRecords m) = Some r" "ttl r = 0"
    and "\<forall>r2. firstOperationalSrv (answers m @ additionalRecords m) (getActiveQueryEarlierAnswers s) = Some r2
           \<longrightarrow> ttl r2 = 0"
  shows "\<exists>s'. handleDnsMessage toVendorId now (Some m) netInterface s = Inr s'
            \<and> map_of (operationalDeviceRecords s') (name r) = None"
proof -
  let ?answers = "answers m @ additionalRecords m"
  let ?former = "getActiveQueryEarlierAnswers s"
  let ?s1 = "handleOperationalTxtRecord now r s"
  have g: "map_of (operationalDeviceRecords ?s1) (name r) = None"
    by (rule handleOperationalTxtRecord_goodbye [OF assms(4)])
  show ?thesis
  proof (cases "firstOperationalSrv ?answers ?former")
    case None
    then have "handleOperationalRecords now ?answers ?former netInterface s = Inr (True, ?s1)"
      using assms(3) by (simp add: handleOperationalRecords_def firstOperationalSrv_def Let_def)
    then have "handleDnsMessage toVendorId now (Some m) netInterface s = Inr ?s1"
      using assms(1,2) by (auto simp: handleDnsMessage_def Let_def)
    with g show ?thesis by blast
  next
    case (Some r2)
    with assms(5) have z: "ttl r2 = 0" by simp
    from Some have "isOperational RT_SRV r2"
      by (auto simp: firstOperationalSrv_def find_Some_iff split: option.splits)
    then have t: "recordType r2 = RT_SRV" by (simp add: isOperational_def)
    from handleOperationalSrvRecord_goodbye [OF z t, of now ?answers ?former netInterface ?s1]
    obtain s' where s': "handleOperationalSrvRecord now r2 ?answers ?former netInterface ?s1 = Inr s'"
      "map_of (operationalDeviceRecords s') (name r2) = None"
      "\<forall>n. n \<noteq> name r2 \<longrightarrow> map_of (operationalDeviceRecords s') n = map_of (operationalDeviceRecords ?s1) n"
      by blast
    have "handleOperationalRecords now ?answers ?former netInterface s = Inr (True, s')"
      using assms(3) s'(1) Some by (simp add: handleOperationalRecords_def firstOperationalSrv_def Let_def)
    then have "handleDnsMessage toVendorId now (Some m) netInterface s = Inr s'"
      using assms(1,2) by (auto simp: handleDnsMessage_def Let_def)
    moreover have "map_of (operationalDeviceRecords s') (name r) = None"
      using s'(2,3) g by (cases "name r = name r2") auto
    ultimately show ?thesis by blast
  qed
qed

lemma ex_goodbye_two_txt:
  "handleDnsMessage exVendorId 1000 (Some exGoodbye) ''eth0'' exScannerTwoDevices
     = Inr (exScannerTwoDevices\<lparr>operationalDeviceRecords :=
              [(''A1B2-0002._matter._tcp.local'', exDevice ''A1B2-0002._matter._tcp.local'')]\<rparr>)"
  by (simp add: handleDnsMessage_def handleOperationalRecords_def isOperational_def recordType_def
      endsWith_def MATTER_SERVICE_QNAME_def handleOperationalTxtRecord_def exGoodbye_def exTxt_def
      exScannerTwoDevices_def newMdnsScanner_def getActiveQueryEarlierAnswers_def Let_def
      AList.delete_eq)

lemma ex_goodbye_two_commissionable_txt:
  "handleDnsMessage exVendorId 1000 (Some exGoodbyeCommissionable) ''eth0''
       exScannerTwoCommissionable
     = Inr (exScannerTwoCommissionable\<lparr>commissionableDeviceRecords := []\<rparr>)"
  by (simp add: handleDnsMessage_def handleOperationalRecords_def isOperational_def recordType_def
      endsWith_def MATTER_SERVICE_QNAME_def MATTER_COMMISSION_SERVICE_QNAME_def
      handleCommissionableRecords_def isCommissionable_def handleCommissionableTxtRecord_def
      exGoodbyeCommissionable_def exTxt_def exScannerTwoCommissionable_def newMdnsScanner_def
      getActiveQueryEarlierAnswers_def Let_def AList.delete_eq)

lemma ex_second_device_returned:
  "getOperationalDeviceRecords exIsIPv6 ''A1B2-0002._matter._tcp.local''
       (exScannerTwoDevices\<lparr>operationalDeviceRecords :=
          [(''A1B2-0002._matter._tcp.local'', exDevice ''A1B2-0002._matter._tcp.local'')]\<rparr>)
     = Inr (Some (AList.update ''addresses''
                    (AddressArray [\<lparr> ip = ''fd00::1'', port = 5540, type = ''udp'' \<rparr>])
                    (exDevice ''A1B2-0002._matter._tcp.local'')))"
  by (simp add: getOperationalDeviceRecords_def getAddresses_def exDevice_def sortServerEntries_def
      arraySort_def toServerAddressIp_def)

text \<open>
  Claim C4 at a failing input. A response carries a goodbye TXT record for each of two cached
  operational devices: only the entry of the first is removed, and the next call of
  \<^verbatim>\<open>getOperationalDeviceRecords\<close> for the second still returns the device. The same response
  for two cached commissionable devices removes both entries.
\<close>

theorem goodbye_second_operational_record:
  "answers exGoodbye = [exTxt ''A1B2-0001._matter._tcp.local'' 0 [],
                        exTxt ''A1B2-0002._matter._tcp.local'' 0 []]
   \<and> ttl (exTxt ''A1B2-0002._matter._tcp.local'' 0 []) = 0
   \<and> name (exTxt ''A1B2-0002._matter._tcp.local'' 0 []) = ''A1B2-0002._matter._tcp.local''
   \<and> map_of (operationalDeviceRecords exScannerTwoDevices) ''A1B2-0002._matter._tcp.local''
       = Some (exDevice ''A1B2-0002._matter._tcp.local'')
   \<and> handleDnsMessage exVendorId 1000 (Some exGoodbye) ''eth0'' exScannerTwoDevices
       = Inr (exScannerTwoDevices\<lparr>operationalDeviceRecords :=
                [(''A1B2-0002._matter._tcp.local'', exDevice ''A1B2-0002._matter._tcp.local'')]\<rparr>)
   \<and> getOperationalDeviceRecords exIsIPv6 ''A1B2-0002._matter._tcp.local''
         (exScannerTwoDevices\<lparr>operationalDeviceRecords :=
            [(''A1B2-0002._matter._tcp.local'', exDevice ''A1B2-0002._matter._tcp.local'')]\<rparr>)
       = Inr (Some (AList.update ''addresses''
                      (AddressArray [\<lparr> ip = ''fd00::1'', port = 5540, type = ''udp'' \<rparr>])
                      (exDevice ''A1B2-0002._matter._tcp.local'')))
   \<and> answers exGoodbyeCommissionable = [exTxt ''inst1._matterc._udp.local'' 0 [],
                                          exTxt ''inst2._matterc._udp.local'' 0 []]
   \<and> map_of (commissionableDeviceRecords exScannerTwoCommissionable) ''inst2._matterc._udp.local''
       = Some (exCommissionableDevice ''inst2'')
   \<and> handleDnsMessage exVendorId 1000 (Some exGoodbyeCommissionable) ''eth0''
         exScannerTwoCommissionable
       = Inr (exScannerTwoCommissionable\<lparr>commissionableDeviceRecords := []\<rparr>)"
proof -
  have "answers exGoodbye = [exTxt ''A1B2-0001._matter._tcp.local'' 0 [],
                        exTxt ''A1B2-0002._matter._tcp.local'' 0 []]"
    "ttl (exTxt ''A1B2-0002._matter._tcp.local'' 0 []) = 0"
    "name (exTxt ''A1B2-0002._matter._tcp.local'' 0 []) = ''A1B2-0002._matter._tcp.local''"
    "map_of (operationalDeviceRecords exScannerTwoDevices) ''A1B2-0002._matter._tcp.local''
       = Some (exDevice ''A1B2-0002._matter._tcp.local'')"
    "answers exGoodbyeCommissionable = [exTxt ''inst1._matterc._udp.local'' 0 [],
                                          exTxt ''inst2._matterc._udp.local'' 0 []]"
    "map_of (commissionableDeviceRecords exScannerTwoCommissionable) ''inst2._matterc._udp.local''
       = Some (exCommissionableDevice ''inst2'')"
    by (simp_all add: exGoodbye_def exTxt_def exScannerTwoDevices_def exGoodbyeCommissionable_def
        exScannerTwoCommissionable_def)
  with ex_goodbye_two_txt ex_second_device_returned ex_goodbye_two_commissionable_txt
  show ?thesis by blast
qed

text \<open>
  Claim C5. A commissionable TXT record without the key \<^verbatim>\<open>D\<close> or without the key \<^verbatim>\<open>CM\<close> is
  never stored: it does not parse, a round of the TXT loop on it with a TTL other than 0
  leaves the scanner as it is, and with a TTL of 0 no entry is left under its name. A record
  that parses with a TTL other than 0 is stored with its \<^verbatim>\<open>D\<close>, and its \<^verbatim>\<open>SD\<close>, which the
  parser never sets, is \<^verbatim>\<open>(D >> 8) & 0x0f\<close>, that is bits 8 to 11 of \<^verbatim>\<open>D\<close>.
\<close>

theorem commissionable_txt_required_fields:
  "(''D'' \<notin> set (txtKeys r) \<or> ''CM'' \<notin> set (txtKeys r) \<longrightarrow>
      parseCommissionableTxtRecord now r = None
      \<and> (ttl r \<noteq> 0 \<longrightarrow> handleCommissionableTxtRecord now r (s, missing) = (s, missing))
      \<and> (ttl r = 0 \<longrightarrow>
            commissionableDeviceRecords (fst (handleCommissionableTxtRecord now r (s, missing)))
              = AList.delete (name r) (commissionableDeviceRecords s)))
   \<and> (\<forall>p. ttl r \<noteq> 0 \<and> parseCommissionableTxtRecord now r = Some p \<longrightarrow>
         (\<exists>d. map_of p ''D'' = Some (Num d) \<and> map_of p ''SD'' = None
            \<and> commissionableProperty (fst (handleCommissionableTxtRecord now r (s, missing))) (name r) ''D''
                 = Some (Num d)
            \<and> commissionableProperty (fst (handleCommissionableTxtRecord now r (s, missing))) (name r) ''SD''
                 = Some (Num (jsBitAnd (jsShiftRight d 8) 15))
            \<and> jsBitAnd (jsShiftRight d 8) 15 = (d div 256) mod 16))"
proof -
  have a: "parseCommissionableTxtRecord now r = None
      \<and> (ttl r \<noteq> 0 \<longrightarrow> handleCommissionableTxtRecord now r (s, missing) = (s, missing))"
    if "''D'' \<notin> set (txtKeys r) \<or> ''CM'' \<notin> set (txtKeys r)"
    using parseCommissionableTxtRecord_None [OF that, of now]
    by (simp add: handleCommissionableTxtRecord_def)
  have z: "commissionableDeviceRecords (fst (handleCommissionableTxtRecord now r (s, missing)))
              = AList.delete (name r) (commissionableDeviceRecords s)" if "ttl r = 0"
  proof (cases "map_of (commissionableDeviceRecords s) (name r)")
    case None
    then have "name r \<notin> fst ` set (commissionableDeviceRecords s)" by (simp add: map_of_eq_None_iff)
    then have "AList.delete (name r) (commissionableDeviceRecords s) = commissionableDeviceRecords s"
      by (simp add: delete_id)
    with that None show ?thesis by (simp add: handleCommissionableTxtRecord_def)
  next
    case (Some a)
    with that show ?thesis by (simp add: handleCommissionableTxtRecord_def)
  qed
  have b: "\<exists>d. map_of p ''D'' = Some (Num d) \<and> map_of p ''SD'' = None
            \<and> commissionableProperty (fst (handleCommissionableTxtRecord now r (s, missing))) (name r) ''D''
                 = Some (Num d)
            \<and> commissionableProperty (fst (handleCommissionableTxtRecord now r (s, missing))) (name r) ''SD''
                 = Some (Num (jsBitAnd (jsShiftRight d 8) 15))
            \<and> jsBitAnd (jsShiftRight d 8) 15 = (d div 256) mod 16"
    if t: "ttl r \<noteq> 0" and p: "parseCommissionableTxtRecord now r = Some p" for p
  proof -
    from parseCommissionableTxtRecord_Some [OF p] obtain d where
      d: "map_of p ''D'' = Some (Num d)" and sd: "map_of p ''SD'' = None" by blast
    let ?p1 = "AList.update ''deviceIdentifier'' (Str (extractInstanceId (name r)))
                 (AList.update ''instanceId'' (Str (extractInstanceId (name r))) p)"
    let ?p2 = "deriveVendorProduct (deriveShortDiscriminator ?p1)"
    have d1: "map_of ?p1 ''D'' = Some (Num d)" and sd1: "map_of ?p1 ''SD'' = None"
      using d sd by (simp_all add: update_conv')
    have d2: "map_of ?p2 ''D'' = Some (Num d)"
      using d1 by (simp add: deriveVendorProduct_frame deriveShortDiscriminator_frame)
    have sd2: "map_of ?p2 ''SD'' = Some (Num (jsBitAnd (jsShiftRight d 8) 15))"
      using deriveShortDiscriminator_SD [OF d1 sd1] by (simp add: deriveVendorProduct_frame)
    have "commissionableProperty (fst (handleCommissionableTxtRecord now r (s, missing))) (name r) ''D''
                 = Some (Num d)
          \<and> commissionableProperty (fst (handleCommissionableTxtRecord now r (s, missing))) (name r) ''SD''
                 = Some (Num (jsBitAnd (jsShiftRight d 8) 15))"
      using t p d2 sd2
      by (cases "map_of (commissionableDeviceRecords s) (name r)")
         (simp_all add: handleCommissionableTxtRecord_def commissionableProperty_def Let_def
            update_conv' map_of_setProperty)
    with d sd jsShortDiscriminator [of d] show ?thesis by blast
  qed
  from a z b show ?thesis by blast
qed

lemma ex_split:
  "jsSplit CHR ''='' ''D=3840'' = [''D'', ''3840'']"
  "jsSplit CHR ''='' ''CM=1'' = [''CM'', ''1'']"
  "jsSplit CHR ''='' ''VP=65521+32768'' = [''VP'', ''65521+32768'']"
  "jsSplit CHR ''='' ''SII=5000'' = [''SII'', ''5000'']"
  "jsSplit CHR ''+'' ''65521+32768'' = [''65521'', ''32768'']"
  by simp_all

lemma ex_parseInt:
  "parseInt ''3840'' = Some 3840" "parseInt ''1'' = Some 1" "parseInt ''5000'' = Some 5000"
  "parseInt ''65521'' = Some 65521" "parseInt ''32768'' = Some 32768"
  by code_simp+

lemma ex_parseInt_number:
  "parseInt (CHR 0xA0 # '' 42abc'') = Some 42"
  "parseInt ''9007199254740993'' = Some 9007199254740992"
  "parseInt ''9007199254740995'' = Some 9007199254740996"
  "parseInt ''-0x20000000000001'' = Some (- 9007199254740992)"
  "parseInt ''0x'' = None"
  by code_simp+

lemma ex_parse_txt:
  "parseTxtRecord (exTxt n t [''D=3840'', ''CM=1'', ''VP=65521+32768''])
     = [(''D'', Num 3840), (''CM'', Num 1), (''VP'', Str ''65521+32768'')]"
  by (simp add: parseTxtRecord_def exTxt_def ex_split ex_parseInt txtIntKeys_def txtStringKeys_def)

lemma ex_parse_commissionable:
  "parseCommissionableTxtRecord 1000 (exTxt n 120 [''D=3840'', ''CM=1'', ''VP=65521+32768''])
     = Some [(''addresses'', AddressMap []), (''expires'', Num 121000),
             (''VP'', Str ''65521+32768''), (''CM'', Num 1), (''D'', Num 3840)]"
proof -
  have "isTxtValue (exTxt n 120 [''D=3840'', ''CM=1'', ''VP=65521+32768''])"
    "ttl (exTxt n 120 [''D=3840'', ''CM=1'', ''VP=65521+32768'']) = 120"
    by (simp_all add: exTxt_def isTxtValue_def)
  then show ?thesis
    by (simp add: parseCommissionableTxtRecord_def ex_parse_txt Let_def AList.merge_def)
qed

theorem commissionable_txt_required_fields_witness:
  "''CM'' \<notin> set (txtKeys (exTxt ''inst1._matterc._udp.local'' 120 [''D=3840'']))
   \<and> handleCommissionableTxtRecord 1000 (exTxt ''inst1._matterc._udp.local'' 120 [''D=3840''])
        (newMdnsScanner False, []) = (newMdnsScanner False, [])
   \<and> commissionableProperty
        (fst (handleCommissionableTxtRecord 1000
               (exTxt ''inst1._matterc._udp.local'' 120 [''D=3840'', ''CM=1'', ''VP=65521+32768''])
               (newMdnsScanner False, [])))
        ''inst1._matterc._udp.local'' ''SD'' = Some (Num 15)"
proof -
  let ?bad = "exTxt ''inst1._matterc._udp.local'' 120 [''D=3840'']"
  let ?good = "exTxt ''inst1._matterc._udp.local'' 120 [''D=3840'', ''CM=1'', ''VP=65521+32768'']"
  have 1: "''CM'' \<notin> set (txtKeys ?bad)" "ttl ?bad \<noteq> 0"
    by (simp_all add: txtKeys_def exTxt_def)
  have 2: "ttl ?good \<noteq> 0" "name ?good = ''inst1._matterc._udp.local''" by (simp_all add: exTxt_def)
  note p = ex_parse_commissionable [of "''inst1._matterc._udp.local''"]
  from commissionable_txt_required_fields [of ?bad 1000 "newMdnsScanner False" "[]"] 1
  have a: "handleCommissionableTxtRecord 1000 ?bad (newMdnsScanner False, []) = (newMdnsScanner False, [])"
    by blast
  from commissionable_txt_required_fields [of ?good 1000 "newMdnsScanner False" "[]"] 2 p
  have "commissionableProperty (fst (handleCommissionableTxtRecord 1000 ?good (newMdnsScanner False, [])))
          ''inst1._matterc._udp.local'' ''SD'' = Some (Num ((3840 div 256) mod 16))"
    by auto
  with a 1 show ?thesis by simp
qed

lemma handleOperationalTxtRecord_refresh:
  assumes "ttl r \<noteq> 0" "map_of (operationalDeviceRecords s) (name r) = Some device"
  shows "\<exists>device'. map_of (operationalDeviceRecords (handleOperationalTxtRecord now r s)) (name r) = Some device'
           \<and> map_of device' ''addresses'' = map_of device ''addresses''
           \<and> (\<forall>k. k \<notin> set txtIntKeys \<and> k \<notin> set txtStringKeys \<and> k \<noteq> ''expires''
                  \<longrightarrow> map_of device' k = map_of device k)
           \<and> (isTxtValue r \<longrightarrow> map_of device' ''expires'' = Some (Num (now + int (ttl r) * 1000)))"
proof (cases "isTxtValue r")
  case False
  with assms show ?thesis by (simp add: handleOperationalTxtRecord_def)
next
  case True
  let ?d = "AList.merge (AList.update ''expires'' (Num (now + int (ttl r) * 1000)) device) (parseTxtRecord r)"
  have s: "map_of (operationalDeviceRecords (handleOperationalTxtRecord now r s)) (name r) = Some ?d"
    using assms True by (simp add: handleOperationalTxtRecord_def Let_def update_conv')
  have f: "map_of ?d k = (if k = ''expires'' then Some (Num (now + int (ttl r) * 1000)) else map_of device k)"
    if "k \<notin> set txtIntKeys" "k \<notin> set txtStringKeys" for k
    using parseTxtRecord_other_key [OF that, of r]
    by (simp add: merge_conv' map_add_def update_conv')
  have "map_of ?d ''addresses'' = map_of device ''addresses''"
    using f [of "''addresses''"] by (simp add: txtIntKeys_def txtStringKeys_def)
  moreover have "map_of ?d ''expires'' = Some (Num (now + int (ttl r) * 1000))"
    using f [of "''expires''"] by (simp add: txtIntKeys_def txtStringKeys_def)
  moreover have "\<forall>k. k \<notin> set txtIntKeys \<and> k \<notin> set txtStringKeys \<and> k \<noteq> ''expires''
                  \<longrightarrow> map_of ?d k = map_of device k"
    using f by simp
  ultimately show ?thesis using s by - (rule exI [of _ ?d], simp)
qed

lemma handleCommissionableTxtRecord_refresh:
  assumes "ttl r \<noteq> 0" "map_of (commissionableDeviceRecords s) (name r) = Some stored"
  shows "\<exists>stored'. map_of (commissionableDeviceRecords
                        (fst (handleCommissionableTxtRecord now r (s, missing)))) (name r) = Some stored'
           \<and> map_of stored' ''addresses'' = map_of stored ''addresses''"
  using assms
  by (cases "parseCommissionableTxtRecord now r")
     (simp_all add: handleCommissionableTxtRecord_def Let_def update_conv' map_of_setProperty)

lemma handleCommissionableTxtRecord_others:
  "n \<noteq> name r \<Longrightarrow>
   map_of (commissionableDeviceRecords (fst (handleCommissionableTxtRecord now r (s, missing)))) n
     = map_of (commissionableDeviceRecords s) n"
  by (simp add: handleCommissionableTxtRecord_def Let_def update_conv' delete_conv'
      split: option.splits)

text \<open>
  Claim C10. A TXT record with a TTL other than 0 for a device that is already cached
  leaves the entry's \<^verbatim>\<open>addresses\<close> as they are. In the operational cache the entry keeps every
  property but the TXT keys and \<^verbatim>\<open>expires\<close>, which becomes the time of arrival plus the TTL;
  in either cache the entries under other names are untouched.
\<close>

theorem txt_refresh_keeps_addresses:
  "(ttl r \<noteq> 0 \<and> map_of (operationalDeviceRecords s) (name r) = Some device \<longrightarrow>
      (\<exists>device'. map_of (operationalDeviceRecords (handleOperationalTxtRecord now r s)) (name r)
                    = Some device'
         \<and> map_of device' ''addresses'' = map_of device ''addresses''
         \<and> (\<forall>k. k \<notin> set txtIntKeys \<and> k \<notin> set txtStringKeys \<and> k \<noteq> ''expires''
                \<longrightarrow> map_of device' k = map_of device k)
         \<and> (isTxtValue r \<longrightarrow> map_of device' ''expires'' = Some (Num (now + int (ttl r) * 1000)))))
   \<and> (ttl r \<noteq> 0 \<and> map_of (commissionableDeviceRecords s) (name r) = Some stored \<longrightarrow>
      (\<exists>stored'. map_of (commissionableDeviceRecords
                          (fst (handleCommissionableTxtRecord now r (s, missing)))) (name r)
                    = Some stored'
         \<and> map_of stored' ''addresses'' = map_of stored ''addresses''))
   \<and> (\<forall>n. n \<noteq> name r \<longrightarrow>
         map_of (operationalDeviceRecords (handleOperationalTxtRecord now r s)) n
           = map_of (operationalDeviceRecords s) n
         \<and> map_of (commissionableDeviceRecords
                     (fst (handleCommissionableTxtRecord now r (s, missing)))) n
           = map_of (commissionableDeviceRecords s) n)"
  using handleOperationalTxtRecord_refresh [of r s device now]
    handleCommissionableTxtRecord_refresh [of r s stored now missing]
    handleOperationalTxtRecord_others [of _ r now s]
    handleCommissionableTxtRecord_others [of _ r now s missing]
  by blast

lemma ex_parse_txt_operational:
  "parseTxtRecord (exTxt n t [''SII=5000'']) = [(''SII'', Num 5000)]"
  by (simp add: parseTxtRecord_def exTxt_def ex_split ex_parseInt txtIntKeys_def txtStringKeys_def)

theorem txt_refresh_keeps_addresses_witness:
  "map_of (operationalDeviceRecords exScannerTwoDevices) ''A1B2-0001._matter._tcp.local''
     = Some (exDevice ''A1B2-0001._matter._tcp.local'')
   \<and> operationalProperty
        (handleOperationalTxtRecord 1000 (exTxt ''A1B2-0001._matter._tcp.local'' 120 [''SII=5000''])
           exScannerTwoDevices)
        ''A1B2-0001._matter._tcp.local'' ''addresses''
       = map_of (exDevice ''A1B2-0001._matter._tcp.local'') ''addresses''
   \<and> operationalProperty
        (handleOperationalTxtRecord 1000 (exTxt ''A1B2-0001._matter._tcp.local'' 120 [''SII=5000''])
           exScannerTwoDevices)
        ''A1B2-0001._matter._tcp.local'' ''SII'' = Some (Num 5000)
   \<and> commissionableProperty exScannerCommissionable ''inst1._matterc._udp.local'' ''addresses''
       = Some (AddressMap [(''fd00::2'', \<lparr> ip = ''fd00::2'', port = 5540, type = ''udp'', expires = 120000 \<rparr>)])
   \<and> commissionableProperty
        (fst (handleCommissionableTxtRecord 1000
               (exTxt ''inst1._matterc._udp.local'' 120 [''D=3840'', ''CM=1'', ''VP=65521+32768''])
               (exScannerCommissionable, [])))
        ''inst1._matterc._udp.local'' ''addresses''
       = Some (AddressMap [(''fd00::2'', \<lparr> ip = ''fd00::2'', port = 5540, type = ''udp'', expires = 120000 \<rparr>)])"
proof -
  let ?n = "''A1B2-0001._matter._tcp.local''"
  let ?r = "exTxt ?n 120 [''SII=5000'']"
  let ?c = "exTxt ''inst1._matterc._udp.local'' 120 [''D=3840'', ''CM=1'', ''VP=65521+32768'']"
  let ?stored = "[(''addresses'', AddressMap [(''fd00::2'', \<lparr> ip = ''fd00::2'', port = 5540, type = ''udp'', expires = 120000 \<rparr>)]),
            (''expires'', Num 120000), (''D'', Num 3840), (''CM'', Num 1),
            (''instanceId'', Str ''inst1''), (''deviceIdentifier'', Str ''inst1''), (''SD'', Num 15)]"
  have 1: "ttl ?r \<noteq> 0" "name ?r = ?n" "ttl ?c \<noteq> 0" "name ?c = ''inst1._matterc._udp.local''"
    by (simp_all add: exTxt_def)
  have 2: "map_of (operationalDeviceRecords exScannerTwoDevices) ?n = Some (exDevice ?n)"
    by (simp add: exScannerTwoDevices_def)
  have 3: "map_of (commissionableDeviceRecords exScannerCommissionable) ''inst1._matterc._udp.local''
             = Some ?stored"
    by (simp add: exScannerCommissionable_def)
  have 4: "operationalProperty (handleOperationalTxtRecord 1000 ?r exScannerTwoDevices) ?n ''SII''
             = Some (Num 5000)"
  proof -
    have i: "isTxtValue ?r" by (simp add: exTxt_def isTxtValue_def)
    show ?thesis
      using 1 2 i
      by (simp add: operationalProperty_def handleOperationalTxtRecord_def Let_def
            ex_parse_txt_operational merge_conv' update_conv')
  qed
  note t = txt_refresh_keeps_addresses [of ?r exScannerTwoDevices "exDevice ?n" 1000 ?stored "[]"]
    txt_refresh_keeps_addresses [of ?c exScannerCommissionable "[]" 1000 ?stored "[]"]
  from t(1) 1 2 have a: "operationalProperty (handleOperationalTxtRecord 1000 ?r exScannerTwoDevices) ?n ''addresses''
       = map_of (exDevice ?n) ''addresses''"
    by (auto simp: operationalProperty_def)
  from t(2) 1 3 have b: "commissionableProperty
        (fst (handleCommissionableTxtRecord 1000 ?c (exScannerCommissionable, [])))
        ''inst1._matterc._udp.local'' ''addresses'' = map_of ?stored ''addresses''"
    by (auto simp: commissionableProperty_def)
  have c: "commissionableProperty exScannerCommissionable ''inst1._matterc._udp.local'' ''addresses''
       = map_of ?stored ''addresses''"
    using 3 by (simp add: commissionableProperty_def)
  from 2 4 a b c show ?thesis by simp
qed

section \<open>Properties of goodbye records\<close>

lemma commissionableDeviceRecords_setQueryRecords:
  "commissionableDeviceRecords (setQueryRecords queryId queries0 answers0 s)
     = commissionableDeviceRecords s"
  by (simp add: setQueryRecords_def storeQueryRecords_def Let_def split: option.splits)

lemma commissionableDeviceRecords_finishWaiter:
  "commissionableDeviceRecords (finishWaiter queryId resolvePromise isUpdatedRecord s)
     = commissionableDeviceRecords s"
  by (simp add: finishWaiter_def split: option.splits)

lemma operationalDeviceRecords_setQueryRecords:
  "operationalDeviceRecords (setQueryRecords queryId queries0 answers0 s)
     = operationalDeviceRecords s"
  by (simp add: setQueryRecords_def storeQueryRecords_def Let_def split: option.splits)

lemma operationalDeviceRecords_finishWaiter:
  "operationalDeviceRecords (finishWaiter queryId resolvePromise isUpdatedRecord s)
     = operationalDeviceRecords s"
  by (simp add: finishWaiter_def split: option.splits)

lemma find_filter: "find P (filter Q xs) = find (\<lambda>x. Q x \<and> P x) xs"
  by (induction xs) simp_all

lemma fold_handleCommissionableTxtRecord_goodbye:
  assumes "find (\<lambda>r. name r = n) (rev txtRecords) = Some r" and "ttl r = 0"
  shows "map_of (commissionableDeviceRecords
                   (fst (fold (handleCommissionableTxtRecord now) txtRecords state))) n = None"
  using assms(1)
proof (induction txtRecords rule: rev_induct)
  case Nil
  then show ?case by simp
next
  case (snoc x xs)
  obtain s1 missing1 where st: "fold (handleCommissionableTxtRecord now) xs state = (s1, missing1)"
    by (cases "fold (handleCommissionableTxtRecord now) xs state")
  show ?case
  proof (cases "name x = n")
    case True
    with snoc.prems have "x = r" by simp
    with assms(2) True handleCommissionableTxtRecord_goodbye [of x now s1 missing1]
    show ?thesis by (simp add: st)
  next
    case False
    with snoc.prems have "find (\<lambda>r. name r = n) (rev xs) = Some r" by simp
    from snoc.IH [OF this] st have "map_of (commissionableDeviceRecords s1) n = None" by simp
    with handleCommissionableTxtRecord_others [of n x now s1 missing1] False
    show ?thesis by (auto simp: st)
  qed
qed

lemma handleCommissionableSrv_records:
  assumes "handleCommissionableSrv toVendorId now answers0 formerAnswers netInterface r target port0
             storedRecord (s, missing) = Inr (s1, missing1)"
  shows "commissionableDeviceRecords s1 = AList.delete (name r) (commissionableDeviceRecords s)
         \<or> (\<exists>v. commissionableDeviceRecords s1
                   = AList.update (name r) v (commissionableDeviceRecords s))"
  using assms unfolding handleCommissionableSrv_def Let_def
  by (auto simp: commissionableDeviceRecords_setQueryRecords commissionableDeviceRecords_finishWaiter
      split: if_splits sum.splits option.splits)

lemma handleCommissionableSrvRecord_absent:
  assumes "handleCommissionableSrvRecord toVendorId now answers0 formerAnswers netInterface r state
           = Inr state1"
    and "map_of (commissionableDeviceRecords (fst state)) n = None"
  shows "map_of (commissionableDeviceRecords (fst state1)) n = None"
proof (cases "map_of (commissionableDeviceRecords (fst state)) (name r)")
  case None
  with assms show ?thesis by (simp add: handleCommissionableSrvRecord_def)
next
  case (Some storedRecord)
  with assms(2) have ne: "name r \<noteq> n" by auto
  obtain s missing where st: "state = (s, missing)" by (cases state)
  obtain s1 missing1 where st1: "state1 = (s1, missing1)" by (cases state1)
  from assms(1) Some obtain port0 target where
    h: "handleCommissionableSrv toVendorId now answers0 formerAnswers netInterface r target port0
          storedRecord (s, missing) = Inr (s1, missing1)"
    unfolding handleCommissionableSrvRecord_def st st1
    by (cases "recordValue r") simp_all
  from handleCommissionableSrv_records [OF h] assms(2) ne show ?thesis
    unfolding st st1 by (auto simp: delete_conv' update_conv')
qed

lemma handleCommissionableSrvRecord_goodbye_absent:
  assumes "handleCommissionableSrvRecord toVendorId now answers0 formerAnswers netInterface r state
           = Inr state1"
    and "ttl r = 0" and "recordType r = RT_SRV"
  shows "map_of (commissionableDeviceRecords (fst state1)) (name r) = None"
proof -
  obtain s missing where st: "state = (s, missing)" by (cases state)
  from handleCommissionableSrvRecord_goodbye [OF assms(2,3), of toVendorId now answers0
      formerAnswers netInterface s missing] assms(1)
  show ?thesis unfolding st by auto
qed

lemma foldE_handleCommissionableSrvRecord_absent:
  "foldE (handleCommissionableSrvRecord toVendorId now answers0 formerAnswers netInterface)
     srvRecords state = Inr state1
   \<Longrightarrow> map_of (commissionableDeviceRecords (fst state)) n = None
       \<or> (\<exists>r \<in> set srvRecords. name r = n \<and> ttl r = 0 \<and> recordType r = RT_SRV)
   \<Longrightarrow> map_of (commissionableDeviceRecords (fst state1)) n = None"
proof (induction srvRecords arbitrary: state)
  case Nil
  then show ?case by simp
next
  case (Cons x xs)
  let ?f = "handleCommissionableSrvRecord toVendorId now answers0 formerAnswers netInterface"
  from Cons.prems(1) obtain state2 where x: "?f x state = Inr state2"
    by (cases "?f x state") simp_all
  with Cons.prems(1) have xs: "foldE ?f xs state2 = Inr state1" by simp
  have "map_of (commissionableDeviceRecords (fst state2)) n = None
        \<or> (\<exists>r \<in> set xs. name r = n \<and> ttl r = 0 \<and> recordType r = RT_SRV)"
  proof (cases "map_of (commissionableDeviceRecords (fst state)) n = None")
    case True
    from handleCommissionableSrvRecord_absent [OF x True] show ?thesis ..
  next
    case False
    with Cons.prems(2) obtain r where
      r: "r \<in> set (x # xs)" "name r = n" "ttl r = 0" "recordType r = RT_SRV" by blast
    show ?thesis
    proof (cases "r = x")
      case True
      from handleCommissionableSrvRecord_goodbye_absent [OF x] r(2,3,4) True
      show ?thesis by simp
    next
      case False
      with r(1) have "r \<in> set xs" by simp
      with r(2,3,4) show ?thesis by blast
    qed
  qed
  with Cons.IH [OF xs] show ?case .
qed

lemma queryMissingData_records:
  "queryMissingData toVendorId answers0 n s = Inr s1
   \<Longrightarrow> commissionableDeviceRecords s1 = commissionableDeviceRecords s"
  unfolding queryMissingData_def
  by (auto simp: commissionableDeviceRecords_setQueryRecords split: option.splits sum.splits)

lemma foldE_queryMissingData_records:
  "foldE (queryMissingData toVendorId answers0) names s = Inr s1
   \<Longrightarrow> commissionableDeviceRecords s1 = commissionableDeviceRecords s"
proof (induction names arbitrary: s)
  case Nil
  then show ?case by simp
next
  case (Cons n names)
  from Cons.prems obtain s2 where
    "queryMissingData toVendorId answers0 n s = Inr s2"
    "foldE (queryMissingData toVendorId answers0) names s2 = Inr s1"
    by (auto split: sum.splits)
  with Cons.IH [of s2] queryMissingData_records [of toVendorId answers0 n s s2]
  show ?case by simp
qed

lemma handleCommissionableRecords_goodbye:
  assumes "handleCommissionableRecords toVendorId now answers0 formerAnswers netInterface s = Inr s1"
    and "r \<in> set (commissionableRecordsOf answers0 formerAnswers)" and "ttl r = 0"
    and "recordType r = RT_SRV
         \<or> (\<exists>r1. lastTxtRecord (name r) (commissionableRecordsOf answers0 formerAnswers) = Some r1
                  \<and> ttl r1 = 0)"
  shows "map_of (commissionableDeviceRecords s1) (name r) = None"
proof -
  let ?records = "commissionableRecordsOf answers0 formerAnswers"
  let ?txt = "filter (\<lambda>r. recordType r = RT_TXT) ?records"
  let ?srv = "filter (\<lambda>r. recordType r = RT_SRV) ?records"
  let ?afterTxt = "fold (handleCommissionableTxtRecord now) ?txt (s, [])"
  from assms(2) have ne: "?records \<noteq> []" by auto
  with assms(1) obtain s2 missing where
    srv: "foldE (handleCommissionableSrvRecord toVendorId now answers0 formerAnswers netInterface)
            ?srv ?afterTxt = Inr (s2, missing)"
    and q: "foldE (queryMissingData toVendorId answers0) missing s2 = Inr s1"
    unfolding handleCommissionableRecords_def commissionableRecordsOf_def
    by (auto simp: Let_def split: if_splits sum.splits)
  have "map_of (commissionableDeviceRecords (fst ?afterTxt)) (name r) = None
         \<or> (\<exists>r1 \<in> set ?srv. name r1 = name r \<and> ttl r1 = 0 \<and> recordType r1 = RT_SRV)"
    using assms(4)
  proof
    assume "recordType r = RT_SRV"
    with assms(2,3) show ?thesis by auto
  next
    assume "\<exists>r1. lastTxtRecord (name r) ?records = Some r1 \<and> ttl r1 = 0"
    then obtain r1 where l: "lastTxtRecord (name r) ?records = Some r1" and z: "ttl r1 = 0" by blast
    from l have "find (\<lambda>x. name x = name r) (rev ?txt) = Some r1"
      unfolding lastTxtRecord_def rev_filter find_filter .
    from fold_handleCommissionableTxtRecord_goodbye [OF this z] show ?thesis by blast
  qed
  from foldE_handleCommissionableSrvRecord_absent [OF srv this]
  have "map_of (commissionableDeviceRecords s2) (name r) = None" by simp
  with foldE_queryMissingData_records [OF q] show ?thesis by simp
qed

lemma handleDnsMessage_commissionable_goodbye:
  assumes "\<not> closing s" "messageType m = Response \<or> messageType m = TruncatedResponse"
    and "find (isOperational RT_TXT) (answers m @ additionalRecords m) = None"
    and "firstOperationalSrv (answers m @ additionalRecords m) (getActiveQueryEarlierAnswers s) = None"
    and "handleDnsMessage toVendorId now (Some m) netInterface s = Inr s1"
    and "r \<in> set (commissionableRecordsOf (answers m @ additionalRecords m)
                    (getActiveQueryEarlierAnswers s))"
    and "ttl r = 0"
    and "recordType r = RT_SRV
         \<or> (\<exists>r1. lastTxtRecord (name r)
                    (commissionableRecordsOf (answers m @ additionalRecords m)
                       (getActiveQueryEarlierAnswers s)) = Some r1
                  \<and> ttl r1 = 0)"
  shows "map_of (commissionableDeviceRecords s1) (name r) = None"
proof -
  let ?answers = "answers m @ additionalRecords m"
  let ?former = "getActiveQueryEarlierAnswers s"
  have "handleOperationalRecords now ?answers ?former netInterface s = Inr (False, s)"
    using assms(3,4) by (simp add: handleOperationalRecords_def firstOperationalSrv_def Let_def)
  with assms(1,2,5)
  have "handleCommissionableRecords toVendorId now ?answers ?former netInterface s = Inr s1"
    by (auto simp: handleDnsMessage_def Let_def)
  from handleCommissionableRecords_goodbye [OF this assms(6,7,8)] show ?thesis .
qed

lemma lastTtl_snoc:
  "lastTtl ip0 (ips @ [entry]) = (if fst entry = ip0 then Some (snd entry) else lastTtl ip0 ips)"
  by (simp add: lastTtl_def)

lemma setCommissionableIp_goodbye:
  "map_of (setCommissionableIp now port0 (ip0, 0) addresses) ip0 = None"
  by (simp add: setCommissionableIp_def delete_conv')

lemma setCommissionableIp_other:
  "ip1 \<noteq> ip0
   \<Longrightarrow> map_of (setCommissionableIp now port0 (ip1, ttl1) addresses) ip0 = map_of addresses ip0"
  by (simp add: setCommissionableIp_def delete_conv' update_conv')

lemma fold_setCommissionableIp_goodbye:
  "lastTtl ip0 ips = Some 0
   \<Longrightarrow> map_of (fold (setCommissionableIp now port0) ips addresses) ip0 = None"
proof (induction ips rule: rev_induct)
  case Nil
  then show ?case by (simp add: lastTtl_def)
next
  case (snoc entry ips)
  obtain ip1 ttl1 where e: "entry = (ip1, ttl1)" by (cases entry)
  let ?before = "fold (setCommissionableIp now port0) ips addresses"
  have f: "fold (setCommissionableIp now port0) (ips @ [entry]) addresses
           = setCommissionableIp now port0 (ip1, ttl1) ?before"
    by (simp add: e)
  show ?case
  proof (cases "ip1 = ip0")
    case True
    with snoc.prems e have "ttl1 = 0" by (simp add: lastTtl_snoc)
    with True show ?thesis unfolding f by (simp only: setCommissionableIp_goodbye)
  next
    case False
    with snoc.prems e have "lastTtl ip0 ips = Some 0" by (simp add: lastTtl_snoc)
    from snoc.IH [OF this] setCommissionableIp_other [OF False, of now port0 ttl1]
    show ?thesis unfolding f by simp
  qed
qed

lemma keyedByIp_delete: "keyedByIp addresses \<Longrightarrow> keyedByIp (AList.delete k addresses)"
  by (simp add: keyedByIp_def AList.delete_eq list_all_iff)

lemma keyedByIp_update:
  "keyedByIp addresses \<Longrightarrow> ip v = k \<Longrightarrow> keyedByIp (AList.update k v addresses)"
  by (induction addresses) (auto simp: keyedByIp_def)

lemma ip_refreshedServer:
  "keyedByIp addresses \<Longrightarrow> ip (refreshedServer now port0 ip1 ttl1 addresses) = ip1"
proof (cases "map_of addresses ip1")
  case None
  then show ?thesis by (simp add: refreshedServer_def)
next
  case (Some matterServer)
  assume "keyedByIp addresses"
  moreover from Some have "(ip1, matterServer) \<in> set addresses" by (rule map_of_SomeD)
  ultimately have "ip matterServer = ip1" by (auto simp: keyedByIp_def list_all_iff)
  with Some show ?thesis by (simp add: refreshedServer_def)
qed

lemma keyedByIp_setOperationalIp:
  "keyedByIp addresses \<Longrightarrow> keyedByIp (setOperationalIp now port0 entry addresses)"
  by (cases entry)
     (simp add: setOperationalIp_def Let_def keyedByIp_delete keyedByIp_update ip_refreshedServer)

lemma keyedByIp_fold_setOperationalIp:
  "keyedByIp addresses \<Longrightarrow> keyedByIp (fold (setOperationalIp now port0) ips addresses)"
  by (induction ips arbitrary: addresses) (simp_all add: keyedByIp_setOperationalIp)

lemma setOperationalIp_goodbye:
  "map_of (setOperationalIp now port0 (ip0, 0) addresses) ip0 = None"
  by (simp add: setOperationalIp_def delete_conv')

lemma setOperationalIp_other:
  assumes "keyedByIp addresses" and "ip1 \<noteq> ip0"
  shows "map_of (setOperationalIp now port0 (ip1, ttl1) addresses) ip0 = map_of addresses ip0"
  using ip_refreshedServer [OF assms(1), of now port0 ip1 ttl1] assms(2)
  by (simp add: setOperationalIp_def Let_def delete_conv' update_conv')

lemma fold_setOperationalIp_goodbye:
  assumes "keyedByIp addresses"
  shows "lastTtl ip0 ips = Some 0
         \<Longrightarrow> map_of (fold (setOperationalIp now port0) ips addresses) ip0 = None"
proof (induction ips rule: rev_induct)
  case Nil
  then show ?case by (simp add: lastTtl_def)
next
  case (snoc entry ips)
  obtain ip1 ttl1 where e: "entry = (ip1, ttl1)" by (cases entry)
  let ?before = "fold (setOperationalIp now port0) ips addresses"
  have k: "keyedByIp ?before" using assms by (rule keyedByIp_fold_setOperationalIp)
  have f: "fold (setOperationalIp now port0) (ips @ [entry]) addresses
           = setOperationalIp now port0 (ip1, ttl1) ?before"
    by (simp add: e)
  show ?case
  proof (cases "ip1 = ip0")
    case True
    with snoc.prems e have "ttl1 = 0" by (simp add: lastTtl_snoc)
    with True show ?thesis unfolding f by (simp only: setOperationalIp_goodbye)
  next
    case False
    with snoc.prems e have "lastTtl ip0 ips = Some 0" by (simp add: lastTtl_snoc)
    from snoc.IH [OF this] setOperationalIp_other [OF k False, of now port0 ttl1]
    show ?thesis unfolding f by simp
  qed
qed

lemma lastTtl_nonempty: "lastTtl ip0 ips = Some t \<Longrightarrow> ips \<noteq> []"
  by (auto simp: lastTtl_def)

lemma getAddresses_update:
  "getAddresses (AList.update ''addresses'' (AddressMap addresses) device) = Inr addresses"
  by (simp add: getAddresses_def update_conv')

lemma handleOperationalSrvRecord_ip_goodbye:
  assumes h: "handleOperationalSrvRecord now r answers0 formerAnswers netInterface s = Inr s1"
    and v: "recordValue r = SrvValue priority0 weight0 port0 target"
    and t: "ttl r \<noteq> 0"
    and l: "lastTtl ip0 (handleIpRecords (enableIpv4 s) (answers0 @ formerAnswers) target
                          netInterface) = Some 0"
    and k: "case operationalAddresses s (name r) of
              Some addresses \<Rightarrow> keyedByIp addresses | None \<Rightarrow> True"
  shows "\<exists>addresses. operationalAddresses s1 (name r) = Some addresses
                     \<and> map_of addresses ip0 = None"
proof -
  let ?ips = "handleIpRecords (enableIpv4 s) (answers0 @ formerAnswers) target netInterface"
  let ?device = "(case map_of (operationalDeviceRecords s) (name r) of
                    Some device0 \<Rightarrow> device0
                  | None \<Rightarrow>
                      [(''deviceIdentifier'', Str (name r)), (''addresses'', AddressMap []),
                       (''expires'', Num (now + int (ttl r) * 1000))])"
  from h v t obtain addresses0 where a: "getAddresses ?device = Inr addresses0"
    by (cases "getAddresses ?device")
       (simp_all add: handleOperationalSrvRecord_def handleOperationalSrv_def Let_def)
  have k0: "keyedByIp addresses0"
  proof (cases "map_of (operationalDeviceRecords s) (name r)")
    case None
    with a show ?thesis by (simp add: getAddresses_def keyedByIp_def)
  next
    case (Some device0)
    with a k show ?thesis by (simp add: operationalAddresses_def)
  qed
  let ?addresses = "fold (setOperationalIp now port0) ?ips addresses0"
  let ?stored = "AList.update ''addresses'' (AddressMap ?addresses) ?device"
  from lastTtl_nonempty [OF l] have ne: "?ips \<noteq> []" .
  from h v t a ne have "operationalDeviceRecords s1
        = AList.update (name r) ?stored (operationalDeviceRecords s)"
    unfolding handleOperationalSrvRecord_def handleOperationalSrv_def Let_def
    by (auto simp: operationalDeviceRecords_setQueryRecords operationalDeviceRecords_finishWaiter
        split: if_splits)
  then have "operationalAddresses s1 (name r) = Some ?addresses"
    by (simp add: operationalAddresses_def update_conv' getAddresses_update)
  with fold_setOperationalIp_goodbye [OF k0 l] show ?thesis by blast
qed

lemma handleCommissionableSrvRecord_ip_goodbye:
  assumes h: "handleCommissionableSrvRecord toVendorId now answers0 formerAnswers netInterface r
                (s, missing) = Inr (s1, missing1)"
    and v: "recordValue r = SrvValue priority0 weight0 port0 target"
    and t: "ttl r \<noteq> 0"
    and c: "map_of (commissionableDeviceRecords s) (name r) \<noteq> None"
    and l: "lastTtl ip0 (handleIpRecords (enableIpv4 s) (answers0 @ formerAnswers) target
                          netInterface) = Some 0"
  shows "\<exists>addresses. commissionableAddresses s1 (name r) = Some addresses
                     \<and> map_of addresses ip0 = None"
proof -
  let ?ips = "handleIpRecords (enableIpv4 s) (answers0 @ formerAnswers) target netInterface"
  from c obtain storedRecord where
    st: "map_of (commissionableDeviceRecords s) (name r) = Some storedRecord" by blast
  with h v have hs: "handleCommissionableSrv toVendorId now answers0 formerAnswers netInterface r
                       target port0 storedRecord (s, missing) = Inr (s1, missing1)"
    by (simp add: handleCommissionableSrvRecord_def)
  with t obtain addresses0 where a: "getAddresses storedRecord = Inr addresses0"
    by (cases "getAddresses storedRecord") (simp_all add: handleCommissionableSrv_def)
  let ?addresses = "fold (setCommissionableIp now port0) ?ips addresses0"
  let ?stored = "AList.update ''addresses'' (AddressMap ?addresses) storedRecord"
  from hs t a have "commissionableDeviceRecords s1
        = AList.update (name r) ?stored (commissionableDeviceRecords s)"
    unfolding handleCommissionableSrv_def Let_def
    by (auto simp: commissionableDeviceRecords_setQueryRecords
          commissionableDeviceRecords_finishWaiter
        split: if_splits sum.splits option.splits)
  then have "commissionableAddresses s1 (name r) = Some ?addresses"
    by (simp add: commissionableAddresses_def update_conv' getAddresses_update)
  with fold_setCommissionableIp_goodbye [OF l] show ?thesis by blast
qed

text \<open>
  Goodbye records that are acted upon. When the first operational SRV record of a response has
  a TTL of 0, or the first operational TXT record has and the SRV record handled after it, if
  any, has too, no entry is left under its name when \<^verbatim>\<open>handleDnsMessage\<close> returns. When no
  operational record is handled and \<^verbatim>\<open>handleDnsMessage\<close> returns, no commissionable entry is
  left under the name of any SRV record with a TTL of 0 among the commissionable records
  worked on, nor under the name of any TXT record with a TTL of 0 among them whose name has a
  TTL of 0 in its last TXT record. A round of \<^verbatim>\<open>handleOperationalSrvRecord\<close> or of the
  commissionable SRV loop on a record with another TTL leaves the entry of the record without
  every address whose last A or AAAA record, among the answers and the earlier answers for
  the target, has a TTL of 0.
\<close>

theorem goodbye_handling:
  "(\<not> closing s \<and> (messageType m = Response \<or> messageType m = TruncatedResponse)
      \<and> find (isOperational RT_SRV) (answers m @ additionalRecords m) = Some r \<and> ttl r = 0
     \<longrightarrow> (\<exists>s1. handleDnsMessage toVendorId now (Some m) netInterface s = Inr s1
               \<and> map_of (operationalDeviceRecords s1) (name r) = None))
   \<and> (\<not> closing s \<and> (messageType m = Response \<or> messageType m = TruncatedResponse)
        \<and> find (isOperational RT_TXT) (answers m @ additionalRecords m) = Some r \<and> ttl r = 0
        \<and> (\<forall>r2. firstOperationalSrv (answers m @ additionalRecords m)
                    (getActiveQueryEarlierAnswers s) = Some r2 \<longrightarrow> ttl r2 = 0)
       \<longrightarrow> (\<exists>s1. handleDnsMessage toVendorId now (Some m) netInterface s = Inr s1
                 \<and> map_of (operationalDeviceRecords s1) (name r) = None))
   \<and> (\<not> closing s \<and> (messageType m = Response \<or> messageType m = TruncatedResponse)
        \<and> find (isOperational RT_TXT) (answers m @ additionalRecords m) = None
        \<and> firstOperationalSrv (answers m @ additionalRecords m)
             (getActiveQueryEarlierAnswers s) = None
        \<and> handleDnsMessage toVendorId now (Some m) netInterface s = Inr afterMessage
        \<and> r \<in> set (commissionableRecordsOf (answers m @ additionalRecords m)
                       (getActiveQueryEarlierAnswers s))
        \<and> ttl r = 0
        \<and> (recordType r = RT_SRV
            \<or> (\<exists>r1. lastTxtRecord (name r)
                       (commissionableRecordsOf (answers m @ additionalRecords m)
                          (getActiveQueryEarlierAnswers s)) = Some r1
                     \<and> ttl r1 = 0))
       \<longrightarrow> map_of (commissionableDeviceRecords afterMessage) (name r) = None)
   \<and> (handleOperationalSrvRecord now srv records formerAnswers netInterface s = Inr afterOperational
        \<and> recordValue srv = SrvValue srvPriority srvWeight srvPort target \<and> ttl srv \<noteq> 0
        \<and> lastTtl address (handleIpRecords (enableIpv4 s) (records @ formerAnswers) target
                              netInterface) = Some 0
        \<and> (case operationalAddresses s (name srv) of
              Some addresses \<Rightarrow> keyedByIp addresses | None \<Rightarrow> True)
       \<longrightarrow> (\<exists>addresses. operationalAddresses afterOperational (name srv) = Some addresses
                         \<and> map_of addresses address = None))
   \<and> (handleCommissionableSrvRecord toVendorId now records formerAnswers netInterface srv
          (s, missing) = Inr (afterCommissionable, missingAfter)
        \<and> recordValue srv = SrvValue srvPriority srvWeight srvPort target \<and> ttl srv \<noteq> 0
        \<and> map_of (commissionableDeviceRecords s) (name srv) \<noteq> None
        \<and> lastTtl address (handleIpRecords (enableIpv4 s) (records @ formerAnswers) target
                              netInterface) = Some 0
       \<longrightarrow> (\<exists>addresses. commissionableAddresses afterCommissionable (name srv) = Some addresses
                         \<and> map_of addresses address = None))"
proof (intro conjI impI)
  assume "\<not> closing s \<and> (messageType m = Response \<or> messageType m = TruncatedResponse)
      \<and> find (isOperational RT_SRV) (answers m @ additionalRecords m) = Some r \<and> ttl r = 0"
  then show "\<exists>s1. handleDnsMessage toVendorId now (Some m) netInterface s = Inr s1
               \<and> map_of (operationalDeviceRecords s1) (name r) = None"
    by (elim conjE) (rule handleDnsMessage_srv_goodbye)
next
  assume "\<not> closing s \<and> (messageType m = Response \<or> messageType m = TruncatedResponse)
        \<and> find (isOperational RT_TXT) (answers m @ additionalRecords m) = Some r \<and> ttl r = 0
        \<and> (\<forall>r2. firstOperationalSrv (answers m @ additionalRecords m)
                    (getActiveQueryEarlierAnswers s) = Some r2 \<longrightarrow> ttl r2 = 0)"
  then show "\<exists>s1. handleDnsMessage toVendorId now (Some m) netInterface s = Inr s1
                 \<and> map_of (operationalDeviceRecords s1) (name r) = None"
    by (elim conjE) (rule handleDnsMessage_txt_goodbye)
next
  assume "\<not> closing s \<and> (messageType m = Response \<or> messageType m = TruncatedResponse)
        \<and> find (isOperational RT_TXT) (answers m @ additionalRecords m) = None
        \<and> firstOperationalSrv (answers m @ additionalRecords m)
             (getActiveQueryEarlierAnswers s) = None
        \<and> handleDnsMessage toVendorId now (Some m) netInterface s = Inr afterMessage
        \<and> r \<in> set (commissionableRecordsOf (answers m @ additionalRecords m)
                       (getActiveQueryEarlierAnswers s))
        \<and> ttl r = 0
        \<and> (recordType r = RT_SRV
            \<or> (\<exists>r1. lastTxtRecord (name r)
                       (commissionableRecordsOf (answers m @ additionalRecords m)
                          (getActiveQueryEarlierAnswers s)) = Some r1
                     \<and> ttl r1 = 0))"
  then show "map_of (commissionableDeviceRecords afterMessage) (name r) = None"
    by (elim conjE) (rule handleDnsMessage_commissionable_goodbye)
next
  assume "handleOperationalSrvRecord now srv records formerAnswers netInterface s = Inr afterOperational
        \<and> recordValue srv = SrvValue srvPriority srvWeight srvPort target \<and> ttl srv \<noteq> 0
        \<and> lastTtl address (handleIpRecords (enableIpv4 s) (records @ formerAnswers) target
                              netInterface) = Some 0
        \<and> (case operationalAddresses s (name srv) of
              Some addresses \<Rightarrow> keyedByIp addresses | None \<Rightarrow> True)"
  then show "\<exists>addresses. operationalAddresses afterOperational (name srv) = Some addresses
                         \<and> map_of addresses address = None"
    by (elim conjE) (rule handleOperationalSrvRecord_ip_goodbye)
next
  assume "handleCommissionableSrvRecord toVendorId now records formerAnswers netInterface srv
          (s, missing) = Inr (afterCommissionable, missingAfter)
        \<and> recordValue srv = SrvValue srvPriority srvWeight srvPort target \<and> ttl srv \<noteq> 0
        \<and> map_of (commissionableDeviceRecords s) (name srv) \<noteq> None
        \<and> lastTtl address (handleIpRecords (enableIpv4 s) (records @ formerAnswers) target
                              netInterface) = Some 0"
  then show "\<exists>addresses. commissionableAddresses afterCommissionable (name srv) = Some addresses
                         \<and> map_of addresses address = None"
    by (elim conjE) (rule handleCommissionableSrvRecord_ip_goodbye)
qed

lemma ex_operational_address_goodbye:
  "\<not> isl (handleOperationalSrvRecord 1000 (exSrv ''A1B2-0001._matter._tcp.local'' 120)
             (exAddressGoodbye ''A1B2-0001._matter._tcp.local'' ''fd00::1'') [] ''eth0''
             exScannerTwoDevices)"
  "lastTtl ''fd00::1''
     (handleIpRecords (enableIpv4 exScannerTwoDevices)
        (exAddressGoodbye ''A1B2-0001._matter._tcp.local'' ''fd00::1'' @ []) ''host1.local'' ''eth0'')
     = Some 0"
  "operationalAddresses exScannerTwoDevices ''A1B2-0001._matter._tcp.local''
     = Some [(''fd00::1'', \<lparr> ip = ''fd00::1'', port = 5540, type = ''udp'', expires = 120000 \<rparr>)]"
  by code_simp+

lemma ex_commissionable_address_goodbye:
  "\<not> isl (handleCommissionableSrvRecord exVendorId 1000
             (exAddressGoodbye ''inst1._matterc._udp.local'' ''fd00::2'') [] ''eth0''
             (exSrv ''inst1._matterc._udp.local'' 120) (exScannerTwoCommissionable, []))"
  "lastTtl ''fd00::2''
     (handleIpRecords (enableIpv4 exScannerTwoCommissionable)
        (exAddressGoodbye ''inst1._matterc._udp.local'' ''fd00::2'' @ []) ''host1.local'' ''eth0'')
     = Some 0"
  "commissionableAddresses exScannerTwoCommissionable ''inst1._matterc._udp.local''
     = Some [(''fd00::2'', \<lparr> ip = ''fd00::2'', port = 5540, type = ''udp'', expires = 120000 \<rparr>)]"
  by code_simp+

lemma ex_goodbye_commissionable_records:
  "find (isOperational RT_TXT)
     (answers exGoodbyeCommissionable @ additionalRecords exGoodbyeCommissionable) = None"
  "firstOperationalSrv (answers exGoodbyeCommissionable @ additionalRecords exGoodbyeCommissionable)
     (getActiveQueryEarlierAnswers exScannerTwoCommissionable) = None"
  "commissionableRecordsOf
     (answers exGoodbyeCommissionable @ additionalRecords exGoodbyeCommissionable)
     (getActiveQueryEarlierAnswers exScannerTwoCommissionable)
     = [exTxt ''inst1._matterc._udp.local'' 0 [], exTxt ''inst2._matterc._udp.local'' 0 []]"
  "lastTxtRecord ''inst2._matterc._udp.local''
     [exTxt ''inst1._matterc._udp.local'' 0 [], exTxt ''inst2._matterc._udp.local'' 0 []]
     = Some (exTxt ''inst2._matterc._udp.local'' 0 [])"
  by code_simp+

lemma ex_goodbye_records:
  "find (isOperational RT_TXT) (answers exGoodbye @ additionalRecords exGoodbye)
     = Some (exTxt ''A1B2-0001._matter._tcp.local'' 0 [])"
  "firstOperationalSrv (answers exGoodbye @ additionalRecords exGoodbye)
     (getActiveQueryEarlierAnswers exScannerTwoDevices) = None"
  "find (isOperational RT_SRV) (answers exGoodbyeSrv @ additionalRecords exGoodbyeSrv)
     = Some (exSrv ''A1B2-0001._matter._tcp.local'' 0)"
  by code_simp+

theorem goodbye_handling_witness:
  "map_of (operationalDeviceRecords exScannerTwoDevices) ''A1B2-0001._matter._tcp.local'' \<noteq> None
   \<and> (case handleDnsMessage exVendorId 1000 (Some exGoodbyeSrv) ''eth0'' exScannerTwoDevices of
         Inr s1 \<Rightarrow> map_of (operationalDeviceRecords s1) ''A1B2-0001._matter._tcp.local'' = None
       | Inl e \<Rightarrow> False)
   \<and> (case handleDnsMessage exVendorId 1000 (Some exGoodbye) ''eth0'' exScannerTwoDevices of
         Inr s1 \<Rightarrow> map_of (operationalDeviceRecords s1) ''A1B2-0001._matter._tcp.local'' = None
       | Inl e \<Rightarrow> False)
   \<and> map_of (commissionableDeviceRecords exScannerTwoCommissionable) ''inst2._matterc._udp.local''
       \<noteq> None
   \<and> (case handleDnsMessage exVendorId 1000 (Some exGoodbyeCommissionable) ''eth0''
              exScannerTwoCommissionable of
         Inr s1 \<Rightarrow> map_of (commissionableDeviceRecords s1) ''inst2._matterc._udp.local'' = None
       | Inl e \<Rightarrow> False)
   \<and> operationalAddresses exScannerTwoDevices ''A1B2-0001._matter._tcp.local''
       = Some [(''fd00::1'', \<lparr> ip = ''fd00::1'', port = 5540, type = ''udp'', expires = 120000 \<rparr>)]
   \<and> (case handleOperationalSrvRecord 1000 (exSrv ''A1B2-0001._matter._tcp.local'' 120)
              (exAddressGoodbye ''A1B2-0001._matter._tcp.local'' ''fd00::1'') [] ''eth0''
              exScannerTwoDevices of
         Inr s1 \<Rightarrow>
           (\<exists>addresses. operationalAddresses s1 ''A1B2-0001._matter._tcp.local'' = Some addresses
                        \<and> map_of addresses ''fd00::1'' = None)
       | Inl e \<Rightarrow> False)
   \<and> commissionableAddresses exScannerTwoCommissionable ''inst1._matterc._udp.local''
       = Some [(''fd00::2'', \<lparr> ip = ''fd00::2'', port = 5540, type = ''udp'', expires = 120000 \<rparr>)]
   \<and> (case handleCommissionableSrvRecord exVendorId 1000
              (exAddressGoodbye ''inst1._matterc._udp.local'' ''fd00::2'') [] ''eth0''
              (exSrv ''inst1._matterc._udp.local'' 120) (exScannerTwoCommissionable, []) of
         Inr state1 \<Rightarrow>
           (\<exists>addresses. commissionableAddresses (fst state1) ''inst1._matterc._udp.local''
                          = Some addresses
                        \<and> map_of addresses ''fd00::2'' = None)
       | Inl e \<Rightarrow> False)"
proof -
  let ?n = "''A1B2-0001._matter._tcp.local''"
  let ?c = "''inst1._matterc._udp.local''"
  have o: "\<not> closing exScannerTwoDevices"
    "messageType exGoodbyeSrv = Response \<or> messageType exGoodbyeSrv = TruncatedResponse"
    "messageType exGoodbye = Response \<or> messageType exGoodbye = TruncatedResponse"
    "map_of (operationalDeviceRecords exScannerTwoDevices) ?n \<noteq> None"
    "ttl (exSrv ?n 0) = 0" "name (exSrv ?n 0) = ?n"
    "ttl (exTxt ?n 0 []) = 0" "name (exTxt ?n 0 []) = ?n"
    by (simp_all add: exScannerTwoDevices_def newMdnsScanner_def exGoodbyeSrv_def exGoodbye_def
        exSrv_def exTxt_def)
  have c: "\<not> closing exScannerTwoCommissionable"
    "messageType exGoodbyeCommissionable = Response
     \<or> messageType exGoodbyeCommissionable = TruncatedResponse"
    "map_of (commissionableDeviceRecords exScannerTwoCommissionable) ''inst2._matterc._udp.local''
       \<noteq> None"
    "map_of (commissionableDeviceRecords exScannerTwoCommissionable) ?c \<noteq> None"
    "ttl (exTxt ''inst2._matterc._udp.local'' 0 []) = 0"
    "name (exTxt ''inst2._matterc._udp.local'' 0 []) = ''inst2._matterc._udp.local''"
    by (simp_all add: exScannerTwoCommissionable_def newMdnsScanner_def exGoodbyeCommissionable_def
        exTxt_def)
  have v: "recordValue (exSrv ?n 120) = SrvValue 0 0 5540 ''host1.local''"
    "ttl (exSrv ?n 120) \<noteq> 0" "name (exSrv ?n 120) = ?n"
    "recordValue (exSrv ?c 120) = SrvValue 0 0 5540 ''host1.local''"
    "ttl (exSrv ?c 120) \<noteq> 0" "name (exSrv ?c 120) = ?c"
    by (simp_all add: exSrv_def)
  have k: "keyedByIp [(''fd00::1'', \<lparr> ip = ''fd00::1'', port = 5540, type = ''udp'',
                                       expires = 120000 \<rparr>)]"
    by (simp add: keyedByIp_def)
  note t1 = goodbye_handling [where s = exScannerTwoDevices and m = exGoodbyeSrv
      and r = "exSrv ?n 0" and toVendorId = exVendorId and now = 1000 and netInterface = "''eth0''",
      THEN conjunct1]
  from t1 o(1,2,5) ex_goodbye_records(3)
  have "\<exists>s1. handleDnsMessage exVendorId 1000 (Some exGoodbyeSrv) ''eth0'' exScannerTwoDevices
               = Inr s1
             \<and> map_of (operationalDeviceRecords s1) (name (exSrv ?n 0)) = None"
    by blast
  then have 1: "case handleDnsMessage exVendorId 1000 (Some exGoodbyeSrv) ''eth0''
                exScannerTwoDevices of
         Inr s1 \<Rightarrow> map_of (operationalDeviceRecords s1) ?n = None
       | Inl e \<Rightarrow> False"
    by (auto simp: o(6))
  note t2 = goodbye_handling [where s = exScannerTwoDevices and m = exGoodbye
      and r = "exTxt ?n 0 []" and toVendorId = exVendorId and now = 1000
      and netInterface = "''eth0''", THEN conjunct2, THEN conjunct1]
  have "\<forall>r2. firstOperationalSrv (answers exGoodbye @ additionalRecords exGoodbye)
               (getActiveQueryEarlierAnswers exScannerTwoDevices) = Some r2 \<longrightarrow> ttl r2 = 0"
    by (simp add: ex_goodbye_records(2))
  with t2 o(1,3,7) ex_goodbye_records(1)
  have "\<exists>s1. handleDnsMessage exVendorId 1000 (Some exGoodbye) ''eth0'' exScannerTwoDevices
               = Inr s1
             \<and> map_of (operationalDeviceRecords s1) (name (exTxt ?n 0 [])) = None"
    by blast
  then have 2: "case handleDnsMessage exVendorId 1000 (Some exGoodbye) ''eth0''
                exScannerTwoDevices of
         Inr s1 \<Rightarrow> map_of (operationalDeviceRecords s1) ?n = None
       | Inl e \<Rightarrow> False"
    by (auto simp: o(8))
  note t3 = goodbye_handling [where s = exScannerTwoCommissionable and m = exGoodbyeCommissionable
      and r = "exTxt ''inst2._matterc._udp.local'' 0 []" and toVendorId = exVendorId
      and now = 1000 and netInterface = "''eth0''"
      and afterMessage = "exScannerTwoCommissionable\<lparr>commissionableDeviceRecords := []\<rparr>",
      THEN conjunct2, THEN conjunct2, THEN conjunct1]
  have m3: "exTxt ''inst2._matterc._udp.local'' 0 []
            \<in> set (commissionableRecordsOf
                     (answers exGoodbyeCommissionable @ additionalRecords exGoodbyeCommissionable)
                     (getActiveQueryEarlierAnswers exScannerTwoCommissionable))"
    by (simp add: ex_goodbye_commissionable_records(3))
  have l3: "\<exists>r1. lastTxtRecord (name (exTxt ''inst2._matterc._udp.local'' 0 []))
                 (commissionableRecordsOf
                    (answers exGoodbyeCommissionable @ additionalRecords exGoodbyeCommissionable)
                    (getActiveQueryEarlierAnswers exScannerTwoCommissionable)) = Some r1
               \<and> ttl r1 = 0"
    using c(5) by (simp add: ex_goodbye_commissionable_records(3,4) c(6))
  from t3 c(1,2,5) ex_goodbye_commissionable_records(1,2) ex_goodbye_two_commissionable_txt m3 l3
  have "map_of (commissionableDeviceRecords
                  (exScannerTwoCommissionable\<lparr>commissionableDeviceRecords := []\<rparr>))
          (name (exTxt ''inst2._matterc._udp.local'' 0 [])) = None"
    by blast
  with ex_goodbye_two_commissionable_txt
  have 3: "case handleDnsMessage exVendorId 1000 (Some exGoodbyeCommissionable) ''eth0''
              exScannerTwoCommissionable of
         Inr s1 \<Rightarrow> map_of (commissionableDeviceRecords s1) ''inst2._matterc._udp.local'' = None
       | Inl e \<Rightarrow> False"
    by (simp add: c(6))
  obtain afterOperational where
    ao: "handleOperationalSrvRecord 1000 (exSrv ?n 120) (exAddressGoodbye ?n ''fd00::1'') []
           ''eth0'' exScannerTwoDevices = Inr afterOperational"
    using ex_operational_address_goodbye(1)
    by (cases "handleOperationalSrvRecord 1000 (exSrv ?n 120) (exAddressGoodbye ?n ''fd00::1'') []
                 ''eth0'' exScannerTwoDevices") simp_all
  note t4 = goodbye_handling [where s = exScannerTwoDevices and now = 1000 and srv = "exSrv ?n 120"
      and records = "exAddressGoodbye ?n ''fd00::1''" and formerAnswers = "[]"
      and netInterface = "''eth0''" and afterOperational = afterOperational
      and srvPriority = 0 and srvWeight = 0 and srvPort = 5540 and target = "''host1.local''"
      and address = "''fd00::1''",
      THEN conjunct2, THEN conjunct2, THEN conjunct2, THEN conjunct1]
  have k4: "case operationalAddresses exScannerTwoDevices (name (exSrv ?n 120)) of
              Some addresses \<Rightarrow> keyedByIp addresses | None \<Rightarrow> True"
    by (simp add: v(3) ex_operational_address_goodbye(3) k)
  from t4 ao v(1,2) ex_operational_address_goodbye(2) k4
  have "\<exists>addresses. operationalAddresses afterOperational (name (exSrv ?n 120)) = Some addresses
                      \<and> map_of addresses ''fd00::1'' = None"
    by blast
  with ao have 4: "case handleOperationalSrvRecord 1000 (exSrv ?n 120)
              (exAddressGoodbye ?n ''fd00::1'') [] ''eth0'' exScannerTwoDevices of
         Inr s1 \<Rightarrow>
           (\<exists>addresses. operationalAddresses s1 ?n = Some addresses
                        \<and> map_of addresses ''fd00::1'' = None)
       | Inl e \<Rightarrow> False"
    by (simp add: v(3))
  obtain afterCommissionable missingAfter where
    ac: "handleCommissionableSrvRecord exVendorId 1000 (exAddressGoodbye ?c ''fd00::2'') []
           ''eth0'' (exSrv ?c 120) (exScannerTwoCommissionable, [])
         = Inr (afterCommissionable, missingAfter)"
    using ex_commissionable_address_goodbye(1)
    by (cases "handleCommissionableSrvRecord exVendorId 1000 (exAddressGoodbye ?c ''fd00::2'') []
                 ''eth0'' (exSrv ?c 120) (exScannerTwoCommissionable, [])") auto
  note t5 = goodbye_handling [where s = exScannerTwoCommissionable and toVendorId = exVendorId
      and now = 1000 and srv = "exSrv ?c 120"
      and records = "exAddressGoodbye ?c ''fd00::2''" and formerAnswers = "[]"
      and netInterface = "''eth0''" and afterCommissionable = afterCommissionable
      and missing = "[]" and missingAfter = missingAfter
      and srvPriority = 0 and srvWeight = 0 and srvPort = 5540 and target = "''host1.local''"
      and address = "''fd00::2''",
      THEN conjunct2, THEN conjunct2, THEN conjunct2, THEN conjunct2]
  have c5: "map_of (commissionableDeviceRecords exScannerTwoCommissionable) (name (exSrv ?c 120))
            \<noteq> None"
    by (simp add: v(6) c(4))
  from t5 ac v(4,5) c5 ex_commissionable_address_goodbye(2)
  have "\<exists>addresses. commissionableAddresses afterCommissionable (name (exSrv ?c 120))
                        = Some addresses
                      \<and> map_of addresses ''fd00::2'' = None"
    by blast
  with ac have 5: "case handleCommissionableSrvRecord exVendorId 1000
              (exAddressGoodbye ?c ''fd00::2'') [] ''eth0''
              (exSrv ?c 120) (exScannerTwoCommissionable, []) of
         Inr state1 \<Rightarrow>
           (\<exists>addresses. commissionableAddresses (fst state1) ?c = Some addresses
                        \<and> map_of addresses ''fd00::2'' = None)
       | Inl e \<Rightarrow> False"
    by (simp add: v(6))
  from 1 2 3 4 5 o(4) c(3) ex_operational_address_goodbye(3) ex_commissionable_address_goodbye(3)
  show ?thesis by blast
qed

section \<open>Properties of the responder\<close>

lemma withoutKnownAnswers_filter:
  "withoutKnownAnswers knownAnswers0 records = filter (\<lambda>r. r \<notin> set knownAnswers0) records"
  unfolding withoutKnownAnswers_def
proof (induction knownAnswers0 arbitrary: records)
  case Nil
  then show ?case by simp
next
  case (Cons k ks)
  have "filter (\<lambda>r. r \<notin> set ks) (filter (\<lambda>r. r \<noteq> k) records)
          = filter (\<lambda>r. r \<notin> set (k # ks)) records"
    by (induction records) auto
  with Cons show ?case by simp
qed

lemma answerQueries_Some:
  assumes "answerQueries now netInterface remoteIp tid queries0 knownAnswers0 portRecords sent
             = (Some (resp, target), sent')"
  shows "answers resp \<noteq> []"
    and "set (answers resp) \<subseteq> set (candidateAnswers queries0 portRecords) - set knownAnswers0"
    and "set (additionalRecords resp) \<subseteq> set portRecords - set knownAnswers0"
    and "messageType resp = Response"
proof -
  define a0 where "a0 = candidateAnswers queries0 portRecords"
  define a1 where "a1 = (if knownAnswers0 \<noteq> [] then withoutKnownAnswers knownAnswers0 a0 else a0)"
  define add0 where "add0 =
    (if find (\<lambda>query. queryType query \<noteq> RT_A \<and> queryType query \<noteq> RT_AAAA) queries0 \<noteq> None
     then filter (\<lambda>r. r \<notin> set a0 \<and> recordType r \<noteq> RT_PTR) portRecords else [])"
  define add1 where "add1 =
    (if knownAnswers0 \<noteq> [] \<and> add0 \<noteq> [] then withoutKnownAnswers knownAnswers0 add0 else add0)"
  have a1: "set a1 \<subseteq> set a0 - set knownAnswers0"
    by (auto simp: a1_def withoutKnownAnswers_filter)
  have "set add0 \<subseteq> set portRecords" by (auto simp: add0_def)
  then have add1: "set add1 \<subseteq> set portRecords - set knownAnswers0"
    by (cases "knownAnswers0 = []"; cases "add0 = []")
       (auto simp: add1_def withoutKnownAnswers_filter)
  from assms have r: "answers resp \<noteq> [] \<and> set (answers resp) \<subseteq> set a1
      \<and> additionalRecords resp = add1 \<and> messageType resp = Response"
    unfolding a0_def a1_def add0_def add1_def
    by (auto simp: answerQueries_def candidateAnswers_def Let_def split: if_splits)
  from r show "answers resp \<noteq> []" by simp
  from r a1 show "set (answers resp) \<subseteq> set (candidateAnswers queries0 portRecords) - set knownAnswers0"
    unfolding a0_def by blast
  from r add1 show "set (additionalRecords resp) \<subseteq> set portRecords - set knownAnswers0" by simp
  from r show "messageType resp = Response" by simp
qed

lemma answerQueries_all_known:
  assumes "set (candidateAnswers queries0 portRecords) \<subseteq> set knownAnswers0"
  shows "answerQueries now netInterface remoteIp tid queries0 knownAnswers0 portRecords sent = (None, sent)"
proof (cases "candidateAnswers queries0 portRecords = []")
  case True
  then show ?thesis by (simp add: answerQueries_def candidateAnswers_def)
next
  case False
  with assms have k: "knownAnswers0 \<noteq> []" by auto
  have "withoutKnownAnswers knownAnswers0 (candidateAnswers queries0 portRecords) = []"
    using assms by (auto simp: withoutKnownAnswers_filter filter_empty_conv)
  with k False show ?thesis
    by (simp add: answerQueries_def candidateAnswers_def Let_def)
qed

lemma answerRecordSets_responses:
  "(resp, target) \<in> set (fst (answerRecordSets netInterface remoteIp tid queries0 knownAnswers0 records sent))
   \<Longrightarrow> answers resp \<noteq> [] \<and> set (answers resp) \<inter> set knownAnswers0 = {}
       \<and> set (additionalRecords resp) \<inter> set knownAnswers0 = {}"
proof (induction records arbitrary: sent)
  case Nil
  then show ?case by simp
next
  case (Cons pr rest)
  obtain portRecords now where pr: "pr = (portRecords, now)" by (cases pr)
  obtain response sent1 where a: "answerQueries now netInterface remoteIp tid queries0 knownAnswers0
        portRecords sent = (response, sent1)"
    by (cases "answerQueries now netInterface remoteIp tid queries0 knownAnswers0 portRecords sent")
  obtain responses sent2 where b: "answerRecordSets netInterface remoteIp tid queries0 knownAnswers0
        rest sent1 = (responses, sent2)"
    by (cases "answerRecordSets netInterface remoteIp tid queries0 knownAnswers0 rest sent1")
  from Cons.prems pr a b
  have "(resp, target) \<in> set (case response of Some r \<Rightarrow> [r] | None \<Rightarrow> []) \<or> (resp, target) \<in> set responses"
    by simp
  then show ?case
  proof
    assume "(resp, target) \<in> set (case response of Some r \<Rightarrow> [r] | None \<Rightarrow> [])"
    then have "response = Some (resp, target)" by (cases response) auto
    with a answerQueries_Some [of now netInterface remoteIp tid queries0 knownAnswers0 portRecords
        sent resp target sent1]
    show ?thesis by blast
  next
    assume "(resp, target) \<in> set responses"
    with b Cons.IH [of sent1] show ?thesis by simp
  qed
qed

lemma sendRecordsLoop_additional:
  "sendRecordsLoop er E cur sz as = (sent, final, sz')
   \<Longrightarrow> (\<forall>m \<in> set sent. additionalRecords m = additionalRecords cur)
       \<and> additionalRecords final = additionalRecords cur"
proof (induction as arbitrary: cur sz sent final)
  case Nil
  then show ?case by simp
next
  case (Cons a as)
  show ?case
  proof (cases "sz + length (er a) > MAX_MDNS_MESSAGE_SIZE")
    case True
    obtain sent' final' sz'' where r: "sendRecordsLoop er E (cur\<lparr>answers := [er a]\<rparr>) (E + length (er a)) as = (sent', final', sz'')"
      by (cases "sendRecordsLoop er E (cur\<lparr>answers := [er a]\<rparr>) (E + length (er a)) as") auto
    from Cons.prems(1) True r have e: "sent = cur # sent'" "final = final'" "sz' = sz''" by (simp_all add: Let_def)
    from Cons.IH [OF r [unfolded e(3) [symmetric]]] e show ?thesis by simp
  next
    case False
    with Cons.prems(1) have r: "sendRecordsLoop er E (cur\<lparr>answers := answers cur @ [er a]\<rparr>) (sz + length (er a)) as = (sent, final, sz')"
      by (simp add: Let_def)
    from Cons.IH [OF r] show ?thesis by simp
  qed
qed

lemma addAdditionalRecords_subset:
  "set (additionalRecords (addAdditionalRecords er cur sz rs))
     \<subseteq> set (additionalRecords cur) \<union> er ` set rs"
proof (induction rs arbitrary: cur sz)
  case Nil
  then show ?case by simp
next
  case (Cons r rs)
  show ?case
    using Cons.IH [of "cur\<lparr>additionalRecords := additionalRecords cur @ [er r]\<rparr>" "sz + length (er r)"]
    by (auto simp: Let_def)
qed

lemma sendRecords_contents:
  assumes "d \<in> set (sendRecords eq er resp)"
  shows "set (answers d) \<subseteq> er ` set (answers resp)"
    and "set (additionalRecords d) \<subseteq> er ` set (additionalRecords resp)"
proof -
  have "set (answers d) \<subseteq> set (concat (map answers (sendRecords eq er resp)))"
    using assms by auto
  then show "set (answers d) \<subseteq> er ` set (answers resp)"
    by (simp add: sendRecords_answers)
  obtain sent final sz where r: "sendRecordsLoop er (emptyRecordsLength eq er resp)
       \<lparr> messageType = messageType resp, transactionId = transactionId resp, queries = queries resp,
         answers = [], authorities = map er (authorities resp), additionalRecords = [] \<rparr>
       (emptyRecordsLength eq er resp) (answers resp) = (sent, final, sz)"
    and e: "sendRecords eq er resp = sent @ [addAdditionalRecords er final sz (additionalRecords resp)]"
    by (rule sendRecords_cases)
  from sendRecordsLoop_additional [OF r]
  have s: "\<forall>m \<in> set sent. additionalRecords m = []" and f: "additionalRecords final = []" by simp_all
  from assms e have "d \<in> set sent \<or> d = addAdditionalRecords er final sz (additionalRecords resp)"
    by auto
  then show "set (additionalRecords d) \<subseteq> er ` set (additionalRecords resp)"
    using s f addAdditionalRecords_subset [of er final sz "additionalRecords resp"] by auto
qed

text \<open>
  Claim C7. A response that the responder builds for a record set has at least one answer;
  its answers are records that match a query and equal no known answer of the query
  message, and its additional records are records of the set that equal no known answer.
  When every record that matches a query equals a known answer, no response is built for
  the record set and the state is unchanged. The same holds of every response to one
  message, and every record in a datagram that \<^verbatim>\<open>sendRecords\<close> makes of a response is the
  encoding of an answer or of an additional record of that response.
\<close>

theorem known_answer_suppression:
  "(\<forall>resp target sent'.
      answerQueries now netInterface remoteIp tid queries0 knownAnswers0 portRecords sent
        = (Some (resp, target), sent')
      \<longrightarrow> answers resp \<noteq> []
          \<and> set (answers resp) \<subseteq> set (candidateAnswers queries0 portRecords) - set knownAnswers0
          \<and> set (additionalRecords resp) \<subseteq> set portRecords - set knownAnswers0)
   \<and> (set (candidateAnswers queries0 portRecords) \<subseteq> set knownAnswers0
        \<longrightarrow> answerQueries now netInterface remoteIp tid queries0 knownAnswers0 portRecords sent
              = (None, sent))
   \<and> (\<forall>resp target.
        (resp, target) \<in> set (fst (serverHandleDnsMessage (Some m) remoteIp netInterface0 records sent))
        \<longrightarrow> answers resp \<noteq> [] \<and> set (answers resp) \<inter> set (answers m) = {}
            \<and> set (additionalRecords resp) \<inter> set (answers m) = {}
            \<and> (\<forall>d \<in> set (sendRecords eq er resp).
                  set (answers d) \<subseteq> er ` set (answers resp)
                  \<and> set (additionalRecords d) \<subseteq> er ` set (additionalRecords resp)))"
proof -
  have 1: "answers resp \<noteq> []
          \<and> set (answers resp) \<subseteq> set (candidateAnswers queries0 portRecords) - set knownAnswers0
          \<and> set (additionalRecords resp) \<subseteq> set portRecords - set knownAnswers0"
    if "answerQueries now netInterface remoteIp tid queries0 knownAnswers0 portRecords sent
        = (Some (resp, target), sent')" for resp target sent'
    using answerQueries_Some [OF that] by simp
  have 3: "answers resp \<noteq> [] \<and> set (answers resp) \<inter> set (answers m) = {}
            \<and> set (additionalRecords resp) \<inter> set (answers m) = {}"
    if "(resp, target) \<in> set (fst (serverHandleDnsMessage (Some m) remoteIp netInterface0 records sent))"
    for resp target
  proof -
    from that obtain netInterface1 where
      "(resp, target) \<in> set (fst (answerRecordSets netInterface1 remoteIp (transactionId m) (queries m)
          (answers m) records sent))"
      by (auto simp: serverHandleDnsMessage_def split: option.splits if_splits)
    then show ?thesis by (rule answerRecordSets_responses)
  qed
  have 4: "\<forall>d \<in> set (sendRecords eq er resp).
                  set (answers d) \<subseteq> er ` set (answers resp)
                  \<and> set (additionalRecords d) \<subseteq> er ` set (additionalRecords resp)" for resp
    using sendRecords_contents [of _ eq er resp] by blast
  from 1 answerQueries_all_known [of queries0 portRecords knownAnswers0 now netInterface remoteIp tid sent]
    3 4
  show ?thesis by blast
qed

lemma ex_candidates:
  "candidateAnswers [exQuery] exPortRecords = [exPtr]"
  by (simp add: candidateAnswers_def queryRecords_def exQuery_def exPortRecords_def exPtr_def
      exSrv_def exTxt_def recordType_def)

lemma ex_answer:
  "answerQueries 5000 ''eth0'' ''fe80::9'' 0 [exQuery]
       [exTxt ''inst1._matterc._udp.local'' 120 [''D=3840'']] exPortRecords []
     = (Some (\<lparr> messageType = Response, transactionId = 0, queries = [], answers = [exPtr],
                authorities = [],
                additionalRecords = [exSrv ''inst1._matterc._udp.local'' 120] \<rparr>, None),
        [(buildDnsRecordKey exPtr ''eth0'', 5000)])"
  by (simp add: answerQueries_def withoutKnownAnswers_def queryRecords_def exQuery_def
      exPortRecords_def exPtr_def exSrv_def exTxt_def recordType_def timeSinceLastMultiCast_def
      Let_def)

theorem known_answer_suppression_witness:
  "set (candidateAnswers [exQuery] exPortRecords) \<subseteq> set [exPtr]
   \<and> answerQueries 5000 ''eth0'' ''fe80::9'' 0 [exQuery] [exPtr] exPortRecords [] = (None, [])
   \<and> exTxt ''inst1._matterc._udp.local'' 120 [''D=3840''] \<in> set exPortRecords
   \<and> fst (answerQueries 5000 ''eth0'' ''fe80::9'' 0 [exQuery]
             [exTxt ''inst1._matterc._udp.local'' 120 [''D=3840'']] exPortRecords []) \<noteq> None
   \<and> exTxt ''inst1._matterc._udp.local'' 120 [''D=3840'']
       \<notin> set (additionalRecords (fst (the (fst (answerQueries 5000 ''eth0'' ''fe80::9'' 0 [exQuery]
             [exTxt ''inst1._matterc._udp.local'' 120 [''D=3840'']] exPortRecords [])))))"
proof -
  note t = known_answer_suppression [of 5000 "''eth0''" "''fe80::9''" 0 "[exQuery]" "[exPtr]"
      exPortRecords "[]"]
    known_answer_suppression [of 5000 "''eth0''" "''fe80::9''" 0 "[exQuery]"
      "[exTxt ''inst1._matterc._udp.local'' 120 [''D=3840'']]" exPortRecords "[]"]
  have c: "set (candidateAnswers [exQuery] exPortRecords) \<subseteq> set [exPtr]"
    by (simp add: ex_candidates)
  from t(1) c have a: "answerQueries 5000 ''eth0'' ''fe80::9'' 0 [exQuery] [exPtr] exPortRecords [] = (None, [])"
    by blast
  from t(2) ex_answer
  have "set (additionalRecords \<lparr> messageType = Response, transactionId = 0, queries = [],
              answers = [exPtr], authorities = [],
              additionalRecords = [exSrv ''inst1._matterc._udp.local'' 120] \<rparr>)
          \<subseteq> set exPortRecords - set [exTxt ''inst1._matterc._udp.local'' 120 [''D=3840'']]"
    by blast
  then have b: "exTxt ''inst1._matterc._udp.local'' 120 [''D=3840'']
       \<notin> set (additionalRecords (fst (the (fst (answerQueries 5000 ''eth0'' ''fe80::9'' 0 [exQuery]
             [exTxt ''inst1._matterc._udp.local'' 120 [''D=3840'']] exPortRecords [])))))"
    by (auto simp: ex_answer)
  have m: "exTxt ''inst1._matterc._udp.local'' 120 [''D=3840''] \<in> set exPortRecords"
    by (simp add: exPortRecords_def)
  from a b c m show ?thesis by (simp add: ex_answer)
qed

section \<open>Properties of close and of discovery after it\<close>

lemma closing_fold_closeWaiter: "closing (fold closeWaiter qs s) = closing s"
  by (induction qs arbitrary: s)
     (simp_all add: closeWaiter_def finishWaiter_def split: option.splits)

lemma closing_close: "closing (close s)"
  by (simp add: close_def Let_def closing_fold_closeWaiter)

text \<open>After \<^verbatim>\<open>close\<close>, \<^verbatim>\<open>findOperationalDevice\<close> fails with an \<^verbatim>\<open>ImplementationError\<close>.\<close>

theorem findOperationalDevice_after_close:
  "findOperationalDevice isIPv6 deviceMatterQname timeoutSeconds ignoreExistingRecords (close s)
     = Inl (ImplementationError ''Cannot discover operational device because scanner is closing.'')"
  by (simp add: findOperationalDevice_def closing_close)

lemma fold_closeWaiter:
  "distinct (map fst (recordWaiters s))
   \<Longrightarrow> recordWaiters (fold closeWaiter (map fst (recordWaiters s)) s) = []
       \<and> resolvedWaiters (fold closeWaiter (map fst (recordWaiters s)) s)
           = resolvedWaiters s @ map fst (filter (\<lambda>w. timer (snd w) \<noteq> None) (recordWaiters s))"
proof (induction "recordWaiters s" arbitrary: s)
  case Nil
  then show ?case by simp
next
  case (Cons qw ws)
  obtain q w where qw: "qw = (q, w)" by (cases qw)
  from Cons.hyps(2) qw have rw: "recordWaiters s = (q, w) # ws" by simp
  from Cons.prems rw have d: "q \<notin> fst ` set ws" "distinct (map fst ws)" by simp_all
  let ?s1 = "closeWaiter q s"
  have del: "AList.delete q ((q, w) # ws) = ws"
    using d(1) by (simp add: delete_id)
  have r1: "recordWaiters ?s1 = ws"
    using rw del by (simp add: closeWaiter_def finishWaiter_def)
  have v1: "resolvedWaiters ?s1 = resolvedWaiters s @ (if timer w \<noteq> None then [q] else [])"
    using rw by (simp add: closeWaiter_def finishWaiter_def)
  from Cons.hyps(1) [of ?s1] r1 d(2)
  have ih: "recordWaiters (fold closeWaiter (map fst ws) ?s1) = []
       \<and> resolvedWaiters (fold closeWaiter (map fst ws) ?s1)
           = resolvedWaiters ?s1 @ map fst (filter (\<lambda>w. timer (snd w) \<noteq> None) ws)"
    by simp
  show ?case using ih v1 by (simp add: rw)
qed

text \<open>
  \<^verbatim>\<open>close\<close> sets the closing flag, stops the timers and closes the transport; it removes every
  waiter, resolving those that have a timer, in the order of their registration, and no
  other.
\<close>

theorem close_resolves_waiters_with_timer:
  assumes "distinct (map fst (recordWaiters s))"
  shows "closing (close s) \<and> \<not> periodicTimer (close s) \<and> queryTimer (close s) = None
       \<and> multicastServerClosed (close s)
       \<and> recordWaiters (close s) = []
       \<and> resolvedWaiters (close s)
           = resolvedWaiters s @ map fst (filter (\<lambda>w. timer (snd w) \<noteq> None) (recordWaiters s))"
proof -
  let ?s1 = "s\<lparr> closing := True, periodicTimer := False, queryTimer := None,
                  multicastServerClosed := True \<rparr>"
  have f: "periodicTimer (fold closeWaiter qs t) = periodicTimer t
         \<and> queryTimer (fold closeWaiter qs t) = queryTimer t
         \<and> multicastServerClosed (fold closeWaiter qs t) = multicastServerClosed t" for qs t
    by (induction qs arbitrary: t)
       (simp_all add: closeWaiter_def finishWaiter_def split: option.splits)
  from assms have "distinct (map fst (recordWaiters ?s1))" by simp
  from fold_closeWaiter [OF this] f [of "map fst (recordWaiters ?s1)" ?s1] closing_close [of s]
  show ?thesis by (simp add: close_def Let_def)
qed

theorem close_resolves_waiters_with_timer_witness:
  "distinct (map fst (recordWaiters exScannerWaiters))
   \<and> recordWaiters (close exScannerWaiters) = []
   \<and> resolvedWaiters (close exScannerWaiters) = [''a'', ''c'']"
proof -
  have d: "distinct (map fst (recordWaiters exScannerWaiters))"
    by (simp add: exScannerWaiters_def)
  from close_resolves_waiters_with_timer [OF d] d show ?thesis
    by (simp add: exScannerWaiters_def newMdnsScanner_def)
qed

text \<open>
  Claim C6 at a failing input. On a scanner that has been closed,
  \<^verbatim>\<open>findCommissionableDevices\<close> for the long discriminator 3840 does not fail: it registers a
  waiter with a timer of 5000 milliseconds, stores the two PTR queries and starts the query
  timer again, then awaits the waiter; \<^verbatim>\<open>findCommissionableDevicesContinuously\<close> likewise
  stores its queries and awaits a waiter with a timer of 900 seconds.
\<close>

theorem findCommissionableDevices_after_close:
  "closing (close (newMdnsScanner False))
   \<and> findCommissionableDevices exIsIPv6 (IdLongDiscriminator (Num 3840)) 5 False
        (close (newMdnsScanner False))
     = Inr (Awaiting ''_L3840._sub._matterc._udp.local''
         ((close (newMdnsScanner False))
            \<lparr> activeAnnounceQueries :=
                [(''_L3840._sub._matterc._udp.local'',
                  \<lparr> activeQueries =
                      [\<lparr> queryName = ''_matterc._udp.local'', queryType = RT_PTR,
                         queryClass = RC_IN, uniCastResponse = False \<rparr>,
                       \<lparr> queryName = ''_L3840._sub._matterc._udp.local'', queryType = RT_PTR,
                         queryClass = RC_IN, uniCastResponse = False \<rparr>],
                    knownAnswers = [] \<rparr>)],
              queryTimer := Some 0,
              recordWaiters :=
                [(''_L3840._sub._matterc._udp.local'',
                  \<lparr> timer = Some 5000, resolveOnUpdatedRecords = True \<rparr>)] \<rparr>))
   \<and> findCommissionableDevicesContinuously exIsIPv6 IdNone 900 1000 (close (newMdnsScanner False))
     = Inr ([], [], Awaiting ''_CM._sub._matterc._udp.local''
         ((close (newMdnsScanner False))
            \<lparr> activeAnnounceQueries :=
                [(''_CM._sub._matterc._udp.local'',
                  \<lparr> activeQueries =
                      [\<lparr> queryName = ''_matterc._udp.local'', queryType = RT_PTR,
                         queryClass = RC_IN, uniCastResponse = False \<rparr>,
                       \<lparr> queryName = ''_CM._sub._matterc._udp.local'', queryType = RT_PTR,
                         queryClass = RC_IN, uniCastResponse = False \<rparr>],
                    knownAnswers = [] \<rparr>)],
              queryTimer := Some 0,
              recordWaiters :=
                [(''_CM._sub._matterc._udp.local'',
                  \<lparr> timer = Some 900000, resolveOnUpdatedRecords = False \<rparr>)] \<rparr>))"
proof -
  have q: "buildCommissionableQueryIdentifier (IdLongDiscriminator (Num 3840))
             = ''_L3840._sub._matterc._udp.local''"
    "getLongDiscriminatorQname (Num 3840) = ''_L3840._sub._matterc._udp.local''"
    "buildCommissionableQueryIdentifier IdNone = ''_CM._sub._matterc._udp.local''"
    "getCommissioningModeQname = ''_CM._sub._matterc._udp.local''"
    by (simp_all add: buildCommissionableQueryIdentifier_def getLongDiscriminatorQname_def
          jsToString_def numberToString_def MATTER_COMMISSION_SERVICE_QNAME_def
          getCommissioningModeQname_def)
  have c: "close (newMdnsScanner False)
             = (newMdnsScanner False)\<lparr> closing := True, periodicTimer := False, queryTimer := None,
                  multicastServerClosed := True \<rparr>"
    by (simp add: close_def newMdnsScanner_def)
  have r: "\<lceil>(900000 :: rat) / 1000\<rceil> = 900" by simp
  show ?thesis
    unfolding c
    by (simp add: findCommissionableDevices_def findCommissionableDevicesContinuously_def
        continuousRound_def getCommissionableDeviceRecords_def q getCommissionableQueryRecords_def
        registerWaiterPromise_def setQueryRecords_def storeQueryRecords_def newMdnsScanner_def
        MATTER_COMMISSION_SERVICE_QNAME_def START_ANNOUNCE_INTERVAL_SECONDS_def Let_def r)
qed

section \<open>Properties of the TLV object schema\<close>

lemma fieldById_mem:
  "fieldById fieldDefinitions i = Some d \<Longrightarrow> d \<in> set fieldDefinitions"
  unfolding fieldById_def by (metis find_Some_iff nth_mem set_rev)

lemma storeDecoded_names:
  "storeDecoded name0 field decoded result = Inr result1
   \<Longrightarrow> fst ` set result1 = insert name0 (fst ` set result)"
proof -
  assume "storeDecoded name0 field decoded result = Inr result1"
  then obtain v where "result1 = AList.update name0 v result"
    unfolding storeDecoded_def by (auto split: if_splits option.splits tlvValue.splits)
  then show ?thesis by (simp add: dom_update)
qed

lemma decodeFields_names:
  "decodeFields fieldDefinitions tlvAny result reader = Inr (result1, rest)
   \<Longrightarrow> fst ` set result \<subseteq> fst ` set fieldDefinitions
   \<Longrightarrow> fst ` set result1 \<subseteq> fst ` set fieldDefinitions"
proof (induction fieldDefinitions tlvAny result reader rule: decodeFields.induct)
  case (1 fieldDefinitions tlvAny result)
  then show ?case by simp
next
  case (2 fieldDefinitions tlvAny result element reader)
  show ?case
  proof (cases "tlvType (typeLength element) = TlvEndOfContainer")
    case True
    with 2 show ?thesis by simp
  next
    case open0: False
    from 2(3) open0 obtain i where
      prof: "\<not> (case tag element of Some t \<Rightarrow> tagProfile t \<noteq> None | None \<Rightarrow> False)"
      and i: "(case tag element of Some t \<Rightarrow> tagId t | None \<Rightarrow> None) = Some i"
      by (auto split: if_splits option.splits)
    show ?thesis
    proof (cases "fieldById fieldDefinitions i")
      case None
      with 2(3) open0 prof i obtain skipped where
        s: "decodeTlvInternalValue tlvAny element reader = Inr skipped"
        and r: "decodeFields fieldDefinitions tlvAny result (drop (snd skipped) reader)
                = Inr (result1, rest)"
        by (auto split: sum.splits)
      from 2(1) [OF open0 prof i None s r 2(4)] show ?thesis .
    next
      case (Some definition0)
      with 2(3) open0 prof i obtain decoded result2 where
        d: "decodeTlvInternalValue (schema (snd definition0)) element reader = Inr decoded"
        and st: "storeDecoded (fst definition0) (snd definition0) (fst decoded) result = Inr result2"
        and r: "decodeFields fieldDefinitions tlvAny result2 (drop (snd decoded) reader)
                = Inr (result1, rest)"
        by (auto split: sum.splits)
      from fieldById_mem [OF Some] have "fst definition0 \<in> fst ` set fieldDefinitions"
        by (rule imageI)
      with storeDecoded_names [OF st] 2(4)
      have "fst ` set result2 \<subseteq> fst ` set fieldDefinitions" by auto
      from 2(2) [OF open0 prof i Some d st r this] show ?thesis .
    qed
  qed
qed

lemma populateFallback_names:
  "fst ` set (populateFallback definition0 result) \<subseteq> insert (fst definition0) (fst ` set result)"
proof -
  obtain name0 field where d: "definition0 = (name0, field)" by (cases definition0)
  show ?thesis
    unfolding d populateFallback_def
    by (cases "fallback field") (simp_all add: dom_update subset_insertI)
qed

lemma populateFallbacks_names:
  "fst ` set result \<subseteq> N \<Longrightarrow> fst ` set ds \<subseteq> N
   \<Longrightarrow> fst ` set (populateFallbacks ds result) \<subseteq> N"
  unfolding populateFallbacks_def
proof (induction ds arbitrary: result)
  case Nil
  then show ?case by simp
next
  case (Cons d ds)
  have "insert (fst d) (fst ` set result) \<subseteq> N" using Cons.prems by simp
  with populateFallback_names [of d result]
  have "fst ` set (populateFallback d result) \<subseteq> N" by (rule subset_trans)
  with Cons.IH [of "populateFallback d result"] Cons.prems show ?case by simp
qed

lemma populateFallback_self:
  "map_of (populateFallback (name0, field) result) name0 =
     (case map_of result name0 of
        Some x \<Rightarrow> Some x
      | None \<Rightarrow>
          if optional field then None
          else (case fallback field of
                  Some v \<Rightarrow> Some (if repeated field then VArray [v] else v)
                | None \<Rightarrow> None))"
  unfolding populateFallback_def
  by (auto simp: update_conv' split: option.splits)

lemma populateFallback_other:
  "fst definition0 \<noteq> name0
   \<Longrightarrow> map_of (populateFallback definition0 result) name0 = map_of result name0"
  unfolding populateFallback_def
  by (auto simp: update_conv' split: prod.splits option.splits)

lemma populateFallbacks_other:
  "name0 \<notin> fst ` set ds
   \<Longrightarrow> map_of (populateFallbacks ds result) name0 = map_of result name0"
  unfolding populateFallbacks_def
  by (induction ds arbitrary: result) (auto simp: populateFallback_other)

lemma populateFallbacks_append:
  "populateFallbacks (xs @ ys) result = populateFallbacks ys (populateFallbacks xs result)"
  unfolding populateFallbacks_def by simp

lemma populateFallbacks_field:
  assumes "name0 \<notin> fst ` set before" and "name0 \<notin> fst ` set after"
  shows "map_of (populateFallbacks (before @ (name0, field) # after) result) name0 =
     (case map_of result name0 of
        Some x \<Rightarrow> Some x
      | None \<Rightarrow>
          if optional field then None
          else (case fallback field of
                  Some v \<Rightarrow> Some (if repeated field then VArray [v] else v)
                | None \<Rightarrow> None))"
proof -
  have "populateFallbacks (before @ (name0, field) # after) result =
        populateFallbacks after (populateFallback (name0, field) (populateFallbacks before result))"
    unfolding populateFallbacks_def by simp
  then show ?thesis
    using assms
    by (simp add: populateFallbacks_other populateFallback_self)
qed

lemma firstError_append:
  "firstError (xs @ ys) = (case firstError xs of Some e \<Rightarrow> Some e | None \<Rightarrow> firstError ys)"
  by (induction xs) (auto split: option.splits)

lemma firstError_Some:
  "firstError xs = Some e \<Longrightarrow> Some e \<in> set xs"
  by (induction xs) (auto split: option.splits)

lemma firstError_None:
  "firstError xs = None \<longleftrightarrow> (\<forall>x \<in> set xs. x = None)"
  by (induction xs) (auto split: option.splits)

lemma validateField_missing:
  "map_of value0 name0 = None \<Longrightarrow> \<not> optional field
   \<Longrightarrow> validateField value0 (name0, field)
       = Some (ValidationError (''Missing mandatory field '' @ name0) (Some name0))"
  unfolding validateField_def by simp

lemma prefixFieldName_isValidationError:
  "prefixFieldName name0 err = Some e \<Longrightarrow> (\<And>e0. err = Some e0 \<Longrightarrow> isValidationError e0)
   \<Longrightarrow> isValidationError e"
  unfolding prefixFieldName_def isValidationError_def
  by (auto split: option.splits error.splits)

lemma validateField_isValidationError:
  assumes "validateField value0 (name0, field) = Some e"
    and "\<And>v e0. validate (schema field) v = Some e0 \<Longrightarrow> isValidationError e0"
  shows "isValidationError e"
proof (cases "map_of value0 name0")
  case None
  with assms(1) show ?thesis
    unfolding validateField_def isValidationError_def by (auto split: if_splits)
next
  case (Some data)
  show ?thesis
  proof (cases "repeated field")
    case False
    with Some assms(1) have "prefixFieldName name0 (validate (schema field) data) = Some e"
      unfolding validateField_def by simp
    then show ?thesis using assms(2) by (rule prefixFieldName_isValidationError)
  next
    case True
    show ?thesis
    proof (cases data)
      case (VArray elements)
      show ?thesis
      proof (cases "firstError (map (\<lambda>element. prefixFieldName name0
                                                (validate (schema field) element)) elements) = Some e")
        case True
        from firstError_Some [OF this] obtain element where
          "prefixFieldName name0 (validate (schema field) element) = Some e" by auto
        then show ?thesis using assms(2) by (rule prefixFieldName_isValidationError)
      next
        case False
        with Some True VArray assms(1) show ?thesis
          unfolding validateField_def isValidationError_def Let_def
          by (auto simp del: natToString.simps split: if_splits)
      qed
    qed (use Some True assms(1) in
          \<open>auto simp: validateField_def isValidationError_def notAnArray_def Let_def
                 simp del: natToString.simps\<close>)
  qed
qed

lemma concatE_append:
  "concatE (xs @ ys) =
     (case concatE xs of
        Inl e \<Rightarrow> Inl e
      | Inr zs \<Rightarrow> (case concatE ys of Inl e \<Rightarrow> Inl e | Inr ws \<Rightarrow> Inr (zs @ ws)))"
  by (induction xs) (auto split: sum.splits)

lemma concatE_Inr:
  "concatE xs = Inr ys \<Longrightarrow> x \<in> set xs \<Longrightarrow> \<not> isl x"
  by (induction xs arbitrary: ys) (auto split: sum.splits)

lemma encodeField_missing:
  "map_of value0 name0 = None \<Longrightarrow> \<not> optional field
   \<Longrightarrow> encodeField fabricIndexId forWriteInteraction value0 (name0, field)
       = (if forWriteInteraction \<and> fieldId field = fabricIndexId then Inr []
          else Inl (ValidationError (''Missing mandatory field '' @ name0) (Some name0)))"
  unfolding encodeField_def by simp


lemma decodeFields_unknown:
  assumes "tlvType (typeLength element) \<noteq> TlvEndOfContainer"
    and "tag element = contextTag i"
    and "fieldById fieldDefinitions i = None"
    and "decodeTlvInternalValue tlvAny element reader = Inr (v, n)"
  shows "decodeFields fieldDefinitions tlvAny result (element # reader)
         = decodeFields fieldDefinitions tlvAny result (drop n reader)"
  using assms by (simp add: contextTag_def)

lemma ObjectSchema_decode_names:
  assumes "ObjectSchema_decodeTlvInternalValue fieldDefinitions type0 tlvAny element reader
           = Inr (object, m)"
  shows "fst ` set object \<subseteq> fst ` set fieldDefinitions"
proof -
  from assms obtain result rest where
    d: "decodeFields fieldDefinitions tlvAny [] reader = Inr (result, rest)"
    and o: "object = populateFallbacks fieldDefinitions result"
    unfolding ObjectSchema_decodeTlvInternalValue_def
    by (auto split: if_splits sum.splits)
  from decodeFields_names [OF d] have "fst ` set result \<subseteq> fst ` set fieldDefinitions" by simp
  then show ?thesis unfolding o by (rule populateFallbacks_names) simp
qed

lemma ObjectSchema_decode_fails:
  "isl (ObjectSchema_decodeTlvInternalValue fieldDefinitions type0 tlvAny element reader)
   \<longleftrightarrow> tlvType (typeLength element) \<noteq> type0
       \<or> isl (decodeFields fieldDefinitions tlvAny [] reader)"
  unfolding ObjectSchema_decodeTlvInternalValue_def
  by (auto split: sum.splits)

lemma ObjectSchema_decode_field:
  assumes "fieldDefinitions = before @ (name0, field) # after"
    and "distinct (map fst fieldDefinitions)"
    and "\<not> optional field"
    and "ObjectSchema_decodeTlvInternalValue fieldDefinitions type0 tlvAny element reader
         = Inr (object, m)"
  shows "\<exists>result rest.
           decodeFields fieldDefinitions tlvAny [] reader = Inr (result, rest)
           \<and> map_of object name0 =
               (case map_of result name0 of
                  Some x \<Rightarrow> Some x
                | None \<Rightarrow>
                    (case fallback field of
                       Some v \<Rightarrow> Some (if repeated field then VArray [v] else v)
                     | None \<Rightarrow> None))"
proof -
  from assms(4) obtain result rest where
    d: "decodeFields fieldDefinitions tlvAny [] reader = Inr (result, rest)"
    and o: "object = populateFallbacks fieldDefinitions result"
    unfolding ObjectSchema_decodeTlvInternalValue_def
    by (auto split: if_splits sum.splits)
  from assms(1,2) have n: "name0 \<notin> fst ` set before" "name0 \<notin> fst ` set after"
    by auto
  from populateFallbacks_field [OF n, of field result] assms(3)
  have "map_of object name0 =
               (case map_of result name0 of
                  Some x \<Rightarrow> Some x
                | None \<Rightarrow>
                    (case fallback field of
                       Some v \<Rightarrow> Some (if repeated field then VArray [v] else v)
                     | None \<Rightarrow> None))"
    unfolding o assms(1) by simp
  with d show ?thesis by blast
qed

lemma ObjectSchema_validate_missing:
  assumes "map_of value0 name0 = None" and "\<not> optional field"
  shows "ObjectSchema_validate (before @ (name0, field) # after) value0 =
           (case ObjectSchema_validate before value0 of
              Some e \<Rightarrow> Some e
            | None \<Rightarrow> Some (ValidationError (''Missing mandatory field '' @ name0) (Some name0)))"
  unfolding ObjectSchema_validate_def
  by (simp add: firstError_append validateField_missing [OF assms] split: option.splits)

lemma ObjectSchema_validate_isValidationError:
  assumes "ObjectSchema_validate fieldDefinitions value0 = Some e"
    and "\<forall>d \<in> set fieldDefinitions. \<forall>v e0. validate (schema (snd d)) v = Some e0 \<longrightarrow> isValidationError e0"
  shows "isValidationError e"
proof -
  from firstError_Some [OF assms(1) [unfolded ObjectSchema_validate_def]]
  obtain d where d: "d \<in> set fieldDefinitions" and v: "validateField value0 d = Some e"
    by auto
  obtain name0 field where nf: "d = (name0, field)" by (cases d)
  from assms(2) d nf
  have "\<And>v e0. validate (schema field) v = Some e0 \<Longrightarrow> isValidationError e0" by fastforce
  with v [unfolded nf] show ?thesis by (rule validateField_isValidationError)
qed

lemma ObjectSchema_validate_missing_isValidationError:
  assumes "map_of value0 name0 = None" and "\<not> optional field"
    and "\<forall>d \<in> set before. \<forall>v e0. validate (schema (snd d)) v = Some e0 \<longrightarrow> isValidationError e0"
  shows "\<exists>e. ObjectSchema_validate (before @ (name0, field) # after) value0 = Some e
             \<and> isValidationError e"
proof (cases "ObjectSchema_validate before value0")
  case None
  with ObjectSchema_validate_missing [OF assms(1,2), of before after]
  show ?thesis by (simp add: isValidationError_def)
next
  case (Some e)
  from ObjectSchema_validate_isValidationError [OF Some assms(3)] Some
    ObjectSchema_validate_missing [OF assms(1,2), of before after]
  show ?thesis by simp
qed

lemma ObjectSchema_encode_missing:
  assumes "map_of value0 name0 = None" and "\<not> optional field"
  shows "ObjectSchema_encodeTlvInternal fabricIndexId (before @ (name0, field) # after) type0 value0
           tag0 forWriteInteraction =
           (if forWriteInteraction \<and> fieldId field = fabricIndexId then
              ObjectSchema_encodeTlvInternal fabricIndexId (before @ after) type0 value0 tag0
                forWriteInteraction
            else
              (case ObjectSchema_encodeTlvInternal fabricIndexId before type0 value0 tag0
                      forWriteInteraction of
                 Inl e \<Rightarrow> Inl e
               | Inr written \<Rightarrow>
                   Inl (ValidationError (''Missing mandatory field '' @ name0) (Some name0))))"
proof (cases "forWriteInteraction \<and> fieldId field = fabricIndexId")
  case True
  then show ?thesis
    unfolding ObjectSchema_encodeTlvInternal_def
    by (simp add: concatE_append encodeField_missing [OF assms] split: sum.splits)
next
  case False
  then have "encodeField fabricIndexId forWriteInteraction value0 (name0, field)
       = Inl (ValidationError (''Missing mandatory field '' @ name0) (Some name0))"
    using encodeField_missing [OF assms, of fabricIndexId forWriteInteraction] by simp
  then have "concatE (map (encodeField fabricIndexId forWriteInteraction value0)
                        (before @ (name0, field) # after)) =
        (case concatE (map (encodeField fabricIndexId forWriteInteraction value0) before) of
           Inl e \<Rightarrow> Inl e
         | Inr written \<Rightarrow>
             Inl (ValidationError (''Missing mandatory field '' @ name0) (Some name0)))"
    by (simp add: concatE_append split: sum.splits)
  then show ?thesis
    by (subst if_not_P [OF False])
       (simp add: ObjectSchema_encodeTlvInternal_def split: sum.splits)
qed

text \<open>
  Claim C8. While decoding, an element with a context tag whose id no field has is passed
  to \<^verbatim>\<open>TlvAny\<close> and, when that succeeds, the loop goes on after what \<^verbatim>\<open>TlvAny\<close> has read, with
  the result unchanged; the names of a decoded object are names of fields, and
  \<^verbatim>\<open>decodeTlvInternalValue\<close> fails only on a wrong container type or inside the loop, never
  because a field is missing. For a mandatory field: the decoded object has the value read
  for it, else its fallback (in an array if the field is repeated), else nothing; when a
  value lacks the field, \<^verbatim>\<open>validate\<close> fails with the error of an earlier field or with the
  \<^verbatim>\<open>ValidationError\<close> \<^verbatim>\<open>Missing mandatory field\<close>, which is a \<^verbatim>\<open>ValidationError\<close> when the earlier
  fields' schemas throw nothing else; and \<^verbatim>\<open>encodeTlvInternal\<close> does the same, except that on a
  write interaction it leaves out the field with the id of the fabric index and encodes as if
  the schema had no such field.
\<close>

theorem object_schema_fields:
  "(tlvType (typeLength element) \<noteq> TlvEndOfContainer \<and> tag element = contextTag i
      \<and> fieldById fieldDefinitions i = None
      \<and> decodeTlvInternalValue tlvAny element reader = Inr (v, n)
      \<longrightarrow> decodeFields fieldDefinitions tlvAny result (element # reader)
          = decodeFields fieldDefinitions tlvAny result (drop n reader))
   \<and> (ObjectSchema_decodeTlvInternalValue fieldDefinitions containerType tlvAny start stream
         = Inr (object, m)
        \<longrightarrow> fst ` set object \<subseteq> fst ` set fieldDefinitions)
   \<and> (isl (ObjectSchema_decodeTlvInternalValue fieldDefinitions containerType tlvAny start stream)
        \<longleftrightarrow> tlvType (typeLength start) \<noteq> containerType
            \<or> isl (decodeFields fieldDefinitions tlvAny [] stream))
   \<and> (fieldDefinitions = before @ (fieldName, field) # after
        \<and> distinct (map fst fieldDefinitions) \<and> \<not> optional field
        \<longrightarrow>
          (ObjectSchema_decodeTlvInternalValue fieldDefinitions containerType tlvAny start stream
             = Inr (object, m)
           \<longrightarrow> (\<exists>decoded rest.
                  decodeFields fieldDefinitions tlvAny [] stream = Inr (decoded, rest)
                  \<and> map_of object fieldName =
                      (case map_of decoded fieldName of
                         Some x \<Rightarrow> Some x
                       | None \<Rightarrow>
                           (case fallback field of
                              Some x \<Rightarrow> Some (if repeated field then VArray [x] else x)
                            | None \<Rightarrow> None))))
          \<and> (map_of given fieldName = None
             \<longrightarrow> ObjectSchema_validate fieldDefinitions given =
                   (case ObjectSchema_validate before given of
                      Some e \<Rightarrow> Some e
                    | None \<Rightarrow>
                        Some (ValidationError (''Missing mandatory field '' @ fieldName) (Some fieldName)))
                 \<and> ((\<forall>d \<in> set before. \<forall>x e. validate (schema (snd d)) x = Some e
                                            \<longrightarrow> isValidationError e)
                    \<longrightarrow> (\<exists>e. ObjectSchema_validate fieldDefinitions given = Some e
                             \<and> isValidationError e))
                 \<and> ObjectSchema_encodeTlvInternal fabricIndexId fieldDefinitions containerType given
                     outerTag forWriteInteraction =
                     (if forWriteInteraction \<and> fieldId field = fabricIndexId then
                        ObjectSchema_encodeTlvInternal fabricIndexId (before @ after) containerType given
                          outerTag forWriteInteraction
                      else
                        (case ObjectSchema_encodeTlvInternal fabricIndexId before containerType given
                                outerTag forWriteInteraction of
                           Inl e \<Rightarrow> Inl e
                         | Inr written \<Rightarrow>
                             Inl (ValidationError (''Missing mandatory field '' @ fieldName)
                                    (Some fieldName))))))"
proof (intro conjI impI)
  assume "tlvType (typeLength element) \<noteq> TlvEndOfContainer \<and> tag element = contextTag i
      \<and> fieldById fieldDefinitions i = None
      \<and> decodeTlvInternalValue tlvAny element reader = Inr (v, n)"
  then show "decodeFields fieldDefinitions tlvAny result (element # reader)
          = decodeFields fieldDefinitions tlvAny result (drop n reader)"
    by (elim conjE) (rule decodeFields_unknown)
next
  assume "ObjectSchema_decodeTlvInternalValue fieldDefinitions containerType tlvAny start stream
         = Inr (object, m)"
  then show "fst ` set object \<subseteq> fst ` set fieldDefinitions"
    by (rule ObjectSchema_decode_names)
next
  show "isl (ObjectSchema_decodeTlvInternalValue fieldDefinitions containerType tlvAny start stream)
        \<longleftrightarrow> tlvType (typeLength start) \<noteq> containerType
            \<or> isl (decodeFields fieldDefinitions tlvAny [] stream)"
    by (rule ObjectSchema_decode_fails)
next
  assume f: "fieldDefinitions = before @ (fieldName, field) # after
        \<and> distinct (map fst fieldDefinitions) \<and> \<not> optional field"
    and "ObjectSchema_decodeTlvInternalValue fieldDefinitions containerType tlvAny start stream
             = Inr (object, m)"
  then show "\<exists>decoded rest.
                  decodeFields fieldDefinitions tlvAny [] stream = Inr (decoded, rest)
                  \<and> map_of object fieldName =
                      (case map_of decoded fieldName of
                         Some x \<Rightarrow> Some x
                       | None \<Rightarrow>
                           (case fallback field of
                              Some x \<Rightarrow> Some (if repeated field then VArray [x] else x)
                            | None \<Rightarrow> None))"
    by (elim conjE) (rule ObjectSchema_decode_field)
next
  assume f: "fieldDefinitions = before @ (fieldName, field) # after
        \<and> distinct (map fst fieldDefinitions) \<and> \<not> optional field"
    and v: "map_of given fieldName = None"
  then show "ObjectSchema_validate fieldDefinitions given =
                   (case ObjectSchema_validate before given of
                      Some e \<Rightarrow> Some e
                    | None \<Rightarrow>
                        Some (ValidationError (''Missing mandatory field '' @ fieldName) (Some fieldName)))"
    using ObjectSchema_validate_missing [of given fieldName field before after] by simp
next
  assume f: "fieldDefinitions = before @ (fieldName, field) # after
        \<and> distinct (map fst fieldDefinitions) \<and> \<not> optional field"
    and v: "map_of given fieldName = None"
    and b: "\<forall>d \<in> set before. \<forall>x e. validate (schema (snd d)) x = Some e \<longrightarrow> isValidationError e"
  from ObjectSchema_validate_missing_isValidationError [OF v _ b, of field after] f
  show "\<exists>e. ObjectSchema_validate fieldDefinitions given = Some e \<and> isValidationError e"
    by simp
next
  assume f: "fieldDefinitions = before @ (fieldName, field) # after
        \<and> distinct (map fst fieldDefinitions) \<and> \<not> optional field"
    and v: "map_of given fieldName = None"
  then show "ObjectSchema_encodeTlvInternal fabricIndexId fieldDefinitions containerType given
                     outerTag forWriteInteraction =
                     (if forWriteInteraction \<and> fieldId field = fabricIndexId then
                        ObjectSchema_encodeTlvInternal fabricIndexId (before @ after) containerType given
                          outerTag forWriteInteraction
                      else
                        (case ObjectSchema_encodeTlvInternal fabricIndexId before containerType given
                                outerTag forWriteInteraction of
                           Inl e \<Rightarrow> Inl e
                         | Inr written \<Rightarrow>
                             Inl (ValidationError (''Missing mandatory field '' @ fieldName)
                                    (Some fieldName))))"
    using ObjectSchema_encode_missing [of given fieldName field fabricIndexId before after containerType outerTag
        forWriteInteraction]
    by simp
qed

lemma ex_unknown: "fieldById exFields 7 = None \<and> fieldById exFields 9 = None"
  by (simp add: fieldById_def exFields_def exField_def)

lemma ex_skip:
  "decodeTlvInternalValue exTlvAny (exNumberElement (contextTag 7) 6) r = Inr (VNull, 0)"
  by (simp add: exTlvAny_def exNumberElement_def)

lemma ex_decodeFields:
  "decodeFields exFields exTlvAny [] exStream = Inr ([(''a'', VNum 5)], [])"
  by code_simp

lemma ex_decode:
  "ObjectSchema_decodeTlvInternalValue exFields TlvStructure exTlvAny
     (exContainer None TlvStructure) exStream
   = Inr ([(''a'', VNum 5), (''b'', VNum 42)], 6)"
  by code_simp

lemma ex_validate_before:
  "ObjectSchema_validate [(''a'', exField 0 False None)] [(''a'', VNum 5)] = None"
  by (simp add: ObjectSchema_validate_def validateField_def exField_def exNumberSchema_def
      prefixFieldName_def)

lemma ex_encode_before:
  "ObjectSchema_encodeTlvInternal exFabricIndexId [(''a'', exField 0 False None)] TlvStructure
     [(''a'', VNum 5)] None False
   = Inr [exContainer None TlvStructure, exNumberElement (contextTag 0) 5,
          exContainer None TlvEndOfContainer]"
  by (simp add: ObjectSchema_encodeTlvInternal_def encodeField_def exField_def exNumberSchema_def
      exContainer_def)


theorem object_schema_fields_witness:
  "fieldById exFields 7 = None
   \<and> decodeTlvInternalValue exTlvAny (exNumberElement (contextTag 7) 6) (drop 2 exStream)
       = Inr (VNull, 0)
   \<and> decodeFields exFields exTlvAny [(''a'', VNum 5)]
         (exNumberElement (contextTag 7) 6 # drop 2 exStream)
       = decodeFields exFields exTlvAny [(''a'', VNum 5)] (drop 2 exStream)
   \<and> ObjectSchema_decodeTlvInternalValue exFields TlvStructure exTlvAny
         (exContainer None TlvStructure) exStream
       = Inr ([(''a'', VNum 5), (''b'', VNum 42)], 6)
   \<and> fst ` set [(''a'', VNum 5), (''b'', VNum (42 :: int))] \<subseteq> fst ` set exFields
   \<and> decodeFields exFields exTlvAny [] exStream = Inr ([(''a'', VNum 5)], [])
   \<and> fallback (exField 1 False (Some (VNum 42))) = Some (VNum 42)
   \<and> distinct (map fst exFields)
   \<and> \<not> optional (exField 1 False (Some (VNum 42)))
   \<and> map_of [(''a'', VNum 5)] ''b'' = None
   \<and> ObjectSchema_validate exFields [(''a'', VNum 5)]
       = Some (ValidationError ''Missing mandatory field b'' (Some ''b''))
   \<and> isValidationError (the (ObjectSchema_validate exFields [(''a'', VNum 5)]))
   \<and> ObjectSchema_encodeTlvInternal exFabricIndexId exFields TlvStructure [(''a'', VNum 5)]
         None False
       = Inl (ValidationError ''Missing mandatory field b'' (Some ''b''))"
proof -
  note t = object_schema_fields [where element = "exNumberElement (contextTag 7) 6" and i = 7
      and fieldDefinitions = exFields and tlvAny = exTlvAny and reader = "drop 2 exStream"
      and v = VNull and n = 0 and result = "[(''a'', VNum 5)]"
      and containerType = TlvStructure and start = "exContainer None TlvStructure"
      and stream = exStream and object = "[(''a'', VNum 5), (''b'', VNum 42)]" and m = 6
      and before = "[(''a'', exField 0 False None)]" and fieldName = "''b''"
      and field = "exField 1 False (Some (VNum 42))" and after = "[(''c'', exField 2 True None)]"
      and given = "[(''a'', VNum 5)]" and fabricIndexId = exFabricIndexId and outerTag = None
      and forWriteInteraction = False]
  have u: "tlvType (typeLength (exNumberElement (contextTag 7) 6)) \<noteq> TlvEndOfContainer
      \<and> tag (exNumberElement (contextTag 7) 6) = contextTag 7
      \<and> fieldById exFields 7 = None
      \<and> decodeTlvInternalValue exTlvAny (exNumberElement (contextTag 7) 6) (drop 2 exStream)
          = Inr (VNull, 0)"
    by (simp add: ex_unknown ex_skip) (simp add: exNumberElement_def)
  have f: "exFields = [(''a'', exField 0 False None)] @ (''b'', exField 1 False (Some (VNum 42)))
                       # [(''c'', exField 2 True None)]
           \<and> distinct (map fst exFields) \<and> \<not> optional (exField 1 False (Some (VNum 42)))"
    by (simp add: exFields_def exField_def)
  have g: "map_of [(''a'', VNum 5)] ''b'' = None" by simp
  have b: "\<forall>d \<in> set [(''a'', exField 0 False None)].
             \<forall>x e. validate (schema (snd d)) x = Some e \<longrightarrow> isValidationError e"
    by (auto simp: exField_def exNumberSchema_def exNotANumber_def isValidationError_def
        split: tlvValue.splits)
  from t u have 1: "decodeFields exFields exTlvAny [(''a'', VNum 5)]
         (exNumberElement (contextTag 7) 6 # drop 2 exStream)
       = decodeFields exFields exTlvAny [(''a'', VNum 5)] (drop 0 (drop 2 exStream))"
    by blast
  from t ex_decode
  have 2: "fst ` set [(''a'', VNum 5), (''b'', VNum (42 :: int))] \<subseteq> fst ` set exFields"
    by blast
  from t f g have 3: "ObjectSchema_validate exFields [(''a'', VNum 5)] =
                   (case ObjectSchema_validate [(''a'', exField 0 False None)] [(''a'', VNum 5)] of
                      Some e \<Rightarrow> Some e
                    | None \<Rightarrow>
                        Some (ValidationError (''Missing mandatory field '' @ ''b'') (Some ''b'')))"
    by blast
  from t f g b have 4: "\<exists>e. ObjectSchema_validate exFields [(''a'', VNum 5)] = Some e
                             \<and> isValidationError e"
    by blast
  from t f g have 5: "ObjectSchema_encodeTlvInternal exFabricIndexId exFields TlvStructure
                     [(''a'', VNum 5)] None False =
                     (if False \<and> fieldId (exField 1 False (Some (VNum 42))) = exFabricIndexId then
                        ObjectSchema_encodeTlvInternal exFabricIndexId
                          ([(''a'', exField 0 False None)] @ [(''c'', exField 2 True None)])
                          TlvStructure [(''a'', VNum 5)] None False
                      else
                        (case ObjectSchema_encodeTlvInternal exFabricIndexId
                                [(''a'', exField 0 False None)] TlvStructure [(''a'', VNum 5)]
                                None False of
                           Inl e \<Rightarrow> Inl e
                         | Inr written \<Rightarrow>
                             Inl (ValidationError (''Missing mandatory field '' @ ''b'')
                                    (Some ''b''))))"
    by blast
  from 3 have r3: "ObjectSchema_validate exFields [(''a'', VNum 5)]
       = Some (ValidationError ''Missing mandatory field b'' (Some ''b''))"
    by (simp add: ex_validate_before)
  from 4 have r4: "isValidationError (the (ObjectSchema_validate exFields [(''a'', VNum 5)]))"
    by auto
  from 5 have r5: "ObjectSchema_encodeTlvInternal exFabricIndexId exFields TlvStructure
       [(''a'', VNum 5)] None False
       = Inl (ValidationError ''Missing mandatory field b'' (Some ''b''))"
    by (simp add: ex_encode_before)
  from 1 have r1: "decodeFields exFields exTlvAny [(''a'', VNum 5)]
         (exNumberElement (contextTag 7) 6 # drop 2 exStream)
       = decodeFields exFields exTlvAny [(''a'', VNum 5)] (drop 2 exStream)"
    by (simp only: drop_0)
  have r6: "fallback (exField 1 False (Some (VNum 42))) = Some (VNum 42)"
    by (simp add: exField_def)
  from u f g r1 2 r3 r4 r5 r6 ex_decode ex_decodeFields show ?thesis by blast
qed

text \<open>
  Claim C8 at a failing input: on a write interaction, a value without the mandatory fabric
  index is encoded, as an empty structure, and no \<^verbatim>\<open>ValidationError\<close> is raised.
\<close>

theorem fabric_index_omitted_counterexample:
  "missingMandatory exFabricScoped [] = exFabricScoped
   \<and> exFabricScoped \<noteq> []
   \<and> ObjectSchema_encodeTlvInternal exFabricIndexId exFabricScoped TlvStructure [] None True
       = Inr [exContainer None TlvStructure, exContainer None TlvEndOfContainer]"
  by (simp add: ObjectSchema_encodeTlvInternal_def encodeField_def exFabricScoped_def exField_def
      exContainer_def missingMandatory_def)

end
